(* ===== verification/Prelude.thy ===== *)
theory Prelude
  imports Main "HOL-Library.Word"
begin

text \<open>
  Shared material of the development: the names of the C integer types, bounds-checked
  array access, the interfaces (locales) that several components meet, and the generic
  lemmas on lists, options and words that the component proofs rest on.

  Undefined behaviour of the C code (an access outside an array, a write through a
  dangling pointer) is the value \<open>None\<close>; a definition that never returns \<open>None\<close> under its
  invariant is memory safe there.
\<close>

unbundle bit_operations_syntax

section \<open>C integer types\<close>

type_synonym u8 = "8 word"
type_synonym u16 = "16 word"
type_synonym u32 = "32 word"
type_synonym u64 = "64 word"

named_theorems bounds \<open>bounds of word expressions\<close>
named_theorems sizes \<open>sizes of the packed structures\<close>

lemma unat_u8_lt [bounds]: "unat (w :: u8) < 256"
  by (rule order_less_le_trans [OF unsigned_less]) simp

lemma unat_u16_lt [bounds]: "unat (w :: u16) < 65536"
  by (rule order_less_le_trans [OF unsigned_less]) simp

lemma unat_u32_lt [bounds]: "unat (w :: u32) < 4294967296"
  by (rule order_less_le_trans [OF unsigned_less]) simp

lemma unat_u64_lt [bounds]: "unat (w :: u64) < 18446744073709551616"
  by (rule order_less_le_trans [OF unsigned_less]) simp

lemma unat_lt_pow: "unat (w :: 'a::len word) < 2 ^ LENGTH('a)"
  by (rule unsigned_less)

lemma unat_word_of_nat_mod: "unat (word_of_nat n :: 'a::len word) = n mod 2 ^ LENGTH('a)"
  by (simp add: unsigned_of_nat take_bit_eq_mod)

lemma unat_word_of_nat_small:
  "n < 2 ^ LENGTH('a) \<Longrightarrow> unat (word_of_nat n :: 'a::len word) = n"
  by (simp add: unat_word_of_nat_mod)

lemma unat_add_of_nat:
  "unat w + n < 2 ^ LENGTH('a) \<Longrightarrow> unat (w + word_of_nat n :: 'a::len word) = unat w + n"
  using unat_word_of_nat_small [of "unat w + n", where ?'a = 'a] by simp

lemma of_nat_unat_eq: "word_of_nat (unat w) = (w :: 'a::len word)"
  by simp

lemma unat_eqD: "unat w = n \<Longrightarrow> (w :: 'a::len word) = word_of_nat n"
  by (metis of_nat_unat_eq)

section \<open>Bounds-checked access\<close>

text \<open>A read and a write of one array element.\<close>

definition rd :: "'a list \<Rightarrow> nat \<Rightarrow> 'a option" where
  "rd xs i = (if i < length xs then Some (xs ! i) else None)"

definition wr :: "'a list \<Rightarrow> nat \<Rightarrow> 'a \<Rightarrow> 'a list option" where
  "wr xs i v = (if i < length xs then Some (xs[i := v]) else None)"

text \<open>\<open>memcpy (mem + off, bs, length bs)\<close> on the array \<open>mem\<close>.\<close>

definition poke :: "'a list \<Rightarrow> nat \<Rightarrow> 'a list \<Rightarrow> 'a list option" where
  "poke mem off bs =
     (if off + length bs \<le> length mem
      then Some (take off mem @ bs @ drop (off + length bs) mem) else None)"

text \<open>\<open>memcpy (buf, mem + off, n)\<close>: the bytes read.\<close>

definition peek :: "'a list \<Rightarrow> nat \<Rightarrow> nat \<Rightarrow> 'a list option" where
  "peek mem off n = (if off + n \<le> length mem then Some (take n (drop off mem)) else None)"

lemma rd_Some [simp]: "i < length xs \<Longrightarrow> rd xs i = Some (xs ! i)"
  by (simp add: rd_def)

lemma wr_Some [simp]: "i < length xs \<Longrightarrow> wr xs i v = Some (xs[i := v])"
  by (simp add: wr_def)

lemma rd_None_iff: "rd xs i = None \<longleftrightarrow> length xs \<le> i"
  by (simp add: rd_def)

lemma poke_Some [simp]:
  "off + length bs \<le> length mem \<Longrightarrow>
   poke mem off bs = Some (take off mem @ bs @ drop (off + length bs) mem)"
  by (simp add: poke_def)

lemma poke_None_iff: "poke mem off bs = None \<longleftrightarrow> length mem < off + length bs"
  by (auto simp: poke_def)

lemma poke_length: "poke mem off bs = Some mem' \<Longrightarrow> length mem' = length mem"
  by (auto simp: poke_def split: if_splits)

lemma peek_Some [simp]:
  "off + n \<le> length mem \<Longrightarrow> peek mem off n = Some (take n (drop off mem))"
  by (simp add: peek_def)

lemma peek_poke_same: "poke mem off bs = Some mem' \<Longrightarrow> peek mem' off (length bs) = Some bs"
  by (auto simp: poke_def peek_def split: if_splits)

text \<open>Writing the next chunk of a buffer that is already filled up to \<open>off\<close>.\<close>

lemma poke_append_fill:
  assumes "take off mem = pre" "off = length pre" "off + length bs \<le> length mem"
  shows "\<exists>mem'. poke mem off bs = Some mem' \<and> take (off + length bs) mem' = pre @ bs
           \<and> length mem' = length mem"
  using assms by (auto simp: poke_def)

text \<open>Two consecutive chunks are one.\<close>

lemma poke_poke:
  "Option.bind (poke mem off xs) (\<lambda>m. poke m (off + length xs) ys) = poke mem off (xs @ ys)"
proof (cases "off + length xs \<le> length mem")
  case True
  have "drop (length ys + (off + length xs)) mem = drop (off + (length xs + length ys)) mem"
    by (rule arg_cong [of _ _ "\<lambda>n. drop n mem"]) simp
  with True show ?thesis by (simp add: poke_def add.assoc)
qed (simp add: poke_def)

section \<open>Runs of partial steps\<close>

text \<open>A run of a step function over its inputs; \<open>None\<close> as soon as a step is undefined.\<close>

fun run :: "('e \<Rightarrow> 's \<Rightarrow> 's option) \<Rightarrow> 'e list \<Rightarrow> 's \<Rightarrow> 's option" where
  "run step [] s = Some s"
| "run step (e # es) s = Option.bind (step e s) (run step es)"

lemma run_append:
  "run step (es @ fs) s = Option.bind (run step es s) (run step fs)"
proof (induction es arbitrary: s)
  case (Cons e es)
  then show ?case by (cases "step e s") auto
qed simp

section \<open>Interfaces\<close>

text \<open>
  A machine with total steps and an invariant: the contract that every operation of a
  component keeps the component's invariant.
\<close>

locale machine =
  fixes step :: "'e \<Rightarrow> 's \<Rightarrow> 's"
    and inv :: "'s \<Rightarrow> bool"
  assumes inv_step: "inv s \<Longrightarrow> inv (step e s)"
begin

lemma inv_fold: "inv s \<Longrightarrow> inv (fold step es s)"
  by (induction es arbitrary: s) (simp_all add: inv_step)

end

text \<open>
  A machine whose steps may be undefined: under the invariant, an admissible input is
  defined and keeps the invariant.
\<close>

locale safe_machine =
  fixes step :: "'e \<Rightarrow> 's \<Rightarrow> 's option"
    and inv :: "'s \<Rightarrow> bool"
    and ok :: "'e \<Rightarrow> bool"
  assumes safe_step: "inv s \<Longrightarrow> ok e \<Longrightarrow> \<exists>s'. step e s = Some s' \<and> inv s'"
begin

lemma safe_run: "inv s \<Longrightarrow> list_all ok es \<Longrightarrow> \<exists>s'. run step es s = Some s' \<and> inv s'"
proof (induction es arbitrary: s)
  case (Cons e es)
  then obtain s1 where "step e s = Some s1" "inv s1"
    using safe_step [of s e] by auto
  then show ?case using Cons by auto
qed simp

lemma run_inv: "inv s \<Longrightarrow> list_all ok es \<Longrightarrow> run step es s = Some s' \<Longrightarrow> inv s'"
  using safe_run by fastforce

end

text \<open>A counter of a ring of \<open>N\<close> slots.\<close>

locale ring_counter =
  fixes N :: nat
    and nxt :: "'w \<Rightarrow> 'w"
    and ix :: "'w \<Rightarrow> nat"
  assumes N_pos: "0 < N"
    and nxt_ix: "ix w < N \<Longrightarrow> ix (nxt w) = (ix w + 1) mod N"
begin

lemma nxt_lt: "ix w < N \<Longrightarrow> ix (nxt w) < N"
  by (simp add: nxt_ix N_pos)

lemma iter_ix: "ix w < N \<Longrightarrow> ix ((nxt ^^ k) w) = (ix w + k) mod N"
proof (induction k)
  case (Suc k)
  have "ix ((nxt ^^ k) w) < N"
    using Suc N_pos by simp
  then have "ix ((nxt ^^ Suc k) w) = (ix ((nxt ^^ k) w) + 1) mod N"
    by (simp add: nxt_ix)
  also have "\<dots> = (ix w + Suc k) mod N"
    using Suc by (simp add: mod_Suc_eq)
  finally show ?case .
qed simp

lemma iter_full_turn: "ix w < N \<Longrightarrow> ix ((nxt ^^ N) w) = ix w"
  by (simp add: iter_ix)

end

section \<open>List lemmas\<close>

lemma split3: "take a xs @ take b (drop a xs) @ drop (a + b) xs = xs"
  by (metis add.commute append_take_drop_id drop_drop)

lemma nth_concat_uniform:
  assumes "\<And>x. x \<in> set xss \<Longrightarrow> length x = n" "i < length xss" "j < n"
  shows "concat xss ! (i * n + j) = xss ! i ! j"
  using assms
proof (induction xss arbitrary: i)
  case (Cons x xss)
  then show ?case
    by (cases i) (simp_all add: nth_append algebra_simps)
qed simp

lemma length_concat_uniform:
  "(\<And>x. x \<in> set xss \<Longrightarrow> length x = n) \<Longrightarrow> length (concat xss) = length xss * n"
  by (induction xss) auto

end
