(* ===== verification/Ntp_Time.thy ===== *)
theory Ntp_Time
  imports Complex_Main Prelude "HOL-Library.Log_Nat"
begin

text \<open>
  The time arithmetic of \<open>thread_downsampling\<close> (\<open>dws_user.c\<close>): an NTP time stamp (seconds
  since 1900 in the upper 32 bits, a binary fraction in the lower 32) and the real-time
  clock that was reset when the stamp was taken are combined into nanoseconds since 1970.
  The fraction goes through IEEE double arithmetic in C; \<open>dbl_div\<close> and \<open>dbl_mul_trunc\<close> are
  that arithmetic (round to nearest, ties to even, 53-bit significand) on the operands the
  code uses, for which no exponent leaves the normal range.
\<close>

section \<open>Double arithmetic on quotients at most one\<close>

definition round_half_even :: "nat \<Rightarrow> nat \<Rightarrow> nat" where
  "round_half_even n d =
     (let q = n div d; r = n mod d in
      if 2 * r < d then q else if d < 2 * r then q + 1 else q + q mod 2)"

text \<open>The number of doublings that bring \<open>n\<close> up to \<open>d\<close>.\<close>

function norm_shift :: "nat \<Rightarrow> nat \<Rightarrow> nat" where
  "norm_shift n d = (if n = 0 \<or> d \<le> n then 0 else Suc (norm_shift (2 * n) d))"
  by pat_completeness auto
termination
  by (relation "measure (\<lambda>(n, d). d - n)") auto

declare norm_shift.simps [simp del]

text \<open>A double in \<open>[0, 1]\<close> is a pair \<open>(m, s)\<close> with value \<open>m / 2 ^ s\<close>.\<close>

definition dbl_div :: "nat \<Rightarrow> nat \<Rightarrow> nat \<times> nat" where
  "dbl_div n d =
     (if n = 0 then (0, 52)
      else let s = 52 + norm_shift n d in (round_half_even (n * 2 ^ s) d, s))"

text \<open>The product with an integer that is a double, truncated to an unsigned integer.\<close>

definition dbl_mul_trunc :: "nat \<times> nat \<Rightarrow> nat \<Rightarrow> nat" where
  "dbl_mul_trunc x c =
     (let p = fst x * c; t = floorlog 2 p - 53 in
      round_half_even p (2 ^ t) * 2 ^ t div 2 ^ snd x)"

lemma round_half_even_error:
  assumes "0 < d"
  shows "\<bar>real (round_half_even n d) - real n / real d\<bar> \<le> 1 / 2"
proof -
  have n: "real n = real (n div d) * real d + real (n mod d)"
    by (metis div_mult_mod_eq of_nat_add of_nat_mult)
  have lt: "n mod d < d" using assms by simp
  have "real n / real d = real (n div d) + real (n mod d) / real d"
    using assms by (simp add: n add_divide_distrib)
  moreover have "2 * (n mod d) < d \<Longrightarrow> real (n mod d) / real d \<le> 1 / 2"
    using assms by (simp add: field_simps)
  moreover have "d \<le> 2 * (n mod d) \<Longrightarrow> 1 / 2 \<le> real (n mod d) / real d"
    using assms by (simp add: field_simps)
  moreover have "2 * (n mod d) \<le> d \<Longrightarrow> real (n mod d) / real d \<le> 1 / 2"
    using assms by (simp add: field_simps)
  moreover have "real (n mod d) / real d < 1" using assms lt by simp
  moreover have "0 \<le> real (n mod d) / real d" by simp
  moreover have "n div d mod 2 \<le> 1" by simp
  ultimately show ?thesis
    by (auto simp: round_half_even_def Let_def abs_le_iff not_less le_less)
qed

lemma round_half_even_exact: "0 < d \<Longrightarrow> round_half_even (q * d) d = q"
  by (simp add: round_half_even_def)

lemma round_half_even_le:
  assumes "0 < d" "n \<le> q * d"
  shows "round_half_even n d \<le> q"
proof (cases "n = q * d")
  case False
  then have "n div d < q"
    using assms by (simp add: div_less_iff_less_mult)
  moreover have "n div d mod 2 \<le> 1" by simp
  ultimately show ?thesis
    by (auto simp: round_half_even_def Let_def)
qed (use assms in \<open>simp add: round_half_even_exact\<close>)

text \<open>After the shift the quotient lies between one and two.\<close>

lemma norm_shift_bounds:
  assumes "0 < n" "n \<le> d"
  shows "d \<le> n * 2 ^ norm_shift n d \<and> n * 2 ^ norm_shift n d < 2 * d"
  using assms
proof (induction n d rule: norm_shift.induct)
  case (1 n d)
  show ?case
  proof (cases "d \<le> n")
    case True
    with 1 show ?thesis by (simp add: norm_shift.simps [of d d])
  next
    case ndn: False
    show ?thesis
    proof (cases "2 * n \<le> d")
      case True
      with ndn 1 show ?thesis by (simp add: norm_shift.simps [of n d] mult.assoc mult.left_commute)
    next
      case False
      with ndn 1 show ?thesis
        by (simp add: norm_shift.simps [of n d] norm_shift.simps [of "2 * n" d])
    qed
  qed
qed

lemma dbl_div_scale: "52 \<le> snd (dbl_div n d)"
  by (simp add: dbl_div_def Let_def)

lemma dbl_div_mant:
  assumes "n \<le> d"
  shows "fst (dbl_div n d) \<le> 2 ^ 53"
proof (cases "n = 0")
  case False
  have "n * 2 ^ (52 + norm_shift n d) \<le> 2 ^ 53 * d"
    using norm_shift_bounds [of n d] False assms by (simp add: power_add)
  then show ?thesis
    using False assms round_half_even_le [of d "n * 2 ^ (52 + norm_shift n d)" "2 ^ 53"]
    by (simp add: dbl_div_def Let_def)
qed (simp add: dbl_div_def)

lemma dbl_div_error:
  assumes "n \<le> d" "0 < d"
  shows "\<bar>real (fst (dbl_div n d)) / 2 ^ snd (dbl_div n d) - real n / real d\<bar>
           \<le> 1 / 2 ^ (snd (dbl_div n d) + 1)"
proof (cases "n = 0")
  case False
  define s where "s = 52 + norm_shift n d"
  have "\<bar>real (round_half_even (n * 2 ^ s) d) - real n * 2 ^ s / real d\<bar> \<le> 1 / 2"
    using round_half_even_error [of d "n * 2 ^ s"] assms by simp
  then have "\<bar>real (round_half_even (n * 2 ^ s) d) - real n * 2 ^ s / real d\<bar> / 2 ^ s
      \<le> 1 / 2 / 2 ^ s"
    by (rule divide_right_mono) simp
  moreover have "real (round_half_even (n * 2 ^ s) d) / 2 ^ s - real n / real d
      = (real (round_half_even (n * 2 ^ s) d) - real n * 2 ^ s / real d) / 2 ^ s"
    by (simp add: diff_divide_distrib)
  ultimately show ?thesis
    using False by (simp add: dbl_div_def Let_def s_def power_add)
qed (use assms in \<open>simp add: dbl_div_def\<close>)

text \<open>
  The truncated product is within one of the exact quotient and never above the factor.
  The hypotheses bound the factor so that the rounding of the product loses less than the
  guard bits of the significand.
\<close>

lemma product_shift:
  assumes "n \<le> d" "c \<le> 10 ^ 9"
  shows "floorlog 2 (fst (dbl_div n d) * c) - 53 \<le> 30"
proof -
  have "fst (dbl_div n d) * c \<le> 2 ^ 53 * 10 ^ 9"
    using assms dbl_div_mant by (intro mult_le_mono) auto
  then have "fst (dbl_div n d) * c < 2 ^ 83"
    by (rule le_less_trans) simp
  then have "floorlog 2 (fst (dbl_div n d) * c) \<le> 83"
    by (intro floorlog_leI) simp_all
  then show ?thesis by simp
qed

lemma two_half_errors:
  "\<bar>a - b\<bar> \<le> u / 2 \<Longrightarrow> \<bar>b - c\<bar> \<le> v / 2 \<Longrightarrow> u + v \<le> 1 / 2097152
   \<Longrightarrow> \<bar>a - c\<bar> < (1::real) / 1048576"
  by linarith

lemma dbl_mul_error:
  assumes "n \<le> d" "0 < d" "c \<le> 10 ^ 9"
  defines "p \<equiv> fst (dbl_div n d) * c"
  defines "t \<equiv> floorlog 2 p - 53"
  shows "\<bar>real (round_half_even p (2 ^ t) * 2 ^ t) / 2 ^ snd (dbl_div n d)
            - real n * real c / real d\<bar> < 1 / 1048576"
proof -
  define s where "s = snd (dbl_div n d)"
  define y where "y = real (round_half_even p (2 ^ t))"
  have s: "52 \<le> s" by (simp add: s_def dbl_div_scale)
  have t: "t \<le> 30" using product_shift assms by (simp add: t_def p_def)
  have "\<bar>y - real p / 2 ^ t\<bar> \<le> 1 / 2"
    using round_half_even_error [of "2 ^ t" p] by (simp add: y_def)
  then have "\<bar>y - real p / 2 ^ t\<bar> * (2 ^ t / 2 ^ s) \<le> 1 / 2 * (2 ^ t / 2 ^ s)"
    by (rule mult_right_mono) simp
  also have "\<bar>y - real p / 2 ^ t\<bar> * (2 ^ t / 2 ^ s) = \<bar>(y - real p / 2 ^ t) * (2 ^ t / 2 ^ s)\<bar>"
    by (simp add: abs_mult)
  also have "(y - real p / 2 ^ t) * (2 ^ t / 2 ^ s) = y * 2 ^ t / 2 ^ s - real p / 2 ^ s"
    by (simp add: left_diff_distrib diff_divide_distrib)
  finally have e1: "\<bar>y * 2 ^ t / 2 ^ s - real p / 2 ^ s\<bar> \<le> 2 ^ t / 2 ^ s / 2" by simp
  have "\<bar>real (fst (dbl_div n d)) / 2 ^ s - real n / real d\<bar> * real c \<le> 1 / 2 ^ (s + 1) * real c"
    using dbl_div_error [of n d] assms by (intro mult_right_mono) (simp_all add: s_def)
  also have "\<bar>real (fst (dbl_div n d)) / 2 ^ s - real n / real d\<bar> * real c
      = \<bar>(real (fst (dbl_div n d)) / 2 ^ s - real n / real d) * real c\<bar>"
    by (simp add: abs_mult)
  also have "(real (fst (dbl_div n d)) / 2 ^ s - real n / real d) * real c
      = real p / 2 ^ s - real n * real c / real d"
    by (simp add: p_def left_diff_distrib)
  finally have e2: "\<bar>real p / 2 ^ s - real n * real c / real d\<bar> \<le> real c / 2 ^ s / 2" by simp
  have "(2::real) ^ t \<le> 2 ^ 30" using t by (intro power_increasing) auto
  moreover have "real c \<le> 10 ^ 9" using assms(3) by (metis of_nat_le_iff of_nat_numeral of_nat_power)
  ultimately have "2 ^ t + real c \<le> 2 ^ 31" by simp
  moreover have "(2::real) ^ 52 \<le> 2 ^ s" using s by (intro power_increasing) auto
  ultimately have "(2 ^ t + real c) / 2 ^ s \<le> 2 ^ 31 / 2 ^ 52"
    by (intro frac_le) auto
  also have "\<dots> = 1 / 2097152" by simp
  finally have "2 ^ t / 2 ^ s + real c / 2 ^ s \<le> 1 / 2097152"
    by (simp only: add_divide_distrib)
  with e1 e2 have "\<bar>y * 2 ^ t / 2 ^ s - real n * real c / real d\<bar> < 1 / 1048576"
    by (rule two_half_errors)
  then show ?thesis by (simp add: y_def s_def)
qed

lemma dbl_mul_trunc_close:
  assumes "n \<le> d" "0 < d" "c \<le> 10 ^ 9"
  shows "dbl_mul_trunc (dbl_div n d) c \<le> c"
    and "\<bar>int (dbl_mul_trunc (dbl_div n d) c) - int (n * c div d)\<bar> \<le> 1"
proof -
  define p where "p = fst (dbl_div n d) * c"
  define t where "t = floorlog 2 p - 53"
  define y where "y = real (round_half_even p (2 ^ t) * 2 ^ t) / 2 ^ snd (dbl_div n d)"
  define x where "x = real n * real c / real d"
  have yx: "\<bar>y - x\<bar> < 1 / 1048576"
    using dbl_mul_error [OF assms] by (simp add: y_def x_def p_def t_def)
  have "int (dbl_mul_trunc (dbl_div n d) c) = \<lfloor>y\<rfloor>"
    using floor_divide_of_nat_eq [of "round_half_even p (2 ^ t) * 2 ^ t" "2 ^ snd (dbl_div n d)",
        where ?'a = real]
    by (simp add: y_def dbl_mul_trunc_def Let_def flip: p_def t_def)
  moreover have "int (n * c div d) = \<lfloor>x\<rfloor>"
    unfolding x_def using floor_divide_of_nat_eq [of "n * c" d, where ?'a = real] by simp
  moreover have "x \<le> real c"
    using assms by (simp add: x_def divide_le_eq mult.commute mult_left_mono)
  moreover have "\<lfloor>y\<rfloor> \<le> \<lfloor>x\<rfloor> + 1" "\<lfloor>x\<rfloor> \<le> \<lfloor>y\<rfloor> + 1" using yx by linarith+
  moreover have "x \<le> real c \<Longrightarrow> \<lfloor>y\<rfloor> \<le> int c" using yx by linarith
  ultimately show "dbl_mul_trunc (dbl_div n d) c \<le> c"
    and "\<bar>int (dbl_mul_trunc (dbl_div n d) c) - int (n * c div d)\<bar> \<le> 1"
    by simp_all
qed

section \<open>The conversion in the code\<close>

definition EPOCH_OFFSET :: u64 where "EPOCH_OFFSET = 2208988800"
definition SECONDS_TO_NSECONDS :: nat where "SECONDS_TO_NSECONDS = 1000000000"
definition MAX_UINT32 :: nat where "MAX_UINT32 = 0xFFFFFFFF"

lemmas time_consts = EPOCH_OFFSET_def SECONDS_TO_NSECONDS_def MAX_UINT32_def

text \<open>\<open>nanoseconds\<close>: the fraction of a second in nanoseconds.\<close>

definition fraction_ns :: "u32 \<Rightarrow> u32" where
  "fraction_ns fraction =
     word_of_nat (dbl_mul_trunc (dbl_div (unat fraction) MAX_UINT32) SECONDS_TO_NSECONDS)"

text \<open>
  \<open>time_synchro_us\<close>, which holds nanoseconds: the arguments are the NTP time stamp and the
  real-time clock, already converted to \<open>uint64_t\<close>; all of the arithmetic wraps at 64 bits.
\<close>

definition ntp_seconds :: "u64 \<Rightarrow> u64" where
  "ntp_seconds time_synchro = drop_bit 32 (0xFFFFFFFF00000000 AND time_synchro)"

definition ntp_fraction :: "u64 \<Rightarrow> u32" where
  "ntp_fraction time_synchro = ucast (0x00000000FFFFFFFF AND time_synchro)"

definition time_synchro_ns :: "u64 \<Rightarrow> u64 \<Rightarrow> u64 \<Rightarrow> u64" where
  "time_synchro_ns time_synchro tv_sec tv_nsec =
     (let seconds = (ntp_seconds time_synchro + tv_sec - EPOCH_OFFSET)
                      * word_of_nat SECONDS_TO_NSECONDS + tv_nsec
      in seconds + ucast (fraction_ns (ntp_fraction time_synchro)))"

lemma fraction_ns_nat:
  "unat (fraction_ns f) = dbl_mul_trunc (dbl_div (unat f) MAX_UINT32) SECONDS_TO_NSECONDS"
proof -
  have "dbl_mul_trunc (dbl_div (unat f) MAX_UINT32) SECONDS_TO_NSECONDS \<le> 10 ^ 9"
    using dbl_mul_trunc_close(1) [of "unat f" MAX_UINT32 SECONDS_TO_NSECONDS] unat_u32_lt [of f]
    by (simp add: time_consts)
  then show ?thesis
    by (simp add: fraction_ns_def unat_word_of_nat_small)
qed

lemma fraction_ns_le: "unat (fraction_ns f) \<le> 1000000000"
  using dbl_mul_trunc_close(1) [of "unat f" MAX_UINT32 SECONDS_TO_NSECONDS] unat_u32_lt [of f]
  by (simp add: fraction_ns_nat time_consts)

lemma ntp_seconds_nat: "unat (ntp_seconds ts) = unat ts div 2 ^ 32"
proof -
  have "drop_bit 32 (0xFFFFFFFF00000000 AND ts) = mask 32 AND drop_bit 32 ts"
    by (simp add: drop_bit_and mask_eq_exp_minus_1)
  also have "\<dots> = take_bit 32 (drop_bit 32 ts)"
    by (simp add: take_bit_eq_mask and.commute)
  finally have "unat (ntp_seconds ts) = take_bit 32 (drop_bit 32 (unat ts))"
    by (simp add: ntp_seconds_def unsigned_take_bit_eq unat_drop_bit_eq)
  also have "\<dots> = unat ts div 2 ^ 32 mod 2 ^ 32"
    by (simp only: take_bit_eq_mod drop_bit_eq_div)
  also have "\<dots> = unat ts div 2 ^ 32"
    using unat_u64_lt [of ts] by simp
  finally show ?thesis .
qed

lemma ntp_fraction_nat: "unat (ntp_fraction ts) = unat ts mod 2 ^ 32"
proof -
  have "0x00000000FFFFFFFF AND ts = take_bit 32 ts"
    by (simp add: take_bit_eq_mask mask_eq_exp_minus_1 and.commute)
  then have "unat (ntp_fraction ts) = take_bit 32 (unat ts)"
    by (simp only: ntp_fraction_def) (simp add: unsigned_ucast_eq unsigned_take_bit_eq)
  then show ?thesis by (simp only: take_bit_eq_mod)
qed

text \<open>The 64-bit computation is the one over the naturals when the date is after 1970.\<close>

lemma time_synchro_ns_nat:
  assumes "2208988800 \<le> unat ts div 2 ^ 32 + unat tv_sec"
    and "unat tv_sec < 2 ^ 32" "unat tv_nsec < 10 ^ 9"
  shows "unat (time_synchro_ns ts tv_sec tv_nsec) =
           (unat ts div 2 ^ 32 + unat tv_sec - 2208988800) * 10 ^ 9 + unat tv_nsec
             + unat (fraction_ns (ntp_fraction ts))"
proof -
  define s where "s = unat ts div 2 ^ 32"
  define f where "f = unat (fraction_ns (ntp_fraction ts))"
  define total where "total = (s + unat tv_sec - 2208988800) * 10 ^ 9 + unat tv_nsec + f"
  have "ntp_seconds ts = word_of_nat s"
    by (simp only: s_def ntp_seconds_nat [symmetric]) simp
  moreover have "tv_sec = word_of_nat (unat tv_sec)" "tv_nsec = word_of_nat (unat tv_nsec)"
    by simp_all
  moreover have "(ucast (fraction_ns (ntp_fraction ts)) :: u64) = word_of_nat f"
    by (simp add: f_def)
  moreover have "(word_of_nat (s + unat tv_sec - 2208988800) :: u64)
      = word_of_nat s + word_of_nat (unat tv_sec) - 2208988800"
    using assms(1) by (simp add: of_nat_diff s_def)
  ultimately have "time_synchro_ns ts tv_sec tv_nsec = word_of_nat total"
    by (simp add: time_synchro_ns_def Let_def total_def time_consts)
  moreover have "total < 2 ^ LENGTH(64)"
  proof -
    have "s < 4294967296" using unat_u64_lt [of ts] by (simp add: s_def)
    then have "(s + unat tv_sec - 2208988800) * 10 ^ 9 \<le> 8589934592 * 10 ^ 9"
      using assms by (intro mult_le_mono) auto
    then show ?thesis
      using assms fraction_ns_le [of "ntp_fraction ts"] by (simp add: total_def f_def)
  qed
  ultimately have "unat (time_synchro_ns ts tv_sec tv_nsec) = total"
    by (simp only: unat_word_of_nat_small)
  then show ?thesis by (simp only: total_def s_def f_def)
qed

text \<open>The bound, for use in other theories.\<close>

lemma time_synchro_ns_close:
  assumes "2208988800 \<le> unat ts div 2 ^ 32 + unat tv_sec"
    and "unat tv_sec < 2 ^ 32" "unat tv_nsec < 10 ^ 9"
  shows "\<exists>ns. unat (time_synchro_ns ts tv_sec tv_nsec) =
           (unat ts div 2 ^ 32 + unat tv_sec - 2208988800) * 10 ^ 9 + unat tv_nsec + ns
         \<and> ns \<le> 10 ^ 9
         \<and> \<bar>int ns - int ((unat ts mod 2 ^ 32) * 10 ^ 9 div (2 ^ 32 - 1))\<bar> \<le> 1"
proof -
  let ?f = "unat (ntp_fraction ts)"
  have "\<bar>int (unat (fraction_ns (ntp_fraction ts))) - int (?f * 10 ^ 9 div (2 ^ 32 - 1))\<bar> \<le> 1"
    using dbl_mul_trunc_close(2) [of ?f MAX_UINT32 SECONDS_TO_NSECONDS]
      unat_u32_lt [of "ntp_fraction ts"]
    by (simp add: fraction_ns_nat time_consts)
  then show ?thesis
    using time_synchro_ns_nat [OF assms] fraction_ns_le [of "ntp_fraction ts"]
    by (auto simp: ntp_fraction_nat)
qed

text \<open>
  (C37) The synchronisation time stamp: for a date between 1970 and 2036 the code's wrapping
  64-bit and double arithmetic yields the NTP seconds less the epoch offset plus the elapsed
  real-time-clock seconds, in nanoseconds, plus the clock's nanoseconds, plus the NTP
  fraction within one nanosecond of its exact value.
\<close>

theorem time_synchro_ns_exact:
  assumes "2208988800 \<le> unat ts div 2 ^ 32 + unat tv_sec"
    and "unat tv_sec < 2 ^ 32" "unat tv_nsec < 10 ^ 9"
  shows "\<exists>ns. unat (time_synchro_ns ts tv_sec tv_nsec) =
           (unat ts div 2 ^ 32 + unat tv_sec - 2208988800) * 10 ^ 9 + unat tv_nsec + ns
         \<and> ns \<le> 10 ^ 9
         \<and> \<bar>int ns - int ((unat ts mod 2 ^ 32) * 10 ^ 9 div (2 ^ 32 - 1))\<bar> \<le> 1"
  by (rule time_synchro_ns_close [OF assms])

theorem time_synchro_ns_exact_witness:
  "\<exists>ns. unat (time_synchro_ns 0xE7A5000080000000 5 7) =
     (unat (0xE7A5000080000000 :: u64) div 2 ^ 32 + unat (5 :: u64) - 2208988800) * 10 ^ 9
       + unat (7 :: u64) + ns
     \<and> ns \<le> 10 ^ 9
     \<and> \<bar>int ns - int ((unat (0xE7A5000080000000 :: u64) mod 2 ^ 32) * 10 ^ 9 div (2 ^ 32 - 1))\<bar> \<le> 1"
  by (rule time_synchro_ns_exact) simp_all

end
