(* ===== verification/Wire.thy ===== *)
theory Wire
  imports Prelude
begin

text \<open>
  The memory image of packed C data on the little-endian Cortex-M4: the bytes of a word,
  the interface \<open>wire_format\<close> of a fixed-width encoding, and how formats compose (a
  field followed by a field, an array of equal elements). The structures of
  \<open>msg_structs.h\<close> are interpretations of it.
\<close>

section \<open>Little-endian bytes\<close>

primrec le_bytes :: "nat \<Rightarrow> nat \<Rightarrow> u8 list" where
  "le_bytes 0 v = []"
| "le_bytes (Suc k) v = word_of_nat v # le_bytes k (v div 256)"

primrec le_val :: "u8 list \<Rightarrow> nat" where
  "le_val [] = 0"
| "le_val (b # bs) = unat b + 256 * le_val bs"

lemma le_bytes_length [simp]: "length (le_bytes k v) = k"
  by (induction k arbitrary: v) simp_all

lemma le_val_bound [bounds]: "le_val bs < 256 ^ length bs"
proof (induction bs)
  case (Cons b bs)
  have "unat b + 256 * le_val bs < 256 + 256 * (256 ^ length bs - 1)"
    using Cons unat_u8_lt [of b] by (intro add_less_le_mono mult_le_mono) auto
  also have "\<dots> = 256 ^ length (b # bs)"
    by (simp add: algebra_simps)
  finally show ?case by simp
qed simp

lemma le_val_le_bytes: "le_val (le_bytes k v) = v mod 256 ^ k"
proof (induction k arbitrary: v)
  case (Suc k)
  have "v mod 256 ^ Suc k = v mod 256 + 256 * (v div 256 mod 256 ^ k)"
    by (simp add: mod_mult2_eq)
  then show ?case
    using Suc by (simp add: unat_word_of_nat_mod)
qed simp

lemma le_bytes_le_val: "le_bytes (length bs) (le_val bs) = bs"
proof (induction bs)
  case (Cons b bs)
  have "(unat b + 256 * le_val bs) div 256 = le_val bs"
    using unat_u8_lt [of b] by simp
  moreover have "(word_of_nat (unat b + 256 * le_val bs) :: u8) = b"
    by (simp only: word_unat_eq_iff unat_word_of_nat_mod) (use unat_u8_lt [of b] in simp)
  ultimately show ?case using Cons by simp
qed simp

text \<open>The bytes of a machine word, and the word that a byte sequence overlays.\<close>

definition enc_w :: "'a::len word \<Rightarrow> u8 list" where
  "enc_w w = le_bytes (LENGTH('a) div 8) (unat w)"

definition dec_w :: "u8 list \<Rightarrow> 'a::len word" where
  "dec_w bs = word_of_nat (le_val bs)"

lemma enc_w_length [simp]: "length (enc_w (w :: 'a::len word)) = LENGTH('a) div 8"
  by (simp add: enc_w_def)

lemma pow_256_bits: "8 dvd b \<Longrightarrow> (256::nat) ^ (b div 8) = 2 ^ b"
proof -
  assume "8 dvd b"
  then have "(2::nat) ^ b = 2 ^ (8 * (b div 8))" by simp
  also have "\<dots> = 256 ^ (b div 8)" by (simp only: power_mult) simp
  finally show ?thesis by simp
qed

lemma dec_enc_w [simp]: "8 dvd LENGTH('a) \<Longrightarrow> dec_w (enc_w w) = (w :: 'a::len word)"
  using unat_lt_pow [of w]
  by (simp add: dec_w_def enc_w_def le_val_le_bytes pow_256_bits)

lemma enc_dec_w [simp]:
  assumes "8 dvd LENGTH('a)" "length bs = LENGTH('a) div 8"
  shows "enc_w (dec_w bs :: 'a::len word) = bs"
proof -
  have "le_val bs < 2 ^ LENGTH('a)"
    using le_val_bound [of bs] assms by (simp add: pow_256_bits)
  then have "enc_w (dec_w bs :: 'a word) = le_bytes (length bs) (le_val bs)"
    by (simp add: enc_w_def dec_w_def unat_word_of_nat_small assms)
  then show ?thesis by (simp add: le_bytes_le_val)
qed

section \<open>Fixed-width formats\<close>

locale wire_format =
  fixes enc :: "'a \<Rightarrow> u8 list"
    and dec :: "u8 list \<Rightarrow> 'a"
    and width :: nat
    and valid :: "'a \<Rightarrow> bool"
  assumes enc_length: "valid x \<Longrightarrow> length (enc x) = width"
    and dec_enc: "valid x \<Longrightarrow> dec (enc x) = x"
    and dec_valid: "length bs = width \<Longrightarrow> valid (dec bs)"
    and enc_dec: "length bs = width \<Longrightarrow> enc (dec bs) = bs"
begin

lemma enc_inj: "valid x \<Longrightarrow> valid y \<Longrightarrow> enc x = enc y \<longleftrightarrow> x = y"
  using dec_enc by metis

lemma dec_take: "valid x \<Longrightarrow> dec (take width (enc x @ rest)) = x"
  by (simp add: enc_length dec_enc)

lemma drop_enc: "valid x \<Longrightarrow> drop width (enc x @ rest) = rest"
  by (simp add: enc_length)

lemma split_image:
  assumes "valid x" "valid y" "enc x @ r = enc y @ r'"
  shows "x = y \<and> r = r'"
  using assms enc_inj by (metis append_eq_append_conv enc_length)

end

text \<open>A field of one format followed by a field of another.\<close>

definition pair_enc :: "('a \<Rightarrow> u8 list) \<Rightarrow> ('b \<Rightarrow> u8 list) \<Rightarrow> 'a \<times> 'b \<Rightarrow> u8 list" where
  "pair_enc ea eb p = ea (fst p) @ eb (snd p)"

definition pair_dec :: "(u8 list \<Rightarrow> 'a) \<Rightarrow> nat \<Rightarrow> (u8 list \<Rightarrow> 'b) \<Rightarrow> u8 list \<Rightarrow> 'a \<times> 'b" where
  "pair_dec da n db bs = (da (take n bs), db (drop n bs))"

locale wire_pair =
  a: wire_format enca deca wa va + b: wire_format encb decb wb vb
  for enca :: "'a \<Rightarrow> u8 list" and deca wa va
    and encb :: "'b \<Rightarrow> u8 list" and decb wb vb

sublocale wire_pair \<subseteq> both: wire_format
    "pair_enc enca encb" "pair_dec deca wa decb" "wa + wb" "\<lambda>p. va (fst p) \<and> vb (snd p)"
  by unfold_locales
    (auto simp: pair_enc_def pair_dec_def a.enc_length b.enc_length a.dec_enc b.dec_enc
      a.dec_valid b.dec_valid a.enc_dec b.enc_dec)

text \<open>An array of \<open>k\<close> elements of one format.\<close>

fun array_dec :: "(u8 list \<Rightarrow> 'a) \<Rightarrow> nat \<Rightarrow> nat \<Rightarrow> u8 list \<Rightarrow> 'a list" where
  "array_dec d n 0 bs = []"
| "array_dec d n (Suc k) bs = d (take n bs) # array_dec d n k (drop n bs)"

definition array_enc :: "('a \<Rightarrow> u8 list) \<Rightarrow> 'a list \<Rightarrow> u8 list" where
  "array_enc e xs = concat (map e xs)"

locale wire_array = elem: wire_format ence dece we ve
  for ence :: "'a \<Rightarrow> u8 list" and dece we ve +
  fixes k :: nat
begin

lemma array_dec_enc: "list_all ve xs \<Longrightarrow> array_dec dece we (length xs) (array_enc ence xs) = xs"
  by (induction xs) (simp_all add: array_enc_def elem.dec_enc elem.enc_length)

lemma array_enc_length: "list_all ve xs \<Longrightarrow> length (array_enc ence xs) = length xs * we"
  by (induction xs) (simp_all add: array_enc_def elem.enc_length)

lemma array_dec_valid:
  "length bs = j * we \<Longrightarrow>
   list_all ve (array_dec dece we j bs) \<and> length (array_dec dece we j bs) = j
   \<and> array_enc ence (array_dec dece we j bs) = bs"
proof (induction j arbitrary: bs)
  case (Suc j)
  then have "length (take we bs) = we" "length (drop we bs) = j * we" by auto
  with Suc.IH show ?case
    by (simp add: array_enc_def elem.dec_valid elem.enc_dec)
qed (simp add: array_enc_def)

end

sublocale wire_array \<subseteq> arr: wire_format
    "array_enc ence" "array_dec dece we k" "k * we" "\<lambda>xs. length xs = k \<and> list_all ve xs"
  by unfold_locales (auto simp: array_enc_length array_dec_enc array_dec_valid)

text \<open>Raw bytes and machine words are formats.\<close>

interpretation w8: wire_format "enc_w :: u8 \<Rightarrow> _" dec_w 1 "\<lambda>_. True"
  by unfold_locales simp_all

interpretation w16: wire_format "enc_w :: u16 \<Rightarrow> _" dec_w 2 "\<lambda>_. True"
  by unfold_locales simp_all

interpretation w32: wire_format "enc_w :: u32 \<Rightarrow> _" dec_w 4 "\<lambda>_. True"
  by unfold_locales simp_all

interpretation w64: wire_format "enc_w :: u64 \<Rightarrow> _" dec_w 8 "\<lambda>_. True"
  by unfold_locales simp_all

end
