(* ===== verification/Msg_Structs.thy ===== *)
theory Msg_Structs
  imports Wire
begin

text \<open>
  The packed structures of \<open>msg_structs.h\<close>: one record per C struct, its memory image
  and its overlay, and the proof that each is a fixed-width format. The union
  \<open>cmd_type_t\<close> is its 16 raw bytes; a member is read and written through its own format
  at offset 0, as the C code does.
\<close>

definition DATA_BUFFER_L :: nat where "DATA_BUFFER_L = 150"
definition DATA_BUFFER_MAX :: nat where "DATA_BUFFER_MAX = 78"
definition N_MSG_DATA :: nat where "N_MSG_DATA = 10"
definition SIZE_MAC_ADDR :: nat where "SIZE_MAC_ADDR = 6"

lemmas msg_consts = DATA_BUFFER_L_def DATA_BUFFER_MAX_def N_MSG_DATA_def SIZE_MAC_ADDR_def

text \<open>\<open>cmd_enum_t\<close> and \<open>msg_op_t\<close> by their integer values.\<close>

definition CMD_READY :: u16 where "CMD_READY = 1"
definition CMD_RESP_ID :: u16 where "CMD_RESP_ID = 2"
definition CMD_SYNC :: u16 where "CMD_SYNC = 3"
definition CMD_RSSI_STATUS :: u16 where "CMD_RSSI_STATUS = 4"
definition CMD :: u8 where "CMD = 1"
definition DATA :: u8 where "DATA = 2"
definition CONFIG :: u8 where "CONFIG = 3"

lemmas msg_enums = CMD_READY_def CMD_RESP_ID_def CMD_SYNC_def CMD_RSSI_STATUS_def
  CMD_def DATA_def CONFIG_def

section \<open>Message header\<close>

record msg_header_t =
  id_device :: u8
  msg_op :: u8
  msg_size :: u16

definition enc_header :: "msg_header_t \<Rightarrow> u8 list" where
  "enc_header h = [id_device h, msg_op h] @ enc_w (msg_size h)"

definition dec_header :: "u8 list \<Rightarrow> msg_header_t" where
  "dec_header bs = \<lparr>id_device = bs ! 0, msg_op = bs ! 1, msg_size = dec_w (drop 2 bs)\<rparr>"

definition sizeof_msg_header_t :: nat where [sizes]: "sizeof_msg_header_t = 4"

text \<open>A byte sequence of known small length is its list of bytes.\<close>

lemma two_prefix: "length bs = Suc (Suc n) \<Longrightarrow> bs = bs ! 0 # bs ! 1 # drop 2 bs"
  by (auto simp: length_Suc_conv)

lemma enc_u8 [simp]: "enc_w (w :: u8) = [w]"
  by (simp add: enc_w_def)

lemma header_format: "wire_format enc_header dec_header 4 (\<lambda>_. True)"
proof (unfold_locales, goal_cases)
  case (4 bs)
  then have "bs = bs ! 0 # bs ! 1 # drop 2 bs" using two_prefix [of bs 2] by simp
  moreover have "enc_w (dec_w (drop 2 bs) :: u16) = drop 2 bs" using 4 by simp
  ultimately show ?case by (simp add: enc_header_def dec_header_def)
qed (simp_all add: enc_header_def dec_header_def)

interpretation header: wire_format enc_header dec_header 4 "\<lambda>_. True"
  by (rule header_format)

section \<open>Commands\<close>

record cmd_ready_t =
  rdy_mac_addr :: "u8 list"
  time_per_sample :: u64

record cmd_resp_id_t =
  rsp_mac_addr :: "u8 list"
  cmd_resp_id :: u16

record cmd_rssi_t =
  avg_data_ctrl_rssi :: u16
  avg_msg_mnt_rssi :: u16
  rcv_fcs_err_pkt_num :: u32

record cmd_sync_t =
  sync_rtc_value :: u64
  curr_buff_id :: u64

definition enc_cmd_ready :: "cmd_ready_t \<Rightarrow> u8 list" where
  "enc_cmd_ready c = rdy_mac_addr c @ enc_w (time_per_sample c)"

definition dec_cmd_ready :: "u8 list \<Rightarrow> cmd_ready_t" where
  "dec_cmd_ready bs = \<lparr>rdy_mac_addr = take 6 bs, time_per_sample = dec_w (drop 6 bs)\<rparr>"

definition enc_cmd_resp_id :: "cmd_resp_id_t \<Rightarrow> u8 list" where
  "enc_cmd_resp_id c = rsp_mac_addr c @ enc_w (cmd_resp_id c)"

definition dec_cmd_resp_id :: "u8 list \<Rightarrow> cmd_resp_id_t" where
  "dec_cmd_resp_id bs = \<lparr>rsp_mac_addr = take 6 bs, cmd_resp_id = dec_w (drop 6 bs)\<rparr>"

definition enc_cmd_rssi :: "cmd_rssi_t \<Rightarrow> u8 list" where
  "enc_cmd_rssi c =
     enc_w (avg_data_ctrl_rssi c) @ enc_w (avg_msg_mnt_rssi c) @ enc_w (rcv_fcs_err_pkt_num c)"

definition dec_cmd_rssi :: "u8 list \<Rightarrow> cmd_rssi_t" where
  "dec_cmd_rssi bs =
     \<lparr>avg_data_ctrl_rssi = dec_w (take 2 bs), avg_msg_mnt_rssi = dec_w (take 2 (drop 2 bs)),
      rcv_fcs_err_pkt_num = dec_w (drop 4 bs)\<rparr>"

definition enc_cmd_sync :: "cmd_sync_t \<Rightarrow> u8 list" where
  "enc_cmd_sync c = enc_w (sync_rtc_value c) @ enc_w (curr_buff_id c)"

definition dec_cmd_sync :: "u8 list \<Rightarrow> cmd_sync_t" where
  "dec_cmd_sync bs = \<lparr>sync_rtc_value = dec_w (take 8 bs), curr_buff_id = dec_w (drop 8 bs)\<rparr>"

definition sizeof_cmd_header_t :: nat where [sizes]: "sizeof_cmd_header_t = 2"
definition sizeof_cmd_ready_t :: nat where [sizes]: "sizeof_cmd_ready_t = 14"
definition sizeof_cmd_resp_id_t :: nat where [sizes]: "sizeof_cmd_resp_id_t = 8"
definition sizeof_cmd_rssi_t :: nat where [sizes]: "sizeof_cmd_rssi_t = 8"
definition sizeof_cmd_type_t :: nat where [sizes]: "sizeof_cmd_type_t = 16"

interpretation cmd_ready: wire_format enc_cmd_ready dec_cmd_ready 14
    "\<lambda>c. length (rdy_mac_addr c) = 6"
  by unfold_locales (simp_all add: enc_cmd_ready_def dec_cmd_ready_def)

interpretation cmd_resp: wire_format enc_cmd_resp_id dec_cmd_resp_id 8
    "\<lambda>c. length (rsp_mac_addr c) = 6"
  by unfold_locales (simp_all add: enc_cmd_resp_id_def dec_cmd_resp_id_def)

interpretation cmd_sync: wire_format enc_cmd_sync dec_cmd_sync 16 "\<lambda>_. True"
  by unfold_locales (simp_all add: enc_cmd_sync_def dec_cmd_sync_def)

lemma take_drop_2_4: "length bs = 8 \<Longrightarrow> take 2 bs @ take 2 (drop 2 bs) @ drop 4 bs = bs"
  by (metis append.assoc append_take_drop_id numeral_Bit0 take_add)

interpretation cmd_rssi: wire_format enc_cmd_rssi dec_cmd_rssi 8 "\<lambda>_. True"
  by unfold_locales (simp_all add: enc_cmd_rssi_def dec_cmd_rssi_def take_drop_2_4)

text \<open>\<open>msg_cmd_t\<close>: message header, command header (the identifier) and the union.\<close>

record msg_cmd_t =
  cmd_h :: msg_header_t
  cmd_id :: u16
  cmd_p :: "u8 list"

definition enc_msg_cmd :: "msg_cmd_t \<Rightarrow> u8 list" where
  "enc_msg_cmd m = enc_header (cmd_h m) @ enc_w (cmd_id m) @ cmd_p m"

definition dec_msg_cmd :: "u8 list \<Rightarrow> msg_cmd_t" where
  "dec_msg_cmd bs =
     \<lparr>cmd_h = dec_header (take 4 bs), cmd_id = dec_w (take 2 (drop 4 bs)), cmd_p = drop 6 bs\<rparr>"

definition sizeof_msg_cmd_t :: nat where [sizes]: "sizeof_msg_cmd_t = 22"

interpretation msg_cmd_fmt: wire_format enc_msg_cmd dec_msg_cmd 22 "\<lambda>m. length (cmd_p m) = 16"
proof (unfold_locales, goal_cases)
  case (4 bs)
  then have "enc_header (dec_header (take 4 bs)) = take 4 bs"
    by (simp add: header.enc_dec)
  then show ?case
    using 4 split3 [of 4 bs 2] by (simp add: enc_msg_cmd_def dec_msg_cmd_def)
qed (simp_all add: enc_msg_cmd_def dec_msg_cmd_def header.enc_length header.dec_enc)

section \<open>Data messages\<close>

record data_buffer_t =
  buffer_id :: u64
  buf_p :: "u8 list"

definition enc_data_buffer :: "data_buffer_t \<Rightarrow> u8 list" where
  "enc_data_buffer b = enc_w (buffer_id b) @ buf_p b"

definition dec_data_buffer :: "u8 list \<Rightarrow> data_buffer_t" where
  "dec_data_buffer bs = \<lparr>buffer_id = dec_w (take 8 bs), buf_p = drop 8 bs\<rparr>"

definition sizeof_data_buffer_t :: nat where [sizes]: "sizeof_data_buffer_t = 158"

record data_header_t =
  data_id :: u32
  buffer_size :: u16
  data_buffer_num :: u16
  rtc_value :: u64
  corr_buffer_id :: u64

definition enc_data_header :: "data_header_t \<Rightarrow> u8 list" where
  "enc_data_header d =
     (enc_w (data_id d) @ enc_w (buffer_size d) @ enc_w (data_buffer_num d))
     @ enc_w (rtc_value d) @ enc_w (corr_buffer_id d)"

definition dec_data_header :: "u8 list \<Rightarrow> data_header_t" where
  "dec_data_header bs =
     \<lparr>data_id = dec_w (take 4 (take 8 bs)), buffer_size = dec_w (take 2 (drop 4 (take 8 bs))),
      data_buffer_num = dec_w (drop 6 (take 8 bs)), rtc_value = dec_w (take 8 (drop 8 bs)),
      corr_buffer_id = dec_w (drop 16 bs)\<rparr>"

definition sizeof_data_header_t :: nat where [sizes]: "sizeof_data_header_t = 24"

interpretation data_buffer: wire_format enc_data_buffer dec_data_buffer 158
    "\<lambda>b. length (buf_p b) = 150"
  by unfold_locales (simp_all add: enc_data_buffer_def dec_data_buffer_def)

interpretation data_header: wire_format enc_data_header dec_data_header 24 "\<lambda>_. True"
proof (unfold_locales, goal_cases)
  case (4 bs)
  then show ?case
    using split3 [of 8 bs 8] split3 [of 4 "take 8 bs" 2]
    by (simp add: enc_data_header_def dec_data_header_def)
qed (simp_all add: enc_data_header_def dec_data_header_def)

text \<open>The 78 buffers of a message, and the whole message.\<close>

interpretation data_buffers: wire_array enc_data_buffer dec_data_buffer 158
    "\<lambda>b. length (buf_p b) = 150" 78
  by unfold_locales

interpretation data_payload: wire_pair enc_data_header dec_data_header 24 "\<lambda>_. True"
    "array_enc enc_data_buffer" "array_dec dec_data_buffer 158 78" "78 * 158"
    "\<lambda>xs. length xs = 78 \<and> list_all (\<lambda>b. length (buf_p b) = 150) xs"
  by unfold_locales

record msg_data_t =
  msg_h :: msg_header_t
  data_h :: data_header_t
  data_p :: "data_buffer_t list"

definition enc_msg_data :: "msg_data_t \<Rightarrow> u8 list" where
  "enc_msg_data m =
     enc_header (msg_h m) @ pair_enc enc_data_header (array_enc enc_data_buffer) (data_h m, data_p m)"

definition dec_msg_data :: "u8 list \<Rightarrow> msg_data_t" where
  "dec_msg_data bs =
     (let p = pair_dec dec_data_header 24 (array_dec dec_data_buffer 158 78) (drop 4 bs) in
      \<lparr>msg_h = dec_header (take 4 bs), data_h = fst p, data_p = snd p\<rparr>)"

definition sizeof_msg_data_t :: nat where [sizes]: "sizeof_msg_data_t = 12352"

text \<open>A message whose arrays have the declared lengths.\<close>

definition msg_data_ok :: "msg_data_t \<Rightarrow> bool" where
  "msg_data_ok m \<longleftrightarrow>
     length (data_p m) = DATA_BUFFER_MAX \<and>
     list_all (\<lambda>b. length (buf_p b) = DATA_BUFFER_L) (data_p m)"

interpretation msg_data_fmt: wire_format enc_msg_data dec_msg_data 12352 msg_data_ok
proof (unfold_locales, goal_cases)
  case (1 m)
  then show ?case
    using data_payload.both.enc_length [of "(data_h m, data_p m)"]
    by (simp add: enc_msg_data_def msg_data_ok_def msg_consts header.enc_length)
next
  case (2 m)
  then show ?case
    using data_payload.both.dec_enc [of "(data_h m, data_p m)"]
    by (simp add: enc_msg_data_def dec_msg_data_def Let_def msg_data_ok_def msg_consts
        header.enc_length header.dec_enc)
next
  case (3 bs)
  then show ?case
    using data_payload.both.dec_valid [of "drop 4 bs"]
    by (simp add: dec_msg_data_def Let_def msg_data_ok_def msg_consts)
next
  case (4 bs)
  then show ?case
    using data_payload.both.enc_dec [of "drop 4 bs"]
    by (simp add: dec_msg_data_def enc_msg_data_def Let_def header.enc_dec)
qed

end
