(* ===== verification/Downsampling.thy ===== *)
theory Downsampling
  imports Msg_Structs Ntp_Time
begin

text \<open>
  \<open>dws_user.c\<close>: the downsampling thread. One iteration of its endless loop is \<open>dws_body\<close>:
  it averages a DMA buffer of 800 ADC words by eight, packs each pair of 12-bit averages
  into three bytes of the current message and advances the rings of DMA buffers, of
  buffers within a message and of messages.

  \<open>None\<close> is an access outside an array. The addresses are offsets in half words from
  \<open>dma_buffer\<close>, as the pointer arithmetic of the code computes them.
\<close>

definition DWS_RATE_FIX :: nat where "DWS_RATE_FIX = 8"

section \<open>One pair of averages\<close>

text \<open>The 12 significant bits of an ADC word: \<open>(uint16_t) (ptr[i] >> 2) & 0x0FFF\<close>.\<close>

definition sample12 :: "u16 \<Rightarrow> u32" where
  "sample12 x = ucast (drop_bit 2 x) AND 0x0FFF"

definition sum8 :: "u16 list \<Rightarrow> nat \<Rightarrow> u32 option" where
  "sum8 mem off = map_option (\<lambda>xs. sum_list (map sample12 xs)) (peek mem off DWS_RATE_FIX)"

text \<open>The right average is shifted, the left one divided.\<close>

definition downsampled_right :: "u16 list \<Rightarrow> nat \<Rightarrow> u32 option" where
  "downsampled_right mem off = map_option (drop_bit 3) (sum8 mem off)"

definition downsampled_left :: "u16 list \<Rightarrow> nat \<Rightarrow> u32 option" where
  "downsampled_left mem off = map_option (\<lambda>s. s div word_of_nat DWS_RATE_FIX) (sum8 mem off)"

definition pack24 :: "u32 \<Rightarrow> u32 \<Rightarrow> u8 list" where
  "pack24 right left = take 3 (enc_w ((right AND 0xFFF) OR push_bit 12 left))"

text \<open>The inner loop over \<open>index_buffer\<close>; \<open>out\<close> is the 150-byte area it fills.\<close>

function dws_loop :: "nat \<Rightarrow> nat \<Rightarrow> u16 list \<Rightarrow> nat \<Rightarrow> u8 list \<Rightarrow> u8 list option" where
  "dws_loop i n_pairs mem base out =
     (if i < n_pairs then
        Option.bind (downsampled_right mem (base + i * (DWS_RATE_FIX * 2))) (\<lambda>right.
        Option.bind (downsampled_left mem (base + DWS_RATE_FIX + i * (DWS_RATE_FIX * 2))) (\<lambda>left.
        Option.bind (poke out (i * 3) (pack24 right left)) (\<lambda>out'.
        dws_loop (i + 1) n_pairs mem base out')))
      else Some out)"
  by pat_completeness auto
termination
  by (relation "measure (\<lambda>(i, n_pairs, _). n_pairs - i)") auto

declare dws_loop.simps [simp del]

section \<open>One iteration of the thread\<close>

text \<open>The fields of \<open>arg_thread_downsampling_t\<close> that the thread reads as values.\<close>

record dws_arg =
  dma_num_buffers :: u8
  size_buffer_in :: u16

text \<open>
  What the thread finds in shared memory and in the clock when an iteration runs: the DMA
  buffers, the SNTP time stamp and the result of \<open>clock_gettime\<close>.
\<close>

record dws_env =
  dma_mem :: "u16 list"
  ptr_sntp_time :: u64
  rtc_tv_sec :: u64
  rtc_tv_nsec :: u64

text \<open>
  The thread's locals, and the shared objects it writes: the messages, the
  synchronisation flag and the number of posts of the send semaphore.
\<close>

record dws_state =
  cnt_buffer_in :: u16
  cnt_buffer_out :: u16
  data_buffer_count :: u64
  n_msg_data :: u16
  time_synchro_us :: u64
  data_buffer_sync :: u64
  buffer_downsampling :: nat
  msg_data :: "msg_data_t list"
  status_time_sync :: u64
  semaphore_mqtt :: nat

definition dws_init :: "msg_data_t list \<Rightarrow> u64 \<Rightarrow> dws_state" where
  "dws_init msgs status =
     \<lparr>cnt_buffer_in = 0, cnt_buffer_out = 0, data_buffer_count = 0, n_msg_data = 0,
      time_synchro_us = 0, data_buffer_sync = 0, buffer_downsampling = 0,
      msg_data = msgs, status_time_sync = status, semaphore_mqtt = 0\<rparr>"

text \<open>
  Time synchronisation: with the flag set, a new time stamp is computed and the number of
  the buffer it belongs to is kept; two zero bytes are copied over the low bytes of the flag.
\<close>

definition dws_sync :: "dws_env \<Rightarrow> dws_state \<Rightarrow> dws_state" where
  "dws_sync e s =
     (if status_time_sync s \<noteq> 0
      then s\<lparr>time_synchro_us := time_synchro_ns (ptr_sntp_time e) (rtc_tv_sec e) (rtc_tv_nsec e),
             data_buffer_sync := data_buffer_count s,
             status_time_sync := status_time_sync s AND NOT 0xFFFF\<rparr>
      else s)"

text \<open>The message being filled receives the time stamp, the packed samples and the buffer number.\<close>

definition dws_fill :: "dws_arg \<Rightarrow> dws_env \<Rightarrow> dws_state \<Rightarrow> msg_data_t \<Rightarrow> msg_data_t option" where
  "dws_fill a e s m =
     (let k = unat (cnt_buffer_out s);
          hdr = (data_h m)\<lparr>corr_buffer_id := data_buffer_sync s, rtc_value := time_synchro_us s\<rparr>
      in Option.bind (rd (data_p m) k) (\<lambda>b.
         Option.bind (dws_loop 0 (unat (size_buffer_in a) div (DWS_RATE_FIX * 2)) (dma_mem e)
                        (buffer_downsampling s) (buf_p b)) (\<lambda>p.
         Some (m\<lparr>data_h := hdr,
                 data_p := (data_p m)[k := b\<lparr>buf_p := p, buffer_id := data_buffer_count s\<rparr>]\<rparr>))))"

text \<open>The three ring counters.\<close>

definition next_out :: "u16 \<Rightarrow> u16" where
  "next_out c = (let c' = c + 1 in if unat c' = DATA_BUFFER_MAX then 0 else c')"

definition next_msg :: "u16 \<Rightarrow> u16" where
  "next_msg n = word_of_nat ((unat n + 1) mod N_MSG_DATA)"

definition next_in :: "u8 \<Rightarrow> u16 \<Rightarrow> u16" where
  "next_in n_buffers c = word_of_nat ((unat c + 1) mod unat n_buffers)"

definition dws_advance_out :: "dws_state \<Rightarrow> dws_state" where
  "dws_advance_out s =
     (let s' = s\<lparr>cnt_buffer_out := next_out (cnt_buffer_out s)\<rparr> in
      if unat (cnt_buffer_out s + 1) = DATA_BUFFER_MAX
      then s'\<lparr>n_msg_data := next_msg (n_msg_data s), semaphore_mqtt := semaphore_mqtt s + 1\<rparr>
      else s')"

definition dws_advance_in :: "dws_arg \<Rightarrow> dws_state \<Rightarrow> dws_state" where
  "dws_advance_in a s =
     (let c = next_in (dma_num_buffers a) (cnt_buffer_in s) in
      s\<lparr>cnt_buffer_in := c, buffer_downsampling := unat c * unat (size_buffer_in a)\<rparr>)"

definition dws_body :: "dws_arg \<Rightarrow> dws_env \<Rightarrow> dws_state \<Rightarrow> dws_state option" where
  "dws_body a e s =
     Option.bind (peek (dma_mem e) (buffer_downsampling s) 8) (\<lambda>_.
     (let s1 = dws_sync e s; n = unat (n_msg_data s1) in
      Option.bind (rd (msg_data s1) n) (\<lambda>m.
      Option.bind (dws_fill a e s1 m) (\<lambda>m'.
      (let s2 = s1\<lparr>msg_data := (msg_data s1)[n := m'],
                   data_buffer_count := data_buffer_count s1 + 1\<rparr> in
       if dma_num_buffers a = 0 then None
       else Some (dws_advance_in a (dws_advance_out s2)))))))"

section \<open>Arithmetic of one pair\<close>

text \<open>The reference: averages of eight 12-bit samples over the naturals.\<close>

definition avg8 :: "u16 list \<Rightarrow> nat" where
  "avg8 xs = (\<Sum>x\<leftarrow>xs. unat x div 4 mod 4096) div 8"

lemma sample12_nat: "unat (sample12 x) = unat x div 4 mod 4096"
proof -
  have "sample12 x = take_bit 12 (ucast (drop_bit 2 x))"
    by (simp add: sample12_def take_bit_eq_mask mask_eq_exp_minus_1)
  then have "unat (sample12 x) = take_bit 12 (drop_bit 2 (unat x))"
    by (simp add: unsigned_take_bit_eq unsigned_ucast_eq unat_drop_bit_eq)
  then show ?thesis by (simp add: take_bit_eq_mod drop_bit_eq_div)
qed

lemma sum_samples:
  "length xs \<le> 8 \<Longrightarrow>
   unat (sum_list (map sample12 xs)) = (\<Sum>x\<leftarrow>xs. unat x div 4 mod 4096)
   \<and> (\<Sum>x\<leftarrow>xs. unat x div 4 mod 4096) \<le> 4095 * length xs"
proof (induction xs)
  case (Cons x xs)
  have "unat x div 4 mod 4096 \<le> 4095" by simp
  moreover from this have "unat (sample12 x) + unat (sum_list (map sample12 xs)) < 2 ^ LENGTH(32)"
    using Cons by (simp add: sample12_nat)
  ultimately show ?case
    using Cons by (simp add: sample12_nat unat_add_lem [THEN iffD1])
qed simp

lemma avg8_bound: "length xs \<le> 8 \<Longrightarrow> avg8 xs < 4096"
  using sum_samples [of xs] by (simp add: avg8_def div_less_iff_less_mult)

lemma sum8_right_left:
  assumes "off + 8 \<le> length mem"
  shows "\<exists>r l. downsampled_right mem off = Some r \<and> unat r = avg8 (take 8 (drop off mem))
           \<and> downsampled_left mem off = Some l \<and> unat l = avg8 (take 8 (drop off mem))"
  using assms sum_samples [of "take 8 (drop off mem)"]
  by (simp add: downsampled_right_def downsampled_left_def sum8_def DWS_RATE_FIX_def avg8_def
      unat_drop_bit_eq drop_bit_eq_div unat_div)

lemma low12_or_high:
  assumes "unat r < 4096" "unat l < 4096"
  shows "unat ((r AND 0xFFF) OR push_bit 12 l :: u32) = unat r + 4096 * unat l"
proof -
  have "unat (take_bit 12 r) = unat r"
    using assms by (simp add: unsigned_take_bit_eq take_bit_nat_eq_self)
  then have "r = take_bit 12 r" by (simp only: word_unat_eq_iff)
  then have r: "r AND 0xFFF = r"
    by (simp add: take_bit_eq_mask mask_eq_exp_minus_1)
  have "r AND push_bit 12 l = take_bit 12 r AND push_bit 12 l"
    using \<open>r = take_bit 12 r\<close> by simp
  also have "\<dots> = 0"
    by (rule bit_word_eqI) (auto simp: bit_simps)
  finally have "r OR push_bit 12 l = r + push_bit 12 l"
    by (rule disjunctive_add_eq_or [symmetric])
  moreover have "push_bit 12 l = 4096 * l" by (simp add: push_bit_eq_mult)
  ultimately have "(r AND 0xFFF) OR push_bit 12 l = word_of_nat (unat r + 4096 * unat l)"
    by (simp add: r)
  then show ?thesis
    using assms by (simp only:) (simp add: unat_word_of_nat_small del: of_nat_add)
qed

lemma le_bytes_take: "j \<le> k \<Longrightarrow> take j (le_bytes k v) = le_bytes j v"
proof (induction j arbitrary: k v)
  case (Suc j)
  then show ?case by (cases k) auto
qed simp

text \<open>The three bytes of a pair of averages, least significant first.\<close>

definition pair_bytes :: "u16 list \<Rightarrow> u8 list" where
  "pair_bytes xs = le_bytes 3 (avg8 (take 8 xs) + 4096 * avg8 (take 8 (drop 8 xs)))"

lemma pair_bytes_length [simp]: "length (pair_bytes xs) = 3"
  by (simp add: pair_bytes_def)

lemma pack24_bytes:
  "unat r < 4096 \<Longrightarrow> unat l < 4096 \<Longrightarrow> pack24 r l = le_bytes 3 (unat r + 4096 * unat l)"
  by (simp add: pack24_def enc_w_def le_bytes_take low12_or_high)

text \<open>The reference routine: the packed averages of \<open>n\<close> consecutive groups of 16 samples.\<close>

definition downsample :: "u16 list \<Rightarrow> nat \<Rightarrow> nat \<Rightarrow> u8 list" where
  "downsample mem base n = concat (map (\<lambda>i. pair_bytes (drop (base + i * 16) mem)) [0..<n])"

lemma downsample_length [simp]: "length (downsample mem base n) = n * 3"
  by (simp add: downsample_def length_concat comp_def sum_list_triv)

lemma downsample_Suc:
  "downsample mem base (Suc n) = downsample mem base n @ pair_bytes (drop (base + n * 16) mem)"
  by (simp add: downsample_def)

text \<open>One turn of the inner loop.\<close>

lemma dws_loop_step:
  assumes "i < n" "base + n * 16 \<le> length mem" "n * 3 \<le> length out"
    and "take (i * 3) out = downsample mem base i"
  shows "\<exists>out'. dws_loop i n mem base out = dws_loop (Suc i) n mem base out'
           \<and> take (Suc i * 3) out' = downsample mem base (Suc i)
           \<and> length out' = length out \<and> drop (n * 3) out' = drop (n * 3) out"
proof -
  let ?g = "drop (base + i * 16) mem"
  have len: "length ?g \<ge> 16" using assms by simp
  obtain r where r: "downsampled_right mem (base + i * 16) = Some r" "unat r = avg8 (take 8 ?g)"
    using sum8_right_left [of "base + i * 16" mem] assms by (auto simp: mult.commute)
  have "drop 8 ?g = drop (base + 8 + i * 16) mem" by (simp add: algebra_simps)
  moreover have "base + 8 + i * 16 + 8 \<le> length mem" using assms by simp
  ultimately obtain l where l: "downsampled_left mem (base + 8 + i * 16) = Some l"
      "unat l = avg8 (take 8 (drop 8 ?g))"
    using sum8_right_left [of "base + 8 + i * 16" mem] by auto
  have "pack24 r l = pair_bytes ?g"
    using avg8_bound [of "take 8 ?g"] avg8_bound [of "take 8 (drop 8 ?g)"] r l
    by (simp add: pack24_bytes pair_bytes_def)
  moreover have "i * 3 + 3 \<le> length out" using assms(1,3) by linarith
  then obtain out' where out': "poke out (i * 3) (pair_bytes ?g) = Some out'"
      "take (i * 3 + 3) out' = downsample mem base i @ pair_bytes ?g" "length out' = length out"
    using poke_append_fill [OF assms(4), of "pair_bytes ?g"] by (metis downsample_length mult.commute pair_bytes_length)
  moreover have "drop (n * 3) out' = drop (n * 3) out"
  proof -
    have "out' = take (i * 3) out @ pair_bytes ?g @ drop (i * 3 + 3) out"
      using out'(1) by (simp add: poke_def split: if_splits)
    moreover have "i * 3 + 3 \<le> n * 3" using assms(1) by linarith
    ultimately show ?thesis using assms(3) by simp
  qed
  moreover have "dws_loop i n mem base out = dws_loop (Suc i) n mem base out'"
    using r(1) l(1) assms(1) out'(1) \<open>pack24 r l = pair_bytes ?g\<close>
    by (simp add: dws_loop.simps [of i] DWS_RATE_FIX_def)
  ultimately show ?thesis
    by (intro exI [of _ out']) (simp add: downsample_Suc add.commute)
qed

lemma dws_loop_from:
  assumes "i \<le> n" "base + n * 16 \<le> length mem" "n * 3 \<le> length out"
    and "take (i * 3) out = downsample mem base i"
  shows "dws_loop i n mem base out = Some (downsample mem base n @ drop (n * 3) out)"
  using assms
proof (induction "n - i" arbitrary: i out)
  case 0
  then have "i = n" by simp
  with 0 have "downsample mem base n @ drop (n * 3) out = out"
    by (metis append_take_drop_id)
  with \<open>i = n\<close> show ?case by (simp add: dws_loop.simps [of n])
next
  case (Suc k)
  then have "i < n" by simp
  from dws_loop_step [OF this] Suc obtain out' where
    "dws_loop i n mem base out = dws_loop (Suc i) n mem base out'"
    "take (Suc i * 3) out' = downsample mem base (Suc i)"
    "length out' = length out" "drop (n * 3) out' = drop (n * 3) out"
    by metis
  with Suc.hyps(1) [of "Suc i" out'] Suc show ?case by simp
qed

text \<open>The packing loop writes the packed averages and nothing else.\<close>

lemma dws_loop_downsample:
  assumes "base + n * 16 \<le> length mem" "n * 3 \<le> length out"
  shows "dws_loop 0 n mem base out = Some (downsample mem base n @ drop (n * 3) out)"
  using dws_loop_from [of 0 n base mem out] assms by (simp add: downsample_def)

text \<open>
  (C36) The optimised inner loop computes the reference routine: on a buffer of \<open>n\<close> groups
  of 16 words it writes exactly the \<open>3 n\<close> packed bytes, touches nothing behind them and makes no
  access outside either array.
\<close>

theorem dws_loop_correct:
  assumes "base + n * 16 \<le> length mem" "n * 3 \<le> length out"
  shows "dws_loop 0 n mem base out = Some (downsample mem base n @ drop (n * 3) out)"
  by (rule dws_loop_downsample [OF assms])

section \<open>The configuration of the firmware\<close>

definition DMA_NUM_BUFFERS :: nat where "DMA_NUM_BUFFERS = 30"
definition DMA_BUFF_SIZE :: nat where "DMA_BUFF_SIZE = 800"

definition dws_arg_thread :: dws_arg where
  "dws_arg_thread =
     \<lparr>dma_num_buffers = word_of_nat DMA_NUM_BUFFERS, size_buffer_in = word_of_nat DMA_BUFF_SIZE\<rparr>"

lemma dws_config [simp]:
  "dma_num_buffers dws_arg_thread = 30" "unat (size_buffer_in dws_arg_thread) = 800"
  by (simp_all add: dws_arg_thread_def DMA_NUM_BUFFERS_def DMA_BUFF_SIZE_def)

interpretation in_ring: ring_counter 30 "next_in 30" unat
  by unfold_locales (simp_all add: next_in_def unat_word_of_nat_mod)

interpretation msg_ring: ring_counter 10 next_msg unat
  by unfold_locales (simp_all add: next_msg_def unat_word_of_nat_mod msg_consts)

lemma unat_Suc_small: "unat (w :: u16) < 78 \<Longrightarrow> unat (w + 1) = unat w + 1"
  by (simp add: unat_word_ariths)

interpretation out_ring: ring_counter 78 next_out unat
  by unfold_locales (auto simp: next_out_def Let_def unat_Suc_small msg_consts)

text \<open>
  Where everything stands after \<open>k\<close> iterations: the counters in closed form, and arrays of
  the declared sizes.
\<close>

definition dws_pos :: "nat \<Rightarrow> dws_state \<Rightarrow> bool" where
  "dws_pos k s \<longleftrightarrow>
     unat (cnt_buffer_in s) = k mod 30 \<and> unat (cnt_buffer_out s) = k mod 78 \<and>
     unat (n_msg_data s) = k div 78 mod 10 \<and> semaphore_mqtt s = k div 78 \<and>
     data_buffer_count s = word_of_nat k \<and>
     buffer_downsampling s = (k mod 30) * 800 \<and>
     length (msg_data s) = N_MSG_DATA \<and> list_all msg_data_ok (msg_data s)"

definition dws_env_ok :: "dws_env \<Rightarrow> bool" where
  "dws_env_ok e \<longleftrightarrow> length (dma_mem e) = DMA_NUM_BUFFERS * DMA_BUFF_SIZE"

text \<open>The buffer that iteration \<open>k\<close> reads and the place it writes.\<close>

definition block_of :: "nat \<Rightarrow> dws_env \<Rightarrow> u8 list" where
  "block_of k e = downsample (dma_mem e) ((k mod 30) * 800) 50"

definition slot :: "dws_state \<Rightarrow> nat \<Rightarrow> data_buffer_t" where
  "slot s j = data_p (msg_data s ! (j div 78 mod 10)) ! (j mod 78)"

lemma dws_init_pos:
  "length msgs = N_MSG_DATA \<Longrightarrow> list_all msg_data_ok msgs \<Longrightarrow> dws_pos 0 (dws_init msgs st)"
  by (simp add: dws_pos_def dws_init_def)

lemma dws_sync_frame [simp]:
  "cnt_buffer_in (dws_sync e s) = cnt_buffer_in s"
  "cnt_buffer_out (dws_sync e s) = cnt_buffer_out s"
  "n_msg_data (dws_sync e s) = n_msg_data s"
  "semaphore_mqtt (dws_sync e s) = semaphore_mqtt s"
  "data_buffer_count (dws_sync e s) = data_buffer_count s"
  "buffer_downsampling (dws_sync e s) = buffer_downsampling s"
  "msg_data (dws_sync e s) = msg_data s"
  by (simp_all add: dws_sync_def)

lemma dws_pos_sync: "dws_pos k (dws_sync e s) = dws_pos k s"
  by (simp add: dws_pos_def)

text \<open>The message under the pen, explicitly.\<close>

definition filled :: "nat \<Rightarrow> dws_env \<Rightarrow> dws_state \<Rightarrow> msg_data_t \<Rightarrow> msg_data_t" where
  "filled k e s m =
     m\<lparr>data_h := (data_h m)\<lparr>corr_buffer_id := data_buffer_sync s, rtc_value := time_synchro_us s\<rparr>,
       data_p := (data_p m)[k mod 78 := \<lparr>buffer_id = word_of_nat k, buf_p = block_of k e\<rparr>]\<rparr>"

lemma data_buffer_set [simp]:
  "(b :: data_buffer_t)\<lparr>buf_p := p, buffer_id := i\<rparr> = \<lparr>buffer_id = i, buf_p = p\<rparr>"
  by (cases b) simp

lemma dws_fill_eq:
  assumes "dws_pos k s" "dws_env_ok e" "msg_data_ok m"
  shows "dws_fill dws_arg_thread e s m = Some (filled k e s m)"
proof -
  have b: "k mod 78 < length (data_p m)" "length (buf_p (data_p m ! (k mod 78))) = 150"
    using assms(3) by (simp_all add: msg_data_ok_def msg_consts list_all_length)
  have "(k mod 30) * 800 + 50 * 16 \<le> length (dma_mem e)"
    using assms(2) mod_less_divisor [of 30 k]
    by (simp add: dws_env_ok_def DMA_NUM_BUFFERS_def DMA_BUFF_SIZE_def)
  then have "dws_loop 0 50 (dma_mem e) ((k mod 30) * 800) (buf_p (data_p m ! (k mod 78)))
      = Some (block_of k e)"
    using b dws_loop_downsample [of "(k mod 30) * 800" 50 "dma_mem e"] by (simp add: block_of_def)
  then show ?thesis
    using assms(1) b by (simp add: dws_fill_def dws_pos_def Let_def filled_def DWS_RATE_FIX_def)
qed

lemma filled_ok: "msg_data_ok m \<Longrightarrow> msg_data_ok (filled k e s m)"
  by (auto simp: filled_def msg_data_ok_def block_of_def msg_consts list_all_length nth_list_update)

text \<open>One iteration, explicitly.\<close>

definition dws_after :: "nat \<Rightarrow> dws_env \<Rightarrow> dws_state \<Rightarrow> dws_state" where
  "dws_after k e s =
     (let s1 = dws_sync e s; n = k div 78 mod 10 in
      dws_advance_in dws_arg_thread (dws_advance_out
        (s1\<lparr>msg_data := (msg_data s)[n := filled k e s1 (msg_data s ! n)],
            data_buffer_count := word_of_nat (Suc k)\<rparr>)))"

lemma dws_body_eq:
  assumes "dws_pos k s" "dws_env_ok e"
  shows "dws_body dws_arg_thread e s = Some (dws_after k e s)"
proof -
  have n: "k div 78 mod 10 < length (msg_data s)" "unat (n_msg_data s) = k div 78 mod 10"
    using assms(1) by (simp_all add: dws_pos_def msg_consts)
  then have "msg_data_ok (msg_data s ! (k div 78 mod 10))"
    using assms(1) by (simp add: dws_pos_def list_all_length)
  moreover have "dws_pos k (dws_sync e s)"
    using assms(1) by (simp add: dws_pos_sync)
  ultimately have "dws_fill dws_arg_thread e (dws_sync e s) (msg_data s ! (k div 78 mod 10))
      = Some (filled k e (dws_sync e s) (msg_data s ! (k div 78 mod 10)))"
    using dws_fill_eq assms(2) by blast
  moreover have "buffer_downsampling s + 8 \<le> length (dma_mem e)"
    using assms mod_less_divisor [of 30 k]
    by (simp add: dws_pos_def dws_env_ok_def DMA_NUM_BUFFERS_def DMA_BUFF_SIZE_def)
  ultimately show ?thesis
    using n assms(1)
    by (simp add: dws_body_def dws_after_def Let_def dws_pos_def add.commute [of 1])
qed

lemma msg_step:
  "k mod n + 1 = n \<Longrightarrow> Suc k mod n = 0 \<and> Suc k div n = k div n + 1"
  "k mod n + 1 \<noteq> n \<Longrightarrow> Suc k mod n = k mod n + 1 \<and> Suc k div n = k div n"
  for k :: nat
  by (auto simp: mod_Suc div_Suc)

lemma dws_after_pos:
  assumes "dws_pos k s"
  shows "dws_pos (Suc k) (dws_after k e s)"
proof -
  have "list_all msg_data_ok ((msg_data s)[i := filled k e s1 (msg_data s ! i)])"
    if "i < length (msg_data s)" for i s1
    using assms that by (auto simp: dws_pos_def list_all_length nth_list_update filled_ok)
  moreover have "k div 78 mod 10 < length (msg_data s)"
    using assms by (simp add: dws_pos_def msg_consts)
  moreover have "unat (next_in 30 (cnt_buffer_in s)) = Suc k mod 30"
    using in_ring.nxt_ix [of "cnt_buffer_in s"] assms by (simp add: dws_pos_def mod_Suc_eq)
  moreover have "unat (cnt_buffer_out s + 1) = k mod 78 + 1"
    using assms by (simp add: dws_pos_def unat_Suc_small)
  moreover have "unat (next_msg (n_msg_data s)) = Suc (k div 78) mod 10"
    using msg_ring.nxt_ix [of "n_msg_data s"] assms by (simp add: dws_pos_def mod_Suc_eq)
  ultimately show ?thesis
    using assms msg_step [of k 78]
    by (cases "k mod 78 + 1 = 78")
      (simp_all add: dws_pos_def dws_after_def Let_def dws_advance_in_def dws_advance_out_def
        next_out_def msg_consts)
qed

lemma dws_after_msgs:
  "msg_data (dws_after k e s) = (msg_data s)[k div 78 mod 10 :=
     filled k e (dws_sync e s) (msg_data s ! (k div 78 mod 10))]"
  by (simp add: dws_after_def Let_def dws_advance_in_def dws_advance_out_def)

text \<open>What iteration \<open>k\<close> does to the slot of iteration \<open>j\<close>.\<close>

lemma slot_after_same:
  assumes "dws_pos k s"
  shows "slot (dws_after k e s) k = \<lparr>buffer_id = word_of_nat k, buf_p = block_of k e\<rparr>"
proof -
  have "k div 78 mod 10 < length (msg_data s)"
    using assms by (simp add: dws_pos_def msg_consts)
  moreover have "length (data_p (msg_data s ! (k div 78 mod 10))) = 78"
    using assms calculation by (simp add: dws_pos_def list_all_length msg_data_ok_def msg_consts)
  ultimately show ?thesis
    by (simp add: slot_def dws_after_msgs filled_def)
qed

lemma slot_index_inj:
  assumes "(j::nat) div 78 mod 10 = k div 78 mod 10" "j mod 78 = k mod 78"
  shows "j mod 780 = k mod 780"
  using assms mod_mult2_eq [of j 78 10] mod_mult2_eq [of k 78 10] by simp

lemma slot_after_other:
  assumes "dws_pos k s" "j < k" "k < j + 780"
  shows "slot (dws_after k e s) j = slot s j"
proof -
  have "\<not> 780 dvd k - j"
    using assms by (intro nat_dvd_not_less) auto
  then have "j mod 780 \<noteq> k mod 780"
    using assms by (metis mod_eq_dvd_iff_nat less_imp_le)
  then have "j div 78 mod 10 \<noteq> k div 78 mod 10 \<or> j mod 78 \<noteq> k mod 78"
    using slot_index_inj by blast
  moreover have "k div 78 mod 10 < length (msg_data s)"
    using assms by (simp add: dws_pos_def msg_consts)
  ultimately show ?thesis
    by (auto simp: slot_def dws_after_msgs filled_def nth_list_update)
qed

lemma low16_cleared: "unat (w :: u64) < 65536 \<Longrightarrow> w AND NOT 0xFFFF = 0"
proof -
  assume "unat w < 65536"
  then have "unat (take_bit 16 w) = unat w"
    by (simp add: unsigned_take_bit_eq take_bit_nat_eq_self)
  then have "w = take_bit 16 w" by (simp only: word_unat_eq_iff)
  then have "w = w AND 0xFFFF"
    by (simp add: take_bit_eq_mask mask_eq_exp_minus_1)
  then have "w AND NOT 0xFFFF = w AND (0xFFFF AND NOT 0xFFFF)"
    by (metis and.assoc)
  then show ?thesis by simp
qed

text \<open>The stamp of one iteration.\<close>

lemma dws_body_stamps:
  assumes "dws_pos k s" "dws_env_ok e" "unat (status_time_sync s) < 65536"
  shows "\<exists>s'. dws_body dws_arg_thread e s = Some s'
     \<and> status_time_sync s' = 0
     \<and> (let h = data_h (msg_data s' ! (k div 78 mod 10)) in
        if status_time_sync s \<noteq> 0
        then corr_buffer_id h = word_of_nat k
           \<and> rtc_value h = time_synchro_ns (ptr_sntp_time e) (rtc_tv_sec e) (rtc_tv_nsec e)
        else corr_buffer_id h = data_buffer_sync s \<and> rtc_value h = time_synchro_us s)"
proof -
  have "k div 78 mod 10 < length (msg_data s)"
    using assms(1) by (simp add: dws_pos_def msg_consts)
  then have hdr: "data_h (msg_data (dws_after k e s) ! (k div 78 mod 10)) =
      (data_h (msg_data s ! (k div 78 mod 10)))
        \<lparr>corr_buffer_id := data_buffer_sync (dws_sync e s), rtc_value := time_synchro_us (dws_sync e s)\<rparr>"
    by (simp add: dws_after_msgs filled_def)
  have "status_time_sync (dws_sync e s) = 0"
    using assms(3) low16_cleared by (simp add: dws_sync_def)
  then have "status_time_sync (dws_after k e s) = 0"
    by (simp add: dws_after_def Let_def dws_advance_in_def dws_advance_out_def)
  moreover have "data_buffer_count s = word_of_nat k"
    using assms(1) by (simp add: dws_pos_def)
  ultimately show ?thesis
    using dws_body_eq [OF assms(1,2)] hdr by (simp add: Let_def dws_sync_def)
qed

text \<open>
  Time synchronisation: an iteration stamps the message under the pen with the time
  stamp and buffer number of the latest synchronisation, which is this iteration's own when
  the flag is set, and it takes the flag back.
\<close>

theorem dws_body_sync:
  assumes "dws_pos k s" "dws_env_ok e" "unat (status_time_sync s) < 65536"
  shows "\<exists>s'. dws_body dws_arg_thread e s = Some s'
     \<and> status_time_sync s' = 0
     \<and> (let h = data_h (msg_data s' ! (k div 78 mod 10)) in
        if status_time_sync s \<noteq> 0
        then corr_buffer_id h = word_of_nat k
           \<and> rtc_value h = time_synchro_ns (ptr_sntp_time e) (rtc_tv_sec e) (rtc_tv_nsec e)
        else corr_buffer_id h = data_buffer_sync s \<and> rtc_value h = time_synchro_us s)"
  by (rule dws_body_stamps [OF assms])

section \<open>Runs of the thread\<close>

interpretation dws: safe_machine "dws_body dws_arg_thread" "\<lambda>s. \<exists>k. dws_pos k s" dws_env_ok
  by unfold_locales (metis dws_body_eq dws_after_pos)

text \<open>
  After \<open>length es\<close> iterations: the counters stand where \<open>dws_pos\<close> says, and the slots of the
  last 780 iterations hold their own blocks.
\<close>

definition dws_history :: "dws_env list \<Rightarrow> dws_state \<Rightarrow> bool" where
  "dws_history es s \<longleftrightarrow>
     (\<forall>j < length es. length es \<le> j + 780 \<longrightarrow>
        slot s j = \<lparr>buffer_id = word_of_nat j, buf_p = block_of j (es ! j)\<rparr>)"

lemma dws_history_step:
  assumes "dws_pos (length es) s" "dws_history es s"
  shows "dws_history (es @ [e]) (dws_after (length es) e s)"
  unfolding dws_history_def
proof (intro allI impI)
  fix j assume j: "j < length (es @ [e])" "length (es @ [e]) \<le> j + 780"
  show "slot (dws_after (length es) e s) j
      = \<lparr>buffer_id = word_of_nat j, buf_p = block_of j ((es @ [e]) ! j)\<rparr>"
  proof (cases "j = length es")
    case True
    then show ?thesis using slot_after_same [OF assms(1)] by simp
  next
    case False
    then show ?thesis
      using j assms slot_after_other [OF assms(1), of j] by (simp add: dws_history_def nth_append)
  qed
qed

lemma dws_run_state:
  assumes "list_all dws_env_ok es" "length msgs = N_MSG_DATA" "list_all msg_data_ok msgs"
  shows "\<exists>s. run (dws_body dws_arg_thread) es (dws_init msgs st) = Some s
           \<and> dws_pos (length es) s \<and> dws_history es s"
  using assms(1)
proof (induction es rule: rev_induct)
  case Nil
  then show ?case
    using assms by (simp add: dws_init_pos dws_history_def)
next
  case (snoc e es)
  then obtain s where s: "run (dws_body dws_arg_thread) es (dws_init msgs st) = Some s"
      "dws_pos (length es) s" "dws_history es s"
    by auto
  moreover have "dws_env_ok e" using snoc by simp
  ultimately show ?case
    by (simp add: run_append dws_body_eq dws_after_pos [simplified] dws_history_step)
qed

text \<open>
  (C15) Memory safety and the pace of the thread: for every sequence of DMA contents the
  thread makes no access outside an array; after \<open>k\<close> buffers it has posted the send
  semaphore \<open>k div 78\<close> times, and its ring positions are \<open>k\<close> modulo the ring sizes.
\<close>

theorem dws_run_pace:
  assumes "list_all dws_env_ok es" "length msgs = N_MSG_DATA" "list_all msg_data_ok msgs"
  shows "\<exists>s. run (dws_body dws_arg_thread) es (dws_init msgs st) = Some s
           \<and> semaphore_mqtt s = length es div 78
           \<and> unat (cnt_buffer_in s) = length es mod 30
           \<and> unat (cnt_buffer_out s) = length es mod 78
           \<and> unat (n_msg_data s) = length es div 78 mod 10"
  using dws_run_state [OF assms] by (auto simp: dws_pos_def)

text \<open>
  (C14) Functional correctness of a run: every one of the last 780 buffers stands in its slot
  of the message ring, under its own number, with the reference downsampling of the DMA
  buffer it was given.
\<close>

theorem dws_run_content:
  assumes "list_all dws_env_ok es" "length msgs = N_MSG_DATA" "list_all msg_data_ok msgs"
    and "run (dws_body dws_arg_thread) es (dws_init msgs st) = Some s"
    and "j < length es" "length es \<le> j + 780"
  shows "data_p (msg_data s ! (j div 78 mod 10)) ! (j mod 78) =
     \<lparr>buffer_id = word_of_nat j,
      buf_p = downsample (dma_mem (es ! j)) ((j mod 30) * 800) 50\<rparr>"
  using dws_run_state [OF assms(1-3), of st] assms(4-6)
  by (auto simp: dws_history_def slot_def block_of_def)

section \<open>Witnesses\<close>

definition msg_data_zero :: msg_data_t where
  "msg_data_zero =
     \<lparr>msg_h = \<lparr>id_device = 0, msg_op = 0, msg_size = 0\<rparr>,
      data_h = \<lparr>data_id = 0, buffer_size = 0, data_buffer_num = 0, rtc_value = 0, corr_buffer_id = 0\<rparr>,
      data_p = replicate 78 \<lparr>buffer_id = 0, buf_p = replicate 150 0\<rparr>\<rparr>"

definition dws_env_flat :: dws_env where
  "dws_env_flat =
     \<lparr>dma_mem = replicate 24000 0x3FFC, ptr_sntp_time = 0xE7A5000080000000, rtc_tv_sec = 5,
      rtc_tv_nsec = 7\<rparr>"

lemma msg_data_zero_ok [simp]: "msg_data_ok msg_data_zero"
  by (simp add: msg_data_ok_def msg_data_zero_def msg_consts list_all_length)

lemma msgs_zero_ok [simp]:
  "list_all msg_data_ok (replicate 10 msg_data_zero)" "length (replicate 10 msg_data_zero) = N_MSG_DATA"
  by (simp_all add: list_all_length msg_consts)

lemma dws_env_flat_ok [simp]: "dws_env_ok dws_env_flat"
  by (simp add: dws_env_ok_def dws_env_flat_def DMA_NUM_BUFFERS_def DMA_BUFF_SIZE_def)

theorem dws_loop_correct_witness:
  "dws_loop 0 2 (replicate 40 0x3FFC) 8 (replicate 7 0)
     = Some (downsample (replicate 40 0x3FFC) 8 2 @ [0])"
  using dws_loop_correct [of 8 2 "replicate 40 0x3FFC" "replicate 7 0"] by simp

theorem dws_body_sync_witness:
  "\<exists>s'. dws_body dws_arg_thread dws_env_flat (dws_init (replicate 10 msg_data_zero) 1) = Some s'
     \<and> status_time_sync s' = 0
     \<and> rtc_value (data_h (msg_data s' ! 0)) = time_synchro_ns 0xE7A5000080000000 5 7"
  using dws_body_sync [OF dws_init_pos [OF msgs_zero_ok(2,1), of 1] dws_env_flat_ok]
  by (auto simp: dws_init_def dws_env_flat_def Let_def)

theorem dws_run_pace_witness:
  "\<exists>s. run (dws_body dws_arg_thread) (replicate 79 dws_env_flat)
          (dws_init (replicate 10 msg_data_zero) 0) = Some s
     \<and> semaphore_mqtt s = 1 \<and> unat (cnt_buffer_out s) = 1 \<and> unat (n_msg_data s) = 1"
proof -
  have "list_all dws_env_ok (replicate 79 dws_env_flat)"
    by (simp add: list_all_length)
  from dws_run_pace [OF this msgs_zero_ok(2,1), of 0] show ?thesis by auto
qed

theorem dws_run_content_witness:
  "\<exists>s. run (dws_body dws_arg_thread) [dws_env_flat] (dws_init (replicate 10 msg_data_zero) 0) = Some s
     \<and> data_p (msg_data s ! 0) ! 0
         = \<lparr>buffer_id = 0, buf_p = downsample (replicate 24000 0x3FFC) 0 50\<rparr>"
proof -
  have ok: "list_all dws_env_ok [dws_env_flat]" by simp
  obtain s where "run (dws_body dws_arg_thread) [dws_env_flat]
      (dws_init (replicate 10 msg_data_zero) 0) = Some s"
    using dws_run_state [OF ok msgs_zero_ok(2,1)] by blast
  with dws_run_content [OF ok msgs_zero_ok(2,1) this, of 0] show ?thesis
    by (simp add: dws_env_flat_def)
qed

end
