(* ===== verification/Print_User.thy ===== *)
theory Print_User
  imports Downsampling
begin

text \<open>
  \<open>print_user.c\<close>: \<open>print_values_downsampled\<close> unpacks the three-byte pairs that the
  downsampling thread packed and renders them as text in a local buffer of \<open>max_size\<close>
  characters. The code checks no bound; a write outside the buffer is \<open>None\<close>. The routine returns
  its code and gives the buffer up: nothing reads the text. The final content of the buffer is \<open>format_downsampled\<close>.
\<close>

section \<open>Decimal text\<close>

definition digit_char :: "nat \<Rightarrow> char" where
  "digit_char d = char_of (48 + d)"

fun dec_string :: "nat \<Rightarrow> string" where
  "dec_string n =
     (if n < 10 then [digit_char n] else dec_string (n div 10) @ [digit_char (n mod 10)])"

declare dec_string.simps [simp del]

lemma dec_string_nonempty [simp]: "dec_string n \<noteq> []"
  by (subst dec_string.simps) simp

lemma dec_string_length_le: "n < 10 ^ Suc k \<Longrightarrow> length (dec_string n) \<le> Suc k"
proof (induction k arbitrary: n)
  case 0
  then show ?case by (subst dec_string.simps) simp
next
  case (Suc k)
  show ?case
  proof (cases "n < 10")
    case True
    then show ?thesis by (subst dec_string.simps) simp
  next
    case False
    have "n div 10 < 10 ^ Suc k" using Suc.prems by (simp add: div_less_iff_less_mult mult.commute)
    then have "length (dec_string (n div 10)) \<le> Suc k" by (rule Suc.IH)
    with False show ?thesis by (simp add: dec_string.simps [of n])
  qed
qed

text \<open>\<open>snprintf (temp, n, "%u,", v)\<close>: the characters stored and the value returned.\<close>

definition snprintf_u :: "nat \<Rightarrow> u16 \<Rightarrow> string \<times> nat" where
  "snprintf_u n v =
     (let text = dec_string (unat v) @ '','' in (take (n - 1) text, length text))"

section \<open>The routine\<close>

definition temp_value_right :: "u8 \<Rightarrow> u8 \<Rightarrow> u16" where
  "temp_value_right b0 b1 = (ucast b0 OR push_bit 8 (ucast b1 AND 0xFF)) AND 0x0FFF"

definition temp_value_left :: "u8 \<Rightarrow> u8 \<Rightarrow> u16" where
  "temp_value_left b1 b2 = drop_bit 4 (ucast b1 AND 0xFF0) OR push_bit 4 (ucast b2)"

text \<open>One value: \<open>snprintf\<close>, the copy to the buffer, and the 16-bit write position.\<close>

definition emit_value :: "u16 \<Rightarrow> string \<times> u16 \<Rightarrow> (string \<times> u16) option" where
  "emit_value v st =
     (let (temp, num_chars) = snprintf_u 10 v in
      Option.bind (peek temp 0 num_chars) (\<lambda>chars.
      map_option (\<lambda>buf. (buf, snd st + word_of_nat num_chars)) (poke (fst st) (unat (snd st)) chars)))"

function print_loop :: "nat \<Rightarrow> nat \<Rightarrow> u8 list \<Rightarrow> string \<times> u16 \<Rightarrow> (string \<times> u16) option" where
  "print_loop i sz cur st =
     (if i < sz then
        Option.bind (rd cur i) (\<lambda>b0. Option.bind (rd cur (i + 1)) (\<lambda>b1.
        Option.bind (rd cur (i + 2)) (\<lambda>b2.
        Option.bind (emit_value (temp_value_right b0 b1) st) (\<lambda>st1.
        Option.bind (emit_value (temp_value_left b1 b2) st1) (\<lambda>st2.
        print_loop (i + 3) sz cur st2)))))
      else Some st)"
  by pat_completeness auto
termination
  by (relation "measure (\<lambda>(i, sz, _). sz - i)") auto

declare print_loop.simps [simp del]

definition display_buffer_start :: string where "display_buffer_start = ''buffer=[''"
definition display_buffer_end :: string where "display_buffer_end = ''];''"
definition NUL :: char where "NUL = char_of (0::nat)"

text \<open>\<open>buf\<close> is the uninitialised array of \<open>max_size\<close> characters; the result is its content when the routine returns.\<close>

definition format_downsampled :: "string \<Rightarrow> u8 list \<Rightarrow> nat \<Rightarrow> string option" where
  "format_downsampled buf print_buffer print_buffer_size =
     (let sz = unat (word_of_nat print_buffer_size :: u16) in
      Option.bind (poke buf 0 display_buffer_start) (\<lambda>buf0.
      Option.bind (print_loop 0 sz print_buffer (buf0, word_of_nat (length display_buffer_start)))
        (\<lambda>(buf1, cnt).
      Option.bind (wr buf1 (unat cnt - 1) NUL) (\<lambda>buf2.
      poke buf2 (unat cnt - 1) (display_buffer_end @ [NUL])))))"

definition PRINT_NO_ERROR :: int where "PRINT_NO_ERROR = 0"

text \<open>The routine: it formats, and returns without having sent its local buffer anywhere.\<close>

definition print_values_downsampled :: "string \<Rightarrow> u8 list \<Rightarrow> nat \<Rightarrow> int option" where
  "print_values_downsampled buf print_buffer print_buffer_size =
     Option.bind (format_downsampled buf print_buffer print_buffer_size) (\<lambda>_. Some PRINT_NO_ERROR)"

section \<open>Unpacking\<close>

text \<open>The values of consecutive three-byte groups.\<close>

fun unpack :: "u8 list \<Rightarrow> u16 list" where
  "unpack (b0 # b1 # b2 # bs) = temp_value_right b0 b1 # temp_value_left b1 b2 # unpack bs"
| "unpack _ = []"

lemma temp_right_nat: "unat (temp_value_right b0 b1) = (unat b0 + 256 * unat b1) mod 4096"
proof -
  have "(ucast b1 :: u16) AND 0xFF = take_bit 8 (ucast b1)"
    by (simp add: take_bit_eq_mask mask_eq_exp_minus_1)
  also have "\<dots> = ucast b1"
    by (rule bit_word_eqI) (auto simp: bit_simps dest: bit_imp_le_length)
  finally have "(ucast b1 :: u16) AND 0xFF = ucast b1" .
  moreover have "(ucast b0 :: u16) OR push_bit 8 (ucast b1) = ucast b0 + push_bit 8 (ucast b1)"
    by (intro disjunctive_add_eq_or [symmetric] bit_word_eqI)
      (auto simp: bit_simps dest: bit_imp_le_length)
  ultimately have "temp_value_right b0 b1 = take_bit 12 (ucast b0 + 256 * ucast b1)"
    by (simp add: temp_value_right_def take_bit_eq_mask mask_eq_exp_minus_1 push_bit_eq_mult mult.commute)
  moreover have "(ucast b0 + 256 * ucast b1 :: u16) = word_of_nat (unat b0 + 256 * unat b1)"
    by simp
  moreover have "unat b0 + 256 * unat b1 < 2 ^ LENGTH(16)"
    using unat_u8_lt [of b0] unat_u8_lt [of b1] by simp
  ultimately have "unat (temp_value_right b0 b1) = take_bit 12 (unat b0 + 256 * unat b1)"
    by (simp only: unsigned_take_bit_eq unat_word_of_nat_small)
  then show ?thesis by (simp only: take_bit_eq_mod) simp
qed

lemma temp_left_nat: "unat (temp_value_left b1 b2) = unat b1 div 16 + 16 * unat b2"
proof -
  have "drop_bit 4 ((ucast b1 :: u16) AND 0xFF0) = take_bit 8 (drop_bit 4 (ucast b1))"
    by (simp add: drop_bit_and take_bit_eq_mask mask_eq_exp_minus_1)
  also have "\<dots> = drop_bit 4 (ucast b1)"
    by (rule bit_word_eqI) (auto simp: bit_simps dest: bit_imp_le_length)
  finally have "drop_bit 4 ((ucast b1 :: u16) AND 0xFF0) = drop_bit 4 (ucast b1)" .
  moreover have "drop_bit 4 (ucast b1 :: u16) OR push_bit 4 (ucast b2)
      = drop_bit 4 (ucast b1) + push_bit 4 (ucast b2)"
    by (intro disjunctive_add_eq_or [symmetric] bit_word_eqI)
      (auto simp: bit_simps dest: bit_imp_le_length)
  ultimately have "temp_value_left b1 b2 = drop_bit 4 (ucast b1) + push_bit 4 (ucast b2)"
    by (simp add: temp_value_left_def)
  moreover have "drop_bit 4 (ucast b1 :: u16) = word_of_nat (unat b1 div 16)"
  proof -
    have "unat (drop_bit 4 (ucast b1 :: u16)) = unat b1 div 16"
      using unat_u8_lt [of b1]
      by (simp add: unat_drop_bit_eq drop_bit_eq_div [where ?'a = nat] unsigned_ucast_eq
          take_bit_nat_eq_self)
    then show ?thesis by (rule unat_eqD)
  qed
  ultimately have "temp_value_left b1 b2 = word_of_nat (unat b1 div 16 + 16 * unat b2)"
    by (simp add: push_bit_eq_mult mult.commute)
  moreover have "unat b1 div 16 + 16 * unat b2 < 2 ^ LENGTH(16)"
    using unat_u8_lt [of b1] unat_u8_lt [of b2] by simp
  ultimately show ?thesis by (simp only: unat_word_of_nat_small)
qed

lemma split24:
  fixes v :: nat
  assumes "v < 16777216"
  shows "(v mod 256 + 256 * (v div 256 mod 256)) mod 4096 = v mod 4096"
    and "v div 256 mod 256 div 16 + 16 * (v div 256 div 256 mod 256) = v div 4096"
proof -
  define b0 where "b0 = v mod 256"
  define b1 where "b1 = v div 256 mod 256"
  define b2 where "b2 = v div 65536"
  have v: "v = b0 + 256 * b1 + 65536 * b2"
    using mod_mult2_eq [of v 256 256] mult_div_mod_eq [of 65536 v]
    by (simp add: b0_def b1_def b2_def)
  have lt: "b0 < 256" "b1 < 256" "b2 < 256"
    using assms by (simp_all add: b0_def b1_def b2_def div_less_iff_less_mult)
  have "v = (b0 + 256 * b1) + 4096 * (16 * b2)" using v by simp
  then have "v mod 4096 = (b0 + 256 * b1) mod 4096" by (metis mod_mult_self2)
  then show "(v mod 256 + 256 * (v div 256 mod 256)) mod 4096 = v mod 4096"
    by (simp add: b0_def b1_def)
  have b2: "v div 256 div 256 mod 256 = b2"
    using lt by (simp add: b2_def div_mult2_eq [symmetric])
  have "256 * b1 = 256 * (b1 mod 16) + 4096 * (b1 div 16)"
    using mod_mult_div_eq [of b1 16] by linarith
  then have "v = (b0 + 256 * (b1 mod 16)) + 4096 * (b1 div 16 + 16 * b2)"
    using v by simp
  moreover have "b0 + 256 * (b1 mod 16) < 4096"
    using lt mod_less_divisor [of 16 b1] by simp
  ultimately have "v div 4096 = b1 div 16 + 16 * b2"
    by simp
  then show "v div 256 mod 256 div 16 + 16 * (v div 256 div 256 mod 256) = v div 4096"
    using b2 by (simp add: b1_def)
qed

lemma unpack_pair_bytes:
  assumes "16 \<le> length xs"
  shows "unpack (pair_bytes xs @ bs) =
     word_of_nat (avg8 (take 8 xs)) # word_of_nat (avg8 (take 8 (drop 8 xs))) # unpack bs"
proof -
  have rl: "avg8 (take 8 xs) < 4096" "avg8 (take 8 (drop 8 xs)) < 4096"
    by (simp_all add: avg8_bound)
  define v where "v = avg8 (take 8 xs) + 4096 * avg8 (take 8 (drop 8 xs))"
  have v: "v < 16777216" "v mod 4096 = avg8 (take 8 xs)" "v div 4096 = avg8 (take 8 (drop 8 xs))"
    using rl by (simp_all add: v_def)
  have P: "pair_bytes xs = [word_of_nat v, word_of_nat (v div 256), word_of_nat (v div 256 div 256)]"
    by (simp only: pair_bytes_def v_def [symmetric] numeral_3_eq_3 le_bytes.simps)
  have R: "temp_value_right (word_of_nat v) (word_of_nat (v div 256)) = word_of_nat (v mod 4096)"
    using split24(1) [OF v(1)]
    by (intro unat_eqD) (simp add: temp_right_nat unat_word_of_nat_mod)
  have L: "temp_value_left (word_of_nat (v div 256)) (word_of_nat (v div 256 div 256))
      = word_of_nat (v div 4096)"
    using split24(2) [OF v(1)]
    by (intro unat_eqD) (simp add: temp_left_nat unat_word_of_nat_mod)
  have "unpack (pair_bytes xs @ bs) = word_of_nat (v mod 4096) # word_of_nat (v div 4096) # unpack bs"
    by (simp only: P R L append_Cons append_Nil unpack.simps)
  then show ?thesis by (simp only: v)
qed

text \<open>The averages of a buffer, right before left, group after group.\<close>

definition averages :: "u16 list \<Rightarrow> nat \<Rightarrow> nat \<Rightarrow> u16 list" where
  "averages mem base n =
     concat (map (\<lambda>i. let g = drop (base + i * 16) mem in
       [word_of_nat (avg8 (take 8 g)), word_of_nat (avg8 (take 8 (drop 8 g)))]) [0..<n])"

lemma unpack_append: "length xs = 3 * k \<Longrightarrow> unpack (xs @ ys) = unpack xs @ unpack ys"
proof (induction k arbitrary: xs)
  case (Suc k)
  then obtain b0 b1 b2 zs where xs: "xs = b0 # b1 # b2 # zs"
    by (auto simp: length_Suc_conv numeral_3_eq_3)
  then have "length zs = 3 * k" using Suc.prems by simp
  then show ?case using Suc.IH [of zs] xs by simp
qed simp

lemma unpack_downsample:
  assumes "base + n * 16 \<le> length mem"
  shows "unpack (downsample mem base n) = averages mem base n"
  using assms
proof (induction n)
  case (Suc n)
  have "16 \<le> length (drop (base + n * 16) mem)" using Suc.prems by simp
  from unpack_pair_bytes [OF this, of "[]"] Suc show ?case
    by (simp add: downsample_Suc unpack_append [of _ n] averages_def Let_def)
qed (simp add: downsample_def averages_def)

section \<open>The rendered text\<close>

definition render :: "u16 list \<Rightarrow> string" where
  "render vs = concat (map (\<lambda>v. dec_string (unat v) @ '','') vs)"

lemma render_simps [simp]:
  "render [] = []" "render (v # vs) = (dec_string (unat v) @ '','') @ render vs"
  by (simp_all add: render_def)

lemma emit_value_eq:
  "emit_value v (buf, pos) =
     map_option (\<lambda>b. (b, pos + word_of_nat (length (dec_string (unat v) @ '',''))))
       (poke buf (unat pos) (dec_string (unat v) @ '',''))"
proof -
  have "length (dec_string (unat v)) \<le> Suc 4"
    using unat_u16_lt [of v] by (intro dec_string_length_le) simp
  then show ?thesis
    by (simp add: emit_value_def snprintf_u_def Let_def)
qed

text \<open>One value, and then a continuation that prints the text \<open>t\<close> from its position on.\<close>

lemma emit_then:
  assumes "length buf < 65536"
    and cont: "\<And>b p. length b = length buf \<Longrightarrow> unat p \<le> length b \<Longrightarrow>
      f (b, p) = map_option (\<lambda>b'. (b', p + word_of_nat (length t))) (poke b (unat p) t)"
  shows "Option.bind (emit_value v (buf, pos)) f =
    map_option (\<lambda>b'. (b', pos + word_of_nat (length (render [v] @ t))))
      (poke buf (unat pos) (render [v] @ t))"
proof -
  let ?d = "dec_string (unat v) @ '',''"
  show ?thesis
  proof (cases "poke buf (unat pos) ?d")
    case None
    moreover from this have "poke buf (unat pos) (render [v] @ t) = None"
      by (auto simp: poke_None_iff)
    ultimately show ?thesis by (simp add: emit_value_eq)
  next
    case (Some b)
    then have fits: "unat pos + length ?d \<le> length buf"
      using poke_None_iff [of buf "unat pos" ?d] by (simp only: not_less option.distinct simp_thms)
    from Some have len: "length b = length buf" by (rule poke_length)
    have p: "unat (pos + word_of_nat (length ?d)) = unat pos + length ?d"
      using fits assms(1) by (intro unat_add_of_nat) simp
    have "Option.bind (emit_value v (buf, pos)) f = f (b, pos + word_of_nat (length ?d))"
      by (simp add: emit_value_eq Some)
    also have "\<dots> = map_option (\<lambda>b'. (b', pos + word_of_nat (length ?d) + word_of_nat (length t)))
        (poke b (unat pos + length ?d) t)"
      using cont [OF len, of "pos + word_of_nat (length ?d)"] p fits len by simp
    also have "poke b (unat pos + length ?d) t = poke buf (unat pos) (?d @ t)"
      using poke_poke [of buf "unat pos" ?d t] Some by simp
    finally show ?thesis by (simp add: add.assoc)
  qed
qed

lemma print_loop_render:
  assumes "i + 3 * k \<le> length cur" "length buf < 65536" "unat pos \<le> length buf"
  shows "print_loop i (i + 3 * k) cur (buf, pos) =
    map_option (\<lambda>b. (b, pos + word_of_nat (length (render (unpack (take (3 * k) (drop i cur)))))))
      (poke buf (unat pos) (render (unpack (take (3 * k) (drop i cur)))))"
  using assms
proof (induction k arbitrary: i buf pos)
  case 0
  then show ?case by (simp add: print_loop.simps [of i])
next
  case (Suc k)
  let ?t = "render (unpack (take (3 * k) (drop (i + 3) cur)))"
  let ?r = "temp_value_right (cur ! i) (cur ! (i + 1))"
  let ?l = "temp_value_left (cur ! (i + 1)) (cur ! (i + 2))"
  have "drop i cur = cur ! i # cur ! (i + 1) # cur ! (i + 2) # drop (i + 3) cur"
    using Suc.prems(1) by (simp add: Cons_nth_drop_Suc numeral_3_eq_3)
  then have t: "render (unpack (take (3 * Suc k) (drop i cur))) = render [?r] @ (render [?l] @ ?t)"
    by (simp add: numeral_3_eq_3)
  have IH: "print_loop (i + 3) (i + 3 * Suc k) cur (b, p) =
      map_option (\<lambda>b'. (b', p + word_of_nat (length ?t))) (poke b (unat p) ?t)"
    if "length b = length buf" "unat p \<le> length b" for b p
    using Suc.IH [of "i + 3" b p] Suc.prems that by (simp add: algebra_simps)
  have inner: "Option.bind (emit_value ?l (b, p)) (print_loop (i + 3) (i + 3 * Suc k) cur) =
      map_option (\<lambda>b'. (b', p + word_of_nat (length (render [?l] @ ?t)))) (poke b (unat p) (render [?l] @ ?t))"
    if "length b = length buf" "unat p \<le> length b" for b p
    using that Suc.prems(2) by (intro emit_then IH) simp_all
  have "print_loop i (i + 3 * Suc k) cur (buf, pos) = Option.bind (emit_value ?r (buf, pos))
      (\<lambda>st. Option.bind (emit_value ?l st) (print_loop (i + 3) (i + 3 * Suc k) cur))"
    using Suc.prems(1) by (simp add: print_loop.simps [of i])
  also have "\<dots> = map_option (\<lambda>b'. (b', pos + word_of_nat (length (render [?r] @ (render [?l] @ ?t)))))
      (poke buf (unat pos) (render [?r] @ (render [?l] @ ?t)))"
    using Suc.prems(2) by (intro emit_then inner) simp_all
  finally show ?case by (simp only: t)
qed

lemma unpack_nonempty:
  assumes "0 < n" "3 * n \<le> length bs"
  shows "unpack (take (3 * n) bs) \<noteq> []"
proof -
  obtain t where t: "take (3 * n) bs = t" by simp
  then have "length t = Suc (Suc (Suc (3 * (n - 1))))" using assms by auto
  then obtain b0 b1 b2 cs where "t = b0 # b1 # b2 # cs"
    by (auto simp: length_Suc_conv)
  with t show ?thesis by simp
qed

lemma render_nonempty [simp]: "render vs = [] \<longleftrightarrow> vs = []"
  by (cases vs) simp_all

text \<open>The last comma is overwritten by the closing text.\<close>

lemma poke_tail:
  assumes "poke mem 0 xs = Some m" "xs \<noteq> []" "ys \<noteq> []"
  shows "Option.bind (wr m (length xs - 1) x) (\<lambda>m'. poke m' (length xs - 1) ys)
    = poke mem 0 (butlast xs @ ys)"
proof -
  define k where "k = length xs - 1"
  have len: "k < length mem" "length xs = Suc k" and m: "m = xs @ drop (length xs) mem"
    using assms by (cases xs; auto simp: k_def poke_def split: if_splits)+
  have lm: "length m = length mem" using len by (simp add: m)
  have "take k m = butlast xs"
    using len by (simp add: m butlast_conv_take)
  moreover have "drop (k + length ys) (m[k := x]) = drop (k + length ys) mem"
  proof -
    obtain j where "k + length ys = length xs + j"
      using assms(3) len by (cases ys) auto
    then show ?thesis using len by (simp add: m drop_update_cancel add.commute)
  qed
  ultimately have "poke (m[k := x]) k ys =
      (if k + length ys \<le> length mem then Some (butlast xs @ ys @ drop (k + length ys) mem) else None)"
    by (simp add: poke_def lm)
  moreover have "poke mem 0 (butlast xs @ ys) =
      (if k + length ys \<le> length mem then Some (butlast xs @ ys @ drop (k + length ys) mem) else None)"
    using len by (simp add: poke_def)
  moreover have "wr m k x = Some (m[k := x])" using len lm by simp
  ultimately show ?thesis by (simp only: k_def [symmetric] Option.bind.bind_lunit)
qed

text \<open>
  The routine formats the unpacked values in decimal, separated by commas, between
  \<open>buffer=[\<close> and \<open>];\<close>, closed by a NUL; it is defined exactly when that text fits in the
  buffer, a test which the code does not make.
\<close>

theorem format_text:
  assumes "0 < n" "3 * n \<le> length pb" "3 * n < 65536" "length buf < 65536"
  shows "format_downsampled buf pb (3 * n) =
    poke buf 0 (''buffer=['' @ butlast (render (unpack (take (3 * n) pb))) @ ''];'' @ [NUL])"
proof -
  let ?t = "render (unpack (take (3 * n) pb))"
  have t: "?t \<noteq> []" using unpack_nonempty [OF assms(1,2)] by simp
  have sz: "unat (word_of_nat (3 * n) :: u16) = 0 + 3 * n"
    using assms(3) unat_word_of_nat_small [of "3 * n", where ?'a = 16] by simp
  have start: "display_buffer_start = ''buffer=[''" by (simp add: display_buffer_start_def)
  have loop: "Option.bind (poke buf 0 ''buffer=['') (\<lambda>b0. print_loop 0 (3 * n) pb (b0, 8)) =
      map_option (\<lambda>b. (b, word_of_nat (length (''buffer=['' @ ?t)))) (poke buf 0 (''buffer=['' @ ?t))"
  proof (cases "poke buf 0 ''buffer=[''")
    case None
    then have "poke buf 0 (''buffer=['' @ ?t) = None" by (simp add: poke_None_iff)
    with None show ?thesis by simp
  next
    case (Some b0)
    then have "length b0 = length buf" "8 \<le> length buf"
      using poke_length [OF Some] by (auto simp: poke_def split: if_splits)
    then have "print_loop 0 (0 + 3 * n) pb (b0, 8) =
        map_option (\<lambda>b. (b, 8 + word_of_nat (length ?t))) (poke b0 8 ?t)"
      using print_loop_render [of 0 n pb b0 8] assms by simp
    moreover have "poke b0 8 ?t = poke buf 0 (''buffer=['' @ ?t)"
      using poke_poke [of buf 0 "''buffer=[''" ?t]
      by (simp only: Some Option.bind.bind_lunit add_0) (simp add: numeral_eq_Suc)
    ultimately show ?thesis using Some by simp
  qed
  have len8: "word_of_nat (length ''buffer=['') = (8 :: u16)" by simp
  have whole: "format_downsampled buf pb (3 * n) = Option.bind
      (Option.bind (poke buf 0 ''buffer=['') (\<lambda>b0. print_loop 0 (3 * n) pb (b0, 8)))
      (\<lambda>(b, cnt). Option.bind (wr b (unat cnt - 1) NUL)
        (\<lambda>b'. poke b' (unat cnt - 1) (''];'' @ [NUL])))"
    by (simp only: format_downsampled_def sz add_0 start Let_def display_buffer_end_def len8
        Option.bind_assoc)
  show ?thesis
  proof (cases "poke buf 0 (''buffer=['' @ ?t)")
    case None
    then have "poke buf 0 (''buffer=['' @ butlast ?t @ ''];'' @ [NUL]) = None"
      by (auto simp: poke_None_iff)
    moreover have "format_downsampled buf pb (3 * n) = None"
      by (simp only: whole loop None option.map Option.bind.bind_lzero)
    ultimately show ?thesis by simp
  next
    case (Some b)
    let ?all = "''buffer=['' @ ?t"
    have "length ?all < 65536"
      using Some assms(4) by (auto simp: poke_def split: if_splits)
    then have cnt: "unat (word_of_nat (length ?all) :: u16) = length ?all"
      by (intro unat_word_of_nat_small) simp
    have "format_downsampled buf pb (3 * n) = Option.bind (wr b (length ?all - 1) NUL)
          (\<lambda>b'. poke b' (length ?all - 1) (''];'' @ [NUL]))"
      by (simp only: whole loop Some option.map Option.bind.bind_lunit prod.case cnt)
    also have "\<dots> = poke buf 0 (butlast ?all @ ''];'' @ [NUL])"
      by (rule poke_tail [OF Some]) simp_all
    finally show ?thesis using t by (simp add: butlast_append)
  qed
qed

text \<open>A size of zero overwrites the opening bracket.\<close>

lemma format_empty:
  assumes "11 \<le> length buf"
  shows "map_option (take 10) (format_downsampled buf pb 0) = Some (''buffer=];'' @ [NUL])"
  using assms
  by (simp add: format_downsampled_def display_buffer_start_def display_buffer_end_def
      print_loop.simps [of 0])

lemma format_text_witness:
  "format_downsampled (replicate 18 NUL) [0x34, 0x12, 0x00] (3 * 1) =
     Some (''buffer=[564,1];'' @ [NUL, NUL, NUL])"
proof -
  have "unpack (take (3 * 1) [0x34, 0x12, 0x00]) = [564, 1]"
    by (simp add: temp_value_right_def temp_value_left_def)
  moreover have "digit_char 5 = CHR ''5''" "digit_char 6 = CHR ''6''" "digit_char 4 = CHR ''4''"
      "digit_char 1 = CHR ''1''"
    by code_simp+
  then have "dec_string 564 = ''564''" "dec_string 1 = ''1''"
    by (simp_all add: dec_string.simps [of 564] dec_string.simps [of 56] dec_string.simps [of 5]
        dec_string.simps [of "Suc 0"])
  ultimately have r: "render (unpack (take (3 * 1) [0x34, 0x12, 0x00])) = ''564,1,''"
    by simp
  have "poke (replicate 18 NUL) 0 (''buffer=['' @ butlast ''564,1,'' @ ''];'' @ [NUL]) =
      Some (''buffer=[564,1];'' @ [NUL, NUL, NUL])"
    by code_simp
  moreover have "format_downsampled (replicate 18 NUL) [0x34, 0x12, 0x00] (3 * 1) =
      poke (replicate 18 NUL) 0
        (''buffer=['' @ butlast (render (unpack (take (3 * 1) [0x34, 0x12, 0x00]))) @ ''];'' @ [NUL])"
    by (rule format_text) simp_all
  ultimately show ?thesis by (simp only: r)
qed

lemma render_length:
  assumes "\<forall>v \<in> set vs. unat v < 10000"
  shows "length (render vs) \<le> 5 * length vs"
  using assms
proof (induction vs)
  case (Cons v vs)
  then have "length (dec_string (unat v)) \<le> Suc 3" by (intro dec_string_length_le) simp
  with Cons show ?case by simp
qed simp

lemma averages_small: "v \<in> set (averages mem base n) \<Longrightarrow> unat v < 10000"
proof -
  have "unat (word_of_nat (avg8 (take 8 xs)) :: u16) < 10000" for xs
    using avg8_bound [of "take 8 xs"] by (simp add: unat_word_of_nat_mod)
  then show "v \<in> set (averages mem base n) \<Longrightarrow> unat v < 10000" by (auto simp: averages_def Let_def)
qed

lemma averages_length: "length (averages mem base n) = 2 * n"
  by (induction n) (simp_all add: averages_def Let_def)

text \<open>
  (C38) Round trip of the packing: from what the downsampling loop wrote into a message the routine formats, in its local buffer,
  exactly the 12-bit averages of the ADC buffer in decimal, right before left in each group, between \<open>buffer=[\<close> and \<open>];\<close>. It
  returns \<open>PRINT_NO_ERROR\<close> when this text with its NUL fits into the buffer, for which ten characters for each group and ten
  more are enough, and writes behind the buffer otherwise. The text itself is lost: nothing is sent.
\<close>

theorem print_formats_averages:
  assumes "0 < n" "3 * n < 65536" "length buf < 65536"
    and "base + n * 16 \<le> length mem" "n * 3 \<le> length out"
  shows "\<exists>pb text. dws_loop 0 n mem base out = Some pb
    \<and> text = ''buffer=['' @ butlast (render (averages mem base n)) @ ''];'' @ [NUL]
    \<and> format_downsampled buf pb (3 * n) = (if length text \<le> length buf then Some (text @ drop (length text) buf) else None)
    \<and> print_values_downsampled buf pb (3 * n) = (if length text \<le> length buf then Some PRINT_NO_ERROR else None)
    \<and> length text \<le> 10 * n + 10"
proof -
  let ?pb = "downsample mem base n @ drop (n * 3) out"
  let ?text = "''buffer=['' @ butlast (render (averages mem base n)) @ ''];'' @ [NUL]"
  have pb: "dws_loop 0 n mem base out = Some ?pb"
    using dws_loop_from [of 0 n base mem out] assms by (simp add: downsample_def)
  moreover have "take (3 * n) ?pb = downsample mem base n" "3 * n \<le> length ?pb"
    using assms by (simp_all add: mult.commute)
  ultimately have f: "format_downsampled buf ?pb (3 * n) = poke buf 0 ?text"
    using format_text [of n ?pb buf] assms unpack_downsample [of base n mem] by simp
  have "length (render (averages mem base n)) \<le> 10 * n"
    using render_length [of "averages mem base n"] averages_small averages_length [of mem base n] by fastforce
  moreover have "render (averages mem base n) \<noteq> []"
    using averages_length [of mem base n] assms(1) by auto
  ultimately have "length ?text \<le> 10 * n + 10" by (cases "render (averages mem base n)") simp_all
  then show ?thesis
    using pb f by (intro exI [of _ ?pb] exI [of _ ?text]) (simp add: print_values_downsampled_def poke_def)
qed

lemma print_formats_averages_witness:
  "\<exists>pb. dws_loop 0 1 (replicate 16 4095) 0 (replicate 3 0) = Some pb
    \<and> print_values_downsampled (replicate 40 NUL) pb (3 * 1) = Some PRINT_NO_ERROR"
proof -
  have "(0 :: nat) < 1" "3 * 1 < (65536 :: nat)" "length (replicate 40 NUL) < 65536"
    "0 + 1 * 16 \<le> length (replicate 16 (4095 :: u16))" "1 * 3 \<le> length (replicate 3 (0 :: u8))" by simp_all
  from print_formats_averages [OF this] show ?thesis by (elim exE conjE) (simp only: length_replicate if_True, simp)
qed

end
