(* ===== verification/Mqtt_Client.thy ===== *)
theory Mqtt_Client
  imports Wire
begin

text \<open>
  \<open>mqttclient.c\<close>: the client layer over the MQTT core library. The state of a client is its context;
  \<open>awaitedAck\<close> says which acknowledgement is awaited, and is \<open>MQTT_DISCONNECT\<close> while the client is
  not connected. The receive task delivers the callbacks of the core library.

  The core library is not part of the sources: the result of a call to it is an argument, and
  so are the callbacks that the receive task delivers between the locked sections of an
  operation. A wait on the acknowledgement semaphore is decided when all these callbacks have
  been delivered: with the count still zero the operation is blocked, which is \<open>None\<close>, like a write
  outside an array or through a pointer that is null or dangling. The message types and error
  codes of the library are the record \<open>mqtt_codes\<close>.
\<close>

section \<open>Types\<close>

record mqtt_codes =
  MQTT_CONNACK :: u8
  MQTT_PUBACK :: u8
  MQTT_PUBCOMP :: u8
  MQTT_SUBACK :: u8
  MQTT_UNSUBACK :: u8
  MQTT_DISCONNECT :: u8
  MQTT_PACKET_ERR_NOTCONN :: int
  MQTT_PACKET_ERR_FNPARAM :: int
  MQTT_PACKET_ERR_TIMEOUT :: int
  MQTTClient_qos :: "u8 list"

definition MQTTCLIENT_DISCONNECT_CB :: u8 where "MQTTCLIENT_DISCONNECT_CB = 0xCB"
definition MQTTCLIENT_MAX_SIMULTANEOUS_SUB_TOPICS :: nat where
  "MQTTCLIENT_MAX_SIMULTANEOUS_SUB_TOPICS = 4"
definition MQTTCLIENT_MAX_SIMULTANEOUS_UNSUB_TOPICS :: nat where
  "MQTTCLIENT_MAX_SIMULTANEOUS_UNSUB_TOPICS = 4"
definition MQTTCLIENT_MAX_SIMULTANEOUS_SERVER_CONN :: nat where
  "MQTTCLIENT_MAX_SIMULTANEOUS_SERVER_CONN = 4"
definition MQTTCLIENT_ACK :: "u8 list" where
  "MQTTCLIENT_ACK = map (of_char :: char \<Rightarrow> u8) ''Ack Received from server''"

lemmas mqtt_limits = MQTTCLIENT_MAX_SIMULTANEOUS_SUB_TOPICS_def
  MQTTCLIENT_MAX_SIMULTANEOUS_UNSUB_TOPICS_def MQTTCLIENT_MAX_SIMULTANEOUS_SERVER_CONN_def

text \<open>What the documentation of the library states of its codes.\<close>

definition codes_ok :: "mqtt_codes \<Rightarrow> bool" where
  "codes_ok K \<longleftrightarrow>
     distinct [0, MQTT_CONNACK K, MQTT_PUBACK K, MQTT_PUBCOMP K, MQTT_SUBACK K, MQTT_UNSUBACK K,
               MQTT_DISCONNECT K, MQTTCLIENT_DISCONNECT_CB]
     \<and> MQTT_PACKET_ERR_NOTCONN K < 0 \<and> MQTT_PACKET_ERR_FNPARAM K < 0 \<and> MQTT_PACKET_ERR_TIMEOUT K < 0
     \<and> - 32768 \<le> MQTT_PACKET_ERR_NOTCONN K \<and> - 32768 \<le> MQTT_PACKET_ERR_FNPARAM K
     \<and> length (MQTTClient_qos K) = 3"

text \<open>What the application callback receives, and what is sent to the broker.\<close>

record MQTTClient_RecvMetaDataCB =
  md_topic :: string
  md_dup :: bool
  md_qos :: u8
  md_retain :: bool

datatype app_event =
    OPERATION_CB_EVENT u8 "u8 list"
  | RECV_CB_EVENT MQTTClient_RecvMetaDataCB "u8 list"
  | DISCONNECT_CB_EVENT

datatype core_call =
    Core_registerCtxInfo "string option" "string option" "string option"
  | Core_registerWillInfo string string u8 bool
  | Core_sendConnectMsg bool u16
  | Core_sendSubMsg "(string \<times> u8) list"
  | Core_sendUnsubMsg "string list"
  | Core_sendPubMsg string "u8 list" u8 bool
  | Core_sendDisconn

record MQTTClient_Will =
  willTopic :: "string option"
  willMsg :: string
  willQos :: nat
  will_retain :: bool

text \<open>
  The context. \<open>ackSyncObj\<close> is the count of the semaphore, \<open>subackQos\<close> the array it points to;
  \<open>None\<close> is a pointer that must not be used. The last two fields record the calls of the
  application callback and of the core library.
\<close>

record MQTTClient_Ctx_t =
  clientID :: "string option"
  usrName :: "string option"
  usrPwd :: "string option"
  mqttWill :: MQTTClient_Will
  inUse :: bool
  awaitedAck :: u8
  connAck :: u16
  ackSyncObj :: "nat option"
  subackQos :: "u8 list option"
  blockingSend :: bool
  connectedState :: bool
  app_log :: "app_event list"
  core_log :: "core_call list"

abbreviation app_call :: "app_event \<Rightarrow> MQTTClient_Ctx_t \<Rightarrow> MQTTClient_Ctx_t" where
  "app_call e c \<equiv> c\<lparr>app_log := app_log c @ [e]\<rparr>"

abbreviation core :: "core_call \<Rightarrow> MQTTClient_Ctx_t \<Rightarrow> MQTTClient_Ctx_t" where
  "core e c \<equiv> c\<lparr>core_log := core_log c @ [e]\<rparr>"

text \<open>A 32-bit result returned as \<open>int16_t\<close>, directly or through \<open>uint16_t\<close>.\<close>

definition int16 :: "int \<Rightarrow> int" where
  "int16 x = sint (word_of_int x :: u16)"

lemma int16_id [simp]: "- 32768 \<le> x \<Longrightarrow> x < 32768 \<Longrightarrow> int16 x = x"
  by (simp add: int16_def signed_of_int signed_take_bit_int_eq_self)
 
section \<open>Callbacks\<close>

definition ack_post :: "MQTTClient_Ctx_t \<Rightarrow> MQTTClient_Ctx_t option" where
  "ack_post c = map_option (\<lambda>n. c\<lparr>ackSyncObj := Some (Suc n)\<rparr>) (ackSyncObj c)"

definition SetCondAwaitedAckLocked :: "u8 \<Rightarrow> u8 \<Rightarrow> MQTTClient_Ctx_t \<Rightarrow> MQTTClient_Ctx_t" where
  "SetCondAwaitedAckLocked cond val c =
     (if cond = awaitedAck c then c\<lparr>awaitedAck := val\<rparr> else c)"

definition AwaitedAckSet ::
    "mqtt_codes \<Rightarrow> u8 \<Rightarrow> MQTTClient_Ctx_t \<Rightarrow> MQTTClient_Ctx_t \<times> bool" where
  "AwaitedAckSet K newAwaited c =
     (if awaitedAck c \<noteq> MQTT_DISCONNECT K then (c\<lparr>awaitedAck := newAwaited\<rparr>, True) else (c, False))"

text \<open>The acknowledgement that is awaited ends the wait; any other one is dropped.\<close>

definition ack_match :: "u8 \<Rightarrow> MQTTClient_Ctx_t \<Rightarrow> MQTTClient_Ctx_t option" where
  "ack_match msgType c =
     (if awaitedAck c = msgType then ack_post (c\<lparr>awaitedAck := 0\<rparr>) else Some c)"

text \<open>The loop that copies the return codes of a SUBACK.\<close>

definition suback_copy :: "u8 list \<Rightarrow> MQTTClient_Ctx_t \<Rightarrow> MQTTClient_Ctx_t option" where
  "suback_copy buf c =
     (if buf = [] then Some c
      else Option.bind (subackQos c) (\<lambda>q.
           map_option (\<lambda>q'. c\<lparr>subackQos := Some q'\<rparr>) (poke q 0 buf)))"

text \<open>\<open>(buf[0] << 8) | buf[1]\<close>\<close>

definition connack_word :: "u8 \<Rightarrow> u8 \<Rightarrow> u16" where
  "connack_word b0 b1 = push_bit 8 (ucast b0) OR ucast b1"

definition processNotifyAckCB ::
    "mqtt_codes \<Rightarrow> u8 \<Rightarrow> u8 list \<Rightarrow> MQTTClient_Ctx_t \<Rightarrow> MQTTClient_Ctx_t option" where
  "processNotifyAckCB K msgType buf c =
     (if msgType = MQTT_CONNACK K then
        Option.bind (rd buf 0) (\<lambda>b0. Option.bind (rd buf 1) (\<lambda>b1.
          (let ack = connack_word b0 b1;
               c1 = c\<lparr>connAck := ack, awaitedAck := 0\<rparr>
           in ack_post (app_call (OPERATION_CB_EVENT (MQTT_CONNACK K) (enc_w ack)) c1))))
      else if msgType = MQTT_SUBACK K then
        (if blockingSend c
         then Option.bind (suback_copy buf c) (ack_match msgType)
         else Some (app_call (OPERATION_CB_EVENT (MQTT_SUBACK K) buf) c))
      else
        (if blockingSend c then ack_match msgType c
         else Some (app_call (OPERATION_CB_EVENT msgType MQTTCLIENT_ACK) c)))"

record MQTT_Packet_t =
  fhByte1 :: u8
  pub_topic :: string
  pub_payload :: "u8 list"

definition MQTTClient_mqpPubQos :: "MQTT_Packet_t \<Rightarrow> u8" where
  "MQTTClient_mqpPubQos mqp = drop_bit 1 (fhByte1 mqp) AND 0x03"

definition processPublishRxCB ::
    "mqtt_codes \<Rightarrow> bool \<Rightarrow> bool \<Rightarrow> MQTT_Packet_t \<Rightarrow> MQTTClient_Ctx_t \<Rightarrow> MQTTClient_Ctx_t" where
  "processPublishRxCB K dup retain mqp c =
     (if awaitedAck c \<noteq> MQTT_DISCONNECT K
      then app_call (RECV_CB_EVENT \<lparr>md_topic = pub_topic mqp, md_dup = dup,
             md_qos = MQTTClient_mqpPubQos mqp, md_retain = retain\<rparr> (pub_payload mqp)) c
      else c)"

definition processDisconnCB :: "mqtt_codes \<Rightarrow> MQTTClient_Ctx_t \<Rightarrow> MQTTClient_Ctx_t option" where
  "processDisconnCB K c =
     map_option (app_call DISCONNECT_CB_EVENT)
       (if awaitedAck c \<noteq> MQTT_DISCONNECT K
        then ack_post (c\<lparr>awaitedAck := MQTT_DISCONNECT K\<rparr>) else Some c)"

text \<open>What the receive task delivers.\<close>

datatype rx_event = Rx_Ack u8 "u8 list" | Rx_Publish bool bool MQTT_Packet_t | Rx_Disconn

fun deliver1 :: "mqtt_codes \<Rightarrow> rx_event \<Rightarrow> MQTTClient_Ctx_t \<Rightarrow> MQTTClient_Ctx_t option" where
  "deliver1 K (Rx_Ack msgType buf) c = processNotifyAckCB K msgType buf c"
| "deliver1 K (Rx_Publish dup retain mqp) c = Some (processPublishRxCB K dup retain mqp c)"
| "deliver1 K Rx_Disconn c = processDisconnCB K c"

abbreviation deliver :: "mqtt_codes \<Rightarrow> rx_event list \<Rightarrow> MQTTClient_Ctx_t \<Rightarrow> MQTTClient_Ctx_t option" where
  "deliver K \<equiv> run (deliver1 K)"

section \<open>Operations of a connected client\<close>

definition ack_wait :: "mqtt_codes \<Rightarrow> rx_event list \<Rightarrow> MQTTClient_Ctx_t \<Rightarrow> MQTTClient_Ctx_t option" where
  "ack_wait K evs c =
     Option.bind (deliver K evs c) (\<lambda>c1.
       case ackSyncObj c1 of
         Some (Suc n) \<Rightarrow> Some (c1\<lparr>ackSyncObj := Some n\<rparr>)
       | _ \<Rightarrow> None)"

definition ServerAckLockedWait ::
    "mqtt_codes \<Rightarrow> rx_event list \<Rightarrow> MQTTClient_Ctx_t \<Rightarrow> (MQTTClient_Ctx_t \<times> int) option" where
  "ServerAckLockedWait K evs c =
     (if blockingSend c
      then map_option (\<lambda>c1. (c1, if awaitedAck c1 = MQTT_DISCONNECT K then MQTT_PACKET_ERR_NOTCONN K else 0))
             (ack_wait K evs c)
      else Some (c, 0))"

text \<open>
  Subscribe. \<open>e1\<close> is delivered before the send returns \<open>sent\<close>, \<open>e2\<close> before the lock is taken
  again after the wait. When the routine returns, the array \<open>qosLevel\<close> is gone.
\<close>

definition sub_topics :: "mqtt_codes \<Rightarrow> (string \<times> nat) list \<Rightarrow> (string \<times> u8) list option" where
  "sub_topics K params =
     (if list_all (\<lambda>p. snd p < length (MQTTClient_qos K)) params
      then Some (map (\<lambda>(t, q). (t, MQTTClient_qos K ! q)) params) else None)"

definition MqttClientSub ::
    "mqtt_codes \<Rightarrow> (string \<times> nat) list \<Rightarrow> int \<Rightarrow> rx_event list \<Rightarrow> rx_event list \<Rightarrow>
     MQTTClient_Ctx_t \<Rightarrow> (MQTTClient_Ctx_t \<times> int) option" where
  "MqttClientSub K params sent e1 e2 c =
     (if length params > MQTTCLIENT_MAX_SIMULTANEOUS_SUB_TOPICS
      then Some (c, MQTT_PACKET_ERR_FNPARAM K)
      else Option.bind (sub_topics K params) (\<lambda>topics.
       (let (c1, connected) = AwaitedAckSet K (MQTT_SUBACK K) c;
            qosLevel = map snd topics @ replicate (MQTTCLIENT_MAX_SIMULTANEOUS_SUB_TOPICS - length topics) 0
        in if \<not> connected then Some (c, MQTT_PACKET_ERR_NOTCONN K)
           else
             Option.bind (deliver K e1 (core (Core_sendSubMsg topics) (c1\<lparr>subackQos := Some qosLevel\<rparr>))) (\<lambda>c2.
             if sent < 0
             then Some ((SetCondAwaitedAckLocked (MQTT_SUBACK K) 0 c2)\<lparr>subackQos := None\<rparr>, sent)
             else Option.bind (ServerAckLockedWait K e2 c2) (\<lambda>(c3, rc).
                    Some (c3\<lparr>subackQos := None\<rparr>, if rc \<ge> 0 then 0 else rc))))))"

definition MqttClientUnsub ::
    "mqtt_codes \<Rightarrow> string list \<Rightarrow> int \<Rightarrow> rx_event list \<Rightarrow> rx_event list \<Rightarrow>
     MQTTClient_Ctx_t \<Rightarrow> (MQTTClient_Ctx_t \<times> int) option" where
  "MqttClientUnsub K topics sent e1 e2 c =
     (if length topics > MQTTCLIENT_MAX_SIMULTANEOUS_UNSUB_TOPICS
      then Some (c, MQTT_PACKET_ERR_FNPARAM K)
      else
       (let (c1, connected) = AwaitedAckSet K (MQTT_UNSUBACK K) c
        in if \<not> connected then Some (c, MQTT_PACKET_ERR_NOTCONN K)
           else
             Option.bind (deliver K e1 (core (Core_sendUnsubMsg topics) c1)) (\<lambda>c2.
             if sent < 0
             then Some (SetCondAwaitedAckLocked (MQTT_UNSUBACK K) 0 c2, sent)
             else Option.bind (ServerAckLockedWait K e2 c2) (\<lambda>(c3, rc).
                    Some (c3, if rc \<ge> 0 then 0 else rc)))))"

text \<open>Publish: \<open>qosLevel\<close> is the level in the flags, an index into two arrays of three elements.\<close>

definition awaited_acks :: "mqtt_codes \<Rightarrow> u8 list" where
  "awaited_acks K = [0, MQTT_PUBACK K, MQTT_PUBCOMP K]"

definition MqttClient_send ::
    "mqtt_codes \<Rightarrow> string \<Rightarrow> u8 list \<Rightarrow> nat \<Rightarrow> bool \<Rightarrow> int \<Rightarrow> rx_event list \<Rightarrow> rx_event list \<Rightarrow>
     MQTTClient_Ctx_t \<Rightarrow> (MQTTClient_Ctx_t \<times> int) option" where
  "MqttClient_send K topic msg qosLevel retain sent e1 e2 c =
     Option.bind (rd (awaited_acks K) qosLevel) (\<lambda>ack.
       (let (c1, connected) = AwaitedAckSet K ack c
        in if \<not> connected then Some (c, MQTT_PACKET_ERR_NOTCONN K)
           else
             Option.bind (rd (MQTTClient_qos K) qosLevel) (\<lambda>qos.
             Option.bind (deliver K e1 (core (Core_sendPubMsg topic msg qos retain) c1)) (\<lambda>c2.
             if sent < 0
             then Some (SetCondAwaitedAckLocked ack 0 c2, sent)
             else if qosLevel \<noteq> 0
             then Option.bind (ServerAckLockedWait K e2 c2) (\<lambda>(c3, rc).
                    Some (c3, if rc \<ge> 0 then 0 else rc))
             else Some (c2, 0)))))"

definition MQTTClient_disconnect_ctx ::
    "mqtt_codes \<Rightarrow> int \<Rightarrow> rx_event list \<Rightarrow> rx_event list \<Rightarrow>
     MQTTClient_Ctx_t \<Rightarrow> (MQTTClient_Ctx_t \<times> int) option" where
  "MQTTClient_disconnect_ctx K sent e1 e2 c =
     (let c0 = c\<lparr>connectedState := False\<rparr>;
          (c1, connected) = AwaitedAckSet K MQTTCLIENT_DISCONNECT_CB c0
      in if \<not> connected then Some (c0, MQTT_PACKET_ERR_NOTCONN K)
         else Option.bind (deliver K e1 (core Core_sendDisconn c1)) (\<lambda>c2.
           if sent \<ge> 0 then map_option (\<lambda>c3. (c3, 0)) (ack_wait K e2 c2)
           else Some (c2, sent)))"

text \<open>
  Connect. \<open>reg\<close> and \<open>will\<close> are the results of the two registrations, \<open>sent\<close> that of the connect
  message. The result is the local variable \<open>ret\<close>, a 32-bit integer, when the routine returns; its conversion to the
  \<open>int16_t\<close> of the routine is the one of \<open>MQTTClient_connect\<close> below. The flag says whether the routine reached the point at
  which it unblocks the receive task.
\<close>

definition connect_will ::
    "mqtt_codes \<Rightarrow> int \<Rightarrow> MQTTClient_Ctx_t \<Rightarrow> (MQTTClient_Ctx_t \<times> int) option" where
  "connect_will K will c =
     (case willTopic (mqttWill c) of
        None \<Rightarrow> Some (c, 0)
      | Some t \<Rightarrow> Option.bind (rd (MQTTClient_qos K) (willQos (mqttWill c))) (\<lambda>q.
          Some (core (Core_registerWillInfo t (willMsg (mqttWill c)) q (will_retain (mqttWill c))) c, will)))"

definition connect_result :: "mqtt_codes \<Rightarrow> int \<Rightarrow> MQTTClient_Ctx_t \<Rightarrow> MQTTClient_Ctx_t \<times> int" where
  "connect_result K ret c =
     (if awaitedAck c \<noteq> MQTT_DISCONNECT K
      then if connAck c AND 0xFF = 0
           then (c\<lparr>connectedState := True\<rparr>, int (unat (connAck c)))
           else (c\<lparr>connectedState := False\<rparr>, - int (unat (connAck c)))
      else (c, ret))"

definition connect_attempt ::
    "mqtt_codes \<Rightarrow> bool \<Rightarrow> u16 \<Rightarrow> int \<Rightarrow> int \<Rightarrow> int \<Rightarrow> rx_event list \<Rightarrow> rx_event list \<Rightarrow>
     MQTTClient_Ctx_t \<Rightarrow> (MQTTClient_Ctx_t \<times> int \<times> bool) option" where
  "connect_attempt K clean keepAlive reg will sent e1 e2 c =
     (let c0 = c\<lparr>connectedState := False\<rparr> in
      if awaitedAck c0 \<noteq> MQTT_DISCONNECT K
      then Some (c0\<lparr>connAck := 0\<rparr>, MQTT_PACKET_ERR_NOTCONN K, False)
      else
        (let c1 = core (Core_registerCtxInfo (clientID c0) (usrName c0) (usrPwd c0)) c0 in
         if reg < 0 then Some (c1\<lparr>connAck := 0\<rparr>, reg, False)
         else Option.bind (connect_will K will c1) (\<lambda>(c2, w).
           if w < 0 then Some (c2\<lparr>connAck := 0\<rparr>, w, False)
           else
             Option.bind (deliver K e1 (core (Core_sendConnectMsg clean keepAlive)
                 (c2\<lparr>connAck := 0, awaitedAck := MQTT_CONNACK K\<rparr>))) (\<lambda>c3.
             if sent < 0
             then Some (SetCondAwaitedAckLocked (MQTT_CONNACK K) (MQTT_DISCONNECT K) c3, sent, True)
             else map_option (\<lambda>c4. (case connect_result K sent c4 of (c5, ret) \<Rightarrow> (c5, ret, True)))
                    (ack_wait K e2 c3)))))"

section \<open>The library\<close>

record MQTTClient_ConnectCfg_t =
  clean :: bool
  keepAliveTimeout :: u16

record MQTTClient_LibCfg_t =
  loopbackPort :: u16
  respTime :: u32

definition MQTTClient_clientCfg :: MQTTClient_LibCfg_t where
  "MQTTClient_clientCfg = \<lparr>loopbackPort = 0, respTime = 30\<rparr>"

text \<open>
  The globals. A semaphore is its count, a mutex whether it exists; \<open>None\<close> and \<open>False\<close> are null
  pointers.
\<close>

record mqtt_lib =
  ctxs :: "MQTTClient_Ctx_t list"
  clientContext :: "nat option"
  closeContext :: bool
  multiSrvConn :: bool
  connectCfg :: MQTTClient_ConnectCfg_t
  waitSecs :: u16
  waitForMqttClose :: "nat option"
  libLock :: bool
  syncRxTx :: "nat option"
  mutex :: bool

definition cur :: "mqtt_lib \<Rightarrow> MQTTClient_Ctx_t option" where
  "cur L = Option.bind (clientContext L) (rd (ctxs L))"

definition set_cur :: "MQTTClient_Ctx_t \<Rightarrow> mqtt_lib \<Rightarrow> mqtt_lib" where
  "set_cur c L = (case clientContext L of None \<Rightarrow> L | Some i \<Rightarrow> L\<lparr>ctxs := (ctxs L)[i := c]\<rparr>)"

text \<open>An operation on the context that \<open>MQTTClient_clientContext\<close> points to; it locks the mutex.\<close>

definition on_ctx ::
    "(MQTTClient_Ctx_t \<Rightarrow> (MQTTClient_Ctx_t \<times> int) option) \<Rightarrow> mqtt_lib \<Rightarrow> (mqtt_lib \<times> int) option" where
  "on_ctx f L =
     (if mutex L
      then Option.bind (cur L) (\<lambda>c. map_option (\<lambda>(c', r). (set_cur c' L, int16 r)) (f c))
      else None)"

definition MQTTClient_subscribe where
  "MQTTClient_subscribe K params sent e1 e2 = on_ctx (MqttClientSub K params sent e1 e2)"

definition MQTTClient_unsubscribe where
  "MQTTClient_unsubscribe K topics sent e1 e2 = on_ctx (MqttClientUnsub K topics sent e1 e2)"

definition MQTTClient_publish where
  "MQTTClient_publish K topic msg qosLevel retain sent e1 e2 =
     on_ctx (MqttClient_send K topic msg qosLevel retain sent e1 e2)"

definition MQTTClient_disconnect where
  "MQTTClient_disconnect K sent e1 e2 = on_ctx (MQTTClient_disconnect_ctx K sent e1 e2)"

text \<open>The whole routine: the mutex, the receive task that is unblocked, and the result as the \<open>int16_t\<close> that it returns.\<close>

definition MQTTClient_connect ::
    "mqtt_codes \<Rightarrow> int \<Rightarrow> int \<Rightarrow> int \<Rightarrow> rx_event list \<Rightarrow> rx_event list \<Rightarrow>
     mqtt_lib \<Rightarrow> (mqtt_lib \<times> int) option" where
  "MQTTClient_connect K reg will sent e1 e2 L =
     (if mutex L then
        Option.bind (cur L) (\<lambda>c.
        Option.bind (connect_attempt K (clean (connectCfg L)) (keepAliveTimeout (connectCfg L))
                       reg will sent e1 e2 c) (\<lambda>(c', r, unblock).
          if unblock \<and> \<not> multiSrvConn L
          then map_option (\<lambda>n. (set_cur c' (L\<lparr>syncRxTx := Some (Suc n)\<rparr>), int16 r)) (syncRxTx L)
          else Some (set_cur c' L, int16 r)))
      else None)"

text \<open>\<open>MQTTClient_set\<close>: the options with their values; any other option is ignored.\<close>

datatype mqtt_option =
    USER_NAME "string option"
  | PASSWORD "string option"
  | WILL_PARAM MQTTClient_Will
  | KEEPALIVE_TIME u16
  | CLEAN_CONNECT bool
  | OTHER_OPTION

fun MQTTClient_set :: "mqtt_option \<Rightarrow> mqtt_lib \<Rightarrow> (mqtt_lib \<times> int) option" where
  "MQTTClient_set (USER_NAME v) L = map_option (\<lambda>c. (set_cur (c\<lparr>usrName := v\<rparr>) L, 0)) (cur L)"
| "MQTTClient_set (PASSWORD v) L = map_option (\<lambda>c. (set_cur (c\<lparr>usrPwd := v\<rparr>) L, 0)) (cur L)"
| "MQTTClient_set (WILL_PARAM v) L = map_option (\<lambda>c. (set_cur (c\<lparr>mqttWill := v\<rparr>) L, 0)) (cur L)"
| "MQTTClient_set (KEEPALIVE_TIME v) L =
     Some (L\<lparr>connectCfg := (connectCfg L)\<lparr>keepAliveTimeout := v\<rparr>\<rparr>, 0)"
| "MQTTClient_set (CLEAN_CONNECT v) L = Some (L\<lparr>connectCfg := (connectCfg L)\<lparr>clean := v\<rparr>\<rparr>, 0)"
| "MQTTClient_set OTHER_OPTION L = Some (L, 0)"

definition MQTTClient_get :: "mqtt_lib \<Rightarrow> mqtt_lib \<times> int" where
  "MQTTClient_get L = (L, 0)"

subsection \<open>The receive task\<close>

text \<open>
  \<open>MQTTClient_run\<close>: one element of the list is the result of a turn of the core library and the
  value of \<open>MQTTClient_closeContext\<close> read after it. \<open>None\<close>: the task is still running when the list
  is exhausted.
\<close>

definition run_stops :: "mqtt_codes \<Rightarrow> int \<times> bool \<Rightarrow> bool" where
  "run_stops K t \<longleftrightarrow> (fst t < 0 \<and> fst t \<noteq> MQTT_PACKET_ERR_TIMEOUT K) \<or> snd t"

fun run_loop :: "mqtt_codes \<Rightarrow> (int \<times> bool) list \<Rightarrow> (int \<times> bool) list option" where
  "run_loop K [] = None"
| "run_loop K (t # ts) = (if run_stops K t then Some ts else run_loop K ts)"

definition sem_dec :: "nat option \<Rightarrow> nat option" where
  "sem_dec s = (case s of Some (Suc n) \<Rightarrow> Some n | _ \<Rightarrow> None)"

definition MQTTClient_run ::
    "mqtt_codes \<Rightarrow> (int \<times> bool) list \<Rightarrow> mqtt_lib \<Rightarrow> (mqtt_lib \<times> int) option" where
  "MQTTClient_run K turns L =
     Option.bind (sem_dec (waitForMqttClose L)) (\<lambda>n.
     Option.bind (if multiSrvConn L then Some (syncRxTx L) else map_option Some (sem_dec (syncRxTx L))) (\<lambda>s.
     Option.bind (run_loop K turns) (\<lambda>_.
       Some (L\<lparr>waitForMqttClose := Some (Suc n), syncRxTx := s\<rparr>, 0))))"

subsection \<open>Creation and deletion\<close>

text \<open>The flags and parameters of a connection.\<close>

record MQTTClient_Params =
  p_clientId :: "string option"
  p_mqttMode31 :: bool
  p_blockingSend :: bool
  p_netconnFlags :: u32
  p_cipher :: bool
  p_nFiles :: nat
  p_serverAddr :: string
  p_port :: u16

record netconn_opts =
  MQTT_DEV_NETCONN_OPT_TCP :: u32
  MQTT_DEV_NETCONN_OPT_UDP :: u32
  MQTT_DEV_NETCONN_OPT_SEC :: u32

text \<open>The network options passed to the core library; \<open>None\<close> for a combination that is refused.\<close>

definition ctx_nwconn :: "netconn_opts \<Rightarrow> MQTTClient_Params \<Rightarrow> (u32 \<times> bool) option" where
  "ctx_nwconn N p =
     (let f = p_netconnFlags p;
          sec = f AND MQTT_DEV_NETCONN_OPT_SEC N \<noteq> 0;
          udp = f AND MQTT_DEV_NETCONN_OPT_UDP N \<noteq> 0
      in if sec then
           (if udp then None
            else if p_cipher p \<and> p_nFiles p \<noteq> 0
            then Some (f OR MQTT_DEV_NETCONN_OPT_TCP N, True) else None)
         else Some (if udp then f else f OR MQTT_DEV_NETCONN_OPT_TCP N, False))"

fun getAvailableClictxMem :: "nat \<Rightarrow> MQTTClient_Ctx_t list \<Rightarrow> nat option" where
  "getAvailableClictxMem 0 cs = None"
| "getAvailableClictxMem (Suc n) [] = None"
| "getAvailableClictxMem (Suc n) (c # cs) =
     (if \<not> inUse c then Some 0 else map_option Suc (getAvailableClictxMem n cs))"

text \<open>\<open>memset (ctx, 0, sizeof ctx)\<close>; the two logs are not part of the structure.\<close>

definition ctx_zero :: "MQTTClient_Ctx_t \<Rightarrow> MQTTClient_Ctx_t" where
  "ctx_zero c =
     \<lparr>clientID = None, usrName = None, usrPwd = None,
      mqttWill = \<lparr>willTopic = None, willMsg = [], willQos = 0, will_retain = False\<rparr>,
      inUse = False, awaitedAck = 0, connAck = 0, ackSyncObj = None, subackQos = None,
      blockingSend = False, connectedState = False, app_log = app_log c, core_log = core_log c\<rparr>"

text \<open>
  The results of the system calls and library calls of a creation: whether an allocation
  succeeds, and what an initialisation returns.
\<close>

record create_env =
  ev_syncRxTx :: bool
  ev_syncRxTx_init :: int
  ev_libLock :: bool
  ev_libLock_init :: int
  ev_mutex :: bool
  ev_mutex_init :: int
  ev_initLib :: int
  ev_registerBuffers :: int
  ev_registerNetSvc :: int
  ev_waitClose :: bool
  ev_waitClose_init :: int
  ev_ackSync :: bool
  ev_ackSync_init :: int
  ev_createCtx :: int

definition MqttClientCtxCreate ::
    "mqtt_codes \<Rightarrow> netconn_opts \<Rightarrow> create_env \<Rightarrow> MQTTClient_Params \<Rightarrow> mqtt_lib \<Rightarrow> mqtt_lib \<times> int" where
  "MqttClientCtxCreate K N ev p L =
     (let maxStore = if multiSrvConn L then MQTTCLIENT_MAX_SIMULTANEOUS_SERVER_CONN else 1 in
      case getAvailableClictxMem maxStore (ctxs L) of
        None \<Rightarrow> (L, - 1)
      | Some i \<Rightarrow>
        (let put = (\<lambda>c. L\<lparr>ctxs := (ctxs L)[i := c]\<rparr>);
             c0 = (ctxs L ! i)\<lparr>inUse := True, ackSyncObj := None\<rparr>;
             c1 = c0\<lparr>ackSyncObj := Some 0\<rparr>;
             c2 = c1\<lparr>awaitedAck := MQTT_DISCONNECT K, blockingSend := p_blockingSend p\<rparr>
         in if \<not> ev_ackSync ev then (put c0, - 1)
            else if ev_ackSync_init ev \<noteq> 0 then (put (c1\<lparr>inUse := False\<rparr>), - 1)
            else case ctx_nwconn N p of
                   None \<Rightarrow> (put (c2\<lparr>ackSyncObj := None\<rparr>), - 1)
                 | Some _ \<Rightarrow>
                   (if ev_createCtx ev < 0
                    then (put (c2\<lparr>inUse := False, ackSyncObj := None\<rparr>), - 1)
                    else ((put c2)\<lparr>clientContext := Some i\<rparr>, 0))))"

definition MqttClientCtxDelete :: "int \<Rightarrow> mqtt_lib \<Rightarrow> (mqtt_lib \<times> int) option" where
  "MqttClientCtxDelete retval L =
     map_option (\<lambda>c.
       (if retval \<ge> 0 \<or> closeContext L then set_cur (ctx_zero c) L else L,
        if retval < 0 then - 1 else 0)) (cur L)"

definition MqttClientConfig :: "create_env \<Rightarrow> MQTTClient_LibCfg_t \<Rightarrow> mqtt_lib \<Rightarrow> mqtt_lib \<times> int" where
  "MqttClientConfig ev cfg L =
     (let multi = loopbackPort cfg \<noteq> 0;
          L1 = L\<lparr>multiSrvConn := multi\<rparr>;
          L2 = (if multi then L1
                else L1\<lparr>syncRxTx := (if ev_syncRxTx ev then Some 0 else None)\<rparr>);
          L3 = L2\<lparr>waitSecs := ucast (respTime cfg)\<rparr>;
          L4 = L3\<lparr>libLock := ev_libLock ev\<rparr>;
          L5 = L4\<lparr>mutex := ev_mutex ev\<rparr>
      in if \<not> multi \<and> (\<not> ev_syncRxTx ev \<or> ev_syncRxTx_init ev \<noteq> 0) then (L2, - 1)
         else if \<not> ev_libLock ev \<or> ev_libLock_init ev \<noteq> 0 then (L4, - 1)
         else if \<not> ev_mutex ev \<or> ev_mutex_init ev \<noteq> 0 then (L5, - 1)
         else if ev_initLib ev < 0 then (L5, - 1) else (L5, 0))"

text \<open>The handle is 1, or null.\<close>

definition MQTTClient_create ::
    "mqtt_codes \<Rightarrow> netconn_opts \<Rightarrow> create_env \<Rightarrow> MQTTClient_Params \<Rightarrow> mqtt_lib \<Rightarrow> mqtt_lib \<times> int option" where
  "MQTTClient_create K N ev p L0 =
     (let (L, r) = MqttClientConfig ev MQTTClient_clientCfg (L0\<lparr>closeContext := False\<rparr>) in
      if r \<noteq> 0 then (L, None) else
      let L1 = L\<lparr>ctxs := map ctx_zero (ctxs L)\<rparr> in
      if ev_registerBuffers ev \<noteq> 0 \<or> ev_registerNetSvc ev \<noteq> 0 then (L1, None) else
      if \<not> ev_waitClose ev then (L1\<lparr>waitForMqttClose := None\<rparr>, None) else
      let L2 = L1\<lparr>waitForMqttClose := Some 1\<rparr> in
      if ev_waitClose_init ev \<noteq> 0 then (L2, None) else
      case MqttClientCtxCreate K N ev p L2 of (L3, r) \<Rightarrow>
        if r \<noteq> 0 then (L3, None)
        else case cur L3 of None \<Rightarrow> (L3, None)
             | Some c \<Rightarrow> (set_cur (c\<lparr>clientID := p_clientId p\<rparr>) L3, Some 1))"

text \<open>
  Deletion. \<open>disc\<close> are the arguments of the disconnection, \<open>posts\<close> the number of posts of the close
  semaphore by the receive task while the routine waits.
\<close>

definition delete_wait :: "nat \<Rightarrow> mqtt_lib \<Rightarrow> mqtt_lib option" where
  "delete_wait posts L =
     (case waitForMqttClose L of
        None \<Rightarrow> Some L
      | Some n \<Rightarrow>
        Option.bind (syncRxTx L) (\<lambda>s.
        map_option (\<lambda>_. L\<lparr>syncRxTx := Some (Suc s), waitForMqttClose := None\<rparr>)
          (sem_dec (Some (n + posts)))))"

definition MQTTClient_delete ::
    "mqtt_codes \<Rightarrow> int option \<Rightarrow> int \<times> rx_event list \<times> rx_event list \<Rightarrow> int \<Rightarrow> nat \<Rightarrow> int \<Rightarrow>
     mqtt_lib \<Rightarrow> (mqtt_lib \<times> int) option" where
  "MQTTClient_delete K handle disc deleteCtx posts exitLib L =
     (if handle \<noteq> Some 1 then Some (L, - 1)
      else
        let L1 = L\<lparr>closeContext := True\<rparr>; (sent, e1, e2) = disc in
        Option.bind (cur L1) (\<lambda>c.
        Option.bind (if connectedState c then map_option fst (MQTTClient_disconnect K sent e1 e2 L1)
                     else Some L1) (\<lambda>L2.
        Option.bind (MqttClientCtxDelete deleteCtx L2) (\<lambda>(L3, _).
        if \<not> mutex L3 then None else
        Option.bind (delete_wait posts L3) (\<lambda>L4.
          Some (L4\<lparr>libLock := False, mutex := False, syncRxTx := None\<rparr>,
                if exitLib < 0 then - 1 else 0))))))"

end
