(* ===== verification/Topic_Match.thy ===== *)
theory Topic_Match
  imports Prelude
begin

text \<open>
  \<open>mqtt_user.c\<close>, \<open>MQTTHelperTopicMatching\<close>: the comparison of a topic filter with a topic. The strings are
  given without their final NUL; a pointer that was computed from a failed \<open>strchr\<close> is \<open>None\<close>, and
  so is the result when it is read.

  The reference works on the levels of the two strings, the parts between the slashes.
\<close>

section \<open>The code\<close>

definition string_end :: char where "string_end = CHR 0x00"

text \<open>
  \<open>strchr (s, '/') + 1\<close>, and \<open>memcmp\<close> of the first \<open>len\<close> bytes of two strings. The length is that of the filter's level and may
  exceed that of the topic; two strings that are not equal differ within both of them, at the latest at the NUL of the shorter, and
  \<open>memcmp_eq\<close> compares no further, as a routine that stops at the first difference. That the standard does not allow the length
  to go beyond the topic is not modelled.
\<close>

definition after_slash :: "string \<Rightarrow> string" where
  "after_slash s = tl (dropWhile (\<lambda>c. c \<noteq> CHR ''/'') s)"

definition seg_len :: "string \<Rightarrow> nat" where
  "seg_len s = length (takeWhile (\<lambda>c. c \<noteq> CHR ''/'') s) + 1"

definition memcmp_eq :: "string \<Rightarrow> string \<Rightarrow> nat \<Rightarrow> bool" where
  "memcmp_eq s p len \<longleftrightarrow> take len (s @ [string_end]) = take len (p @ [string_end])"

definition starts :: "char \<Rightarrow> string \<Rightarrow> bool" where
  "starts c s \<longleftrightarrow> s \<noteq> [] \<and> hd s = c"

lemma after_slash_shorter: "CHR ''/'' \<in> set s \<Longrightarrow> length (after_slash s) < length s"
proof -
  assume "CHR ''/'' \<in> set s"
  then have "dropWhile (\<lambda>c. c \<noteq> CHR ''/'') s \<noteq> []" by (simp add: dropWhile_eq_Nil_conv)
  moreover have "length (dropWhile (\<lambda>c. c \<noteq> CHR ''/'') s) \<le> length s" by (rule length_dropWhile_le)
  ultimately show ?thesis by (cases "dropWhile (\<lambda>c. c \<noteq> CHR ''/'') s") (simp_all add: after_slash_def)
qed

function MQTTHelperTopicMatching :: "string \<Rightarrow> string option \<Rightarrow> int option" where
  "MQTTHelperTopicMatching s p =
     (if starts (CHR ''#'') s then Some 1
      else case p of None \<Rightarrow> None
      | Some t \<Rightarrow>
        (let s_next = CHR ''/'' \<in> set s; p_next = CHR ''/'' \<in> set t in
         if \<not> starts (CHR ''+'') s \<and> \<not> memcmp_eq s t (seg_len s) then Some 0
         else if s_next
         then MQTTHelperTopicMatching (after_slash s) (if p_next then Some (after_slash t) else None)
         else Some (if p_next then 0 else 1)))"
  by pat_completeness auto
termination
  by (relation "measure (\<lambda>(s, _). length s)") (auto simp: after_slash_shorter)

declare MQTTHelperTopicMatching.simps [simp del]

section \<open>The reference\<close>

fun levels :: "string \<Rightarrow> string list" where
  "levels [] = [[]]"
| "levels (c # s) =
     (if c = CHR ''/'' then [] # levels s
      else (c # hd (levels s)) # tl (levels s))"

fun level_match :: "string list \<Rightarrow> string list \<Rightarrow> bool option" where
  "level_match [] ts = Some (ts = [])"
| "level_match (f # fs) [] = (if starts (CHR ''#'') f then Some True else None)"
| "level_match (f # fs) (t # ts) =
     (if starts (CHR ''#'') f then Some True
      else if starts (CHR ''+'') f then (if fs = [] then Some (ts = []) else level_match fs ts)
      else if f = t \<and> (fs = [] \<longleftrightarrow> ts = []) then (if fs = [] then Some True else level_match fs ts)
      else Some False)"

lemma levels_nonempty [simp]: "levels s \<noteq> []" "[] \<noteq> levels s"
  by (cases s; auto)+

lemma levels_hd: "hd (levels s) = takeWhile (\<lambda>c. c \<noteq> CHR ''/'') s"
  by (induction s) auto

lemma levels_tl: "tl (levels s) = (if CHR ''/'' \<in> set s then levels (after_slash s) else [])"
  by (induction s) (auto simp: after_slash_def)

lemma levels_unfold:
  "levels s = takeWhile (\<lambda>c. c \<noteq> CHR ''/'') s # (if CHR ''/'' \<in> set s then levels (after_slash s) else [])"
  by (metis levels_hd levels_nonempty(1) levels_tl list.collapse)

lemma starts_level: "c \<noteq> CHR ''/'' \<Longrightarrow> starts c (takeWhile (\<lambda>c. c \<noteq> CHR ''/'') s) = starts c s"
  by (cases s) (auto simp: starts_def)

text \<open>A string without NUL: the comparison stops within the shorter one.\<close>

definition c_string :: "string \<Rightarrow> bool" where
  "c_string s \<longleftrightarrow> string_end \<notin> set s"

lemma string_end_slash [simp]: "string_end \<noteq> CHR ''/''"
  by (simp add: string_end_def)

lemma take_seg:
  "take (seg_len s) (s @ [string_end]) =
     takeWhile (\<lambda>c. c \<noteq> CHR ''/'') s @ [if CHR ''/'' \<in> set s then CHR ''/'' else string_end]"
  by (induction s) (auto simp: seg_len_def)

lemma memcmp_level:
  assumes "c_string s" "c_string t"
  shows "memcmp_eq s t (seg_len s) \<longleftrightarrow>
    takeWhile (\<lambda>c. c \<noteq> CHR ''/'') s = takeWhile (\<lambda>c. c \<noteq> CHR ''/'') t
    \<and> (CHR ''/'' \<in> set s \<longleftrightarrow> CHR ''/'' \<in> set t)"
  using assms
proof (induction s arbitrary: t)
  case Nil
  then show ?case
    by (cases t) (auto simp: memcmp_eq_def seg_len_def c_string_def)
next
  case (Cons c s)
  show ?case
  proof (cases t)
    case Nil
    then show ?thesis using Cons.prems by (auto simp: memcmp_eq_def seg_len_def c_string_def)
  next
    case t: (Cons d u)
    have "c_string s" "c_string u" using Cons.prems t by (auto simp: c_string_def)
    note IH = Cons.IH [OF this]
    show ?thesis
    proof (cases "c = CHR ''/''")
      case True
      then show ?thesis using t by (auto simp: memcmp_eq_def seg_len_def)
    next
      case False
      then have "seg_len (c # s) = Suc (seg_len s)" by (simp add: seg_len_def)
      then have "memcmp_eq (c # s) (d # u) (seg_len (c # s)) \<longleftrightarrow> c = d \<and> memcmp_eq s u (seg_len s)"
        by (simp add: memcmp_eq_def)
      then show ?thesis using IH t False by auto
    qed
  qed
qed

lemma c_string_after: "c_string s \<Longrightarrow> c_string (after_slash s)"
  unfolding c_string_def after_slash_def
  by (metis dropWhile_eq_Nil_conv list.sel(2) list.set_sel(2) set_dropWhileD)

text \<open>The matching routine, level by level.\<close>

lemma topic_levels:
  assumes "c_string s" "c_string t"
  shows "MQTTHelperTopicMatching s (Some t) = map_option of_bool (level_match (levels s) (levels t))"
  using assms
proof (induction "length s" arbitrary: s t rule: less_induct)
  case less
  let ?f = "takeWhile (\<lambda>c. c \<noteq> CHR ''/'') s"
  let ?l = "takeWhile (\<lambda>c. c \<noteq> CHR ''/'') t"
  let ?sn = "CHR ''/'' \<in> set s"
  let ?tn = "CHR ''/'' \<in> set t"
  have hash: "starts (CHR ''#'') ?f = starts (CHR ''#'') s" "starts (CHR ''+'') ?f = starts (CHR ''+'') s"
    by (simp_all add: starts_level)
  have mem: "memcmp_eq s t (seg_len s) \<longleftrightarrow> ?f = ?l \<and> (?sn \<longleftrightarrow> ?tn)"
    by (rule memcmp_level [OF less.prems])
  have rec: "MQTTHelperTopicMatching (after_slash s) (if ?tn then Some (after_slash t) else None) =
      map_option of_bool (level_match (levels (after_slash s)) (if ?tn then levels (after_slash t) else []))"
    if "?sn"
  proof (cases ?tn)
    case True
    then show ?thesis
      using less.hyps [OF after_slash_shorter [OF that]] less.prems c_string_after by simp
  next
    case False
    have "levels (after_slash s) = takeWhile (\<lambda>c. c \<noteq> CHR ''/'') (after_slash s) #
        (if CHR ''/'' \<in> set (after_slash s) then levels (after_slash (after_slash s)) else [])"
      by (rule levels_unfold)
    then show ?thesis
      using False by (simp add: MQTTHelperTopicMatching.simps [of _ None] starts_level)
  qed
  have ls: "levels s = ?f # (if ?sn then levels (after_slash s) else [])" by (rule levels_unfold)
  have lt: "levels t = ?l # (if ?tn then levels (after_slash t) else [])" by (rule levels_unfold)
  obtain f where f: "?f = f" by simp
  obtain l where l: "?l = l" by simp
  note facts = rec mem [unfolded f l] ls [unfolded f] lt [unfolded l] hash [unfolded f]
  have "MQTTHelperTopicMatching s (Some t) =
      map_option of_bool (level_match (f # (if ?sn then levels (after_slash s) else []))
        (l # (if ?tn then levels (after_slash t) else [])))"
    using facts(1,2,5,6)
    by (cases "starts (CHR ''#'') s"; cases "starts (CHR ''+'') s"; cases "f = l"; cases ?sn; cases ?tn)
      (simp_all add: MQTTHelperTopicMatching.simps [of s])
  then show ?case by (simp only: facts(3,4))
qed

text \<open>
  (C22) The matching routine computes the level-wise reference; it reads through an invalid pointer exactly
  when the reference is undefined, which is when a filter goes on after a single-level wildcard that
  has matched the last level of the topic.
\<close>

theorem topic_matching_levels:
  assumes "c_string s" "c_string t"
  shows "MQTTHelperTopicMatching s (Some t) = map_option of_bool (level_match (levels s) (levels t))"
  by (rule topic_levels [OF assms])

text \<open>The topic filter of the firmware has no wildcard: it matches itself only.\<close>

lemma level_match_exact:
  "fs \<noteq> [] \<Longrightarrow> ts \<noteq> [] \<Longrightarrow> \<forall>f\<in>set fs. \<not> starts (CHR ''#'') f \<and> \<not> starts (CHR ''+'') f \<Longrightarrow>
   level_match fs ts = Some (fs = ts)"
proof (induction fs ts rule: level_match.induct)
  case (3 f fs t ts)
  then show ?case by (cases "fs = []"; cases "ts = []") auto
qed auto

lemma levels_inj: "levels s = levels t \<Longrightarrow> s = t"
proof (induction s arbitrary: t)
  case Nil
  then show ?case by (cases t) (auto split: if_splits)
next
  case (Cons c s)
  then show ?case
    by (cases t) (auto split: if_splits simp: list.expand)
qed

lemma levels_set: "f \<in> set (levels s) \<Longrightarrow> set f \<subseteq> set s"
proof (induction s arbitrary: f)
  case (Cons c s)
  obtain h t where s: "levels s = h # t" by (cases "levels s") auto
  show ?case
  proof (cases "c = CHR ''/''")
    case True
    then show ?thesis using Cons by auto
  next
    case False
    then have "f = c # h \<or> f \<in> set (levels s)" using Cons.prems s by auto
    moreover have "set h \<subseteq> set s" using Cons.IH [of h] s by simp
    ultimately show ?thesis using Cons.IH by auto
  qed
qed simp

text \<open>
  A filter without wildcard characters matches exactly the equal topic, and the routine is then defined
  on every topic.
\<close>

theorem exact_filter_matching:
  assumes "c_string s" "c_string t" "CHR ''#'' \<notin> set s" "CHR ''+'' \<notin> set s"
  shows "MQTTHelperTopicMatching s (Some t) = Some (of_bool (s = t))"
proof -
  have "\<forall>f\<in>set (levels s). \<not> starts (CHR ''#'') f \<and> \<not> starts (CHR ''+'') f"
    using assms(3,4) levels_set [of _ s] by (fastforce simp: starts_def dest: list.set_sel(1))
  then have "level_match (levels s) (levels t) = Some (levels s = levels t)"
    by (intro level_match_exact) simp_all
  then show ?thesis
    using topic_levels [OF assms(1,2)] levels_inj [of s t] by auto
qed

lemma topic_matching_levels_witness:
  "MQTTHelperTopicMatching ''+/b'' (Some ''a'') = None
   \<and> MQTTHelperTopicMatching ''+/b'' (Some ''a/b'') = Some 1"
proof -
  have "level_match (levels ''+/b'') (levels ''a'') = None"
    "level_match (levels ''+/b'') (levels ''a/b'') = Some True"
    by (simp_all add: starts_def)
  then show ?thesis
    using topic_matching_levels [of "''+/b''" "''a''"] topic_matching_levels [of "''+/b''" "''a/b''"]
    by (simp add: c_string_def string_end_def)
qed

lemma exact_filter_matching_witness:
  "MQTTHelperTopicMatching ''CC32xx/cmd/s2d/0'' (Some ''CC32xx/cmd/s2d/1'') = Some 0"
  using exact_filter_matching [of "''CC32xx/cmd/s2d/0''" "''CC32xx/cmd/s2d/1''"]
  by (simp add: c_string_def string_end_def)

end
