(* ===== verification/Mqtt_If.thy ===== *)
theory Mqtt_If
  imports Mqtt_Client Topic_Match "HOL-Library.Monad_Syntax"
begin

text \<open>
  \<open>mqtt_user.c\<close>, the module \<open>MQTT_IF\<close>: its context, its two threads and its operations. The subscribed
  topics are a linked list in the heap, whose nodes are a map from addresses. The results of the
  client library (\<open>mqttclient.c\<close>, theory \<open>Mqtt_Client\<close>), of the allocator and of the operating system are
  arguments.

  \<open>None\<close> is undefined behaviour or a routine that never returns: a node read after it was freed, a mutex
  that does not exist, is locked twice by one thread or is unlocked without being locked, an
  event field that was never set, or a full message queue that nobody empties.
\<close>

section \<open>The context\<close>

datatype mqtt_event =
    MQTT_EVENT_CONNACK
  | MQTT_EVENT_SUBACK
  | MQTT_EVENT_PUBACK
  | MQTT_EVENT_UNSUBACK
  | MQTT_EVENT_SERVER_DISCONNECT
  | MQTT_EVENT_CLIENT_DISCONNECT
  | MQTT_EVENT_DESTROY
  | MQTT_EVENT_RECV

datatype mqtt_state = MQTT_STATE_IDLE | MQTT_STATE_INITIALIZED | MQTT_STATE_CONNECTED

record Node =
  n_topic :: string
  n_qos :: nat
  topicCB :: nat
  n_next :: "nat option"

record msgQueue_elem =
  q_event :: mqtt_event
  q_topic :: string
  q_payload :: "u8 list"
  q_qos :: u8

text \<open>
  The calls of the callbacks of the application: the topic callback of a node, and the event callback.
  The last two fields of the context record these calls and those of \<open>MQTTClient_publish\<close>.
\<close>

datatype cb_call = TopicCB nat string "u8 list" u8 | EventCB mqtt_event

record mqttContext =
  msgQueue :: "msgQueue_elem list"
  moduleMutex :: bool
  locked :: bool
  mqttClient :: "int option"
  eventCB :: bool
  nodes :: "nat \<rightharpoonup> Node"
  head :: "nat option"
  moduleState :: mqtt_state
  clientDisconnectFlag :: bool
  cb_calls :: "cb_call list"
  pub_calls :: "(string \<times> u8 list) list"

definition mMQTTContext_init :: mqttContext where
  "mMQTTContext_init =
     \<lparr>msgQueue = [], moduleMutex = False, locked = False, mqttClient = None, eventCB = False,
      nodes = Map.empty, head = None, moduleState = MQTT_STATE_IDLE, clientDisconnectFlag = False,
      cb_calls = [], pub_calls = []\<rparr>"

section \<open>Primitives\<close>

definition lock :: "mqttContext \<Rightarrow> mqttContext option" where
  "lock s = (if moduleMutex s \<and> \<not> locked s then Some (s\<lparr>locked := True\<rparr>) else None)"

definition unlock :: "mqttContext \<Rightarrow> mqttContext option" where
  "unlock s = (if moduleMutex s \<and> locked s then Some (s\<lparr>locked := False\<rparr>) else None)"

definition MQ_MAXMSG :: nat where "MQ_MAXMSG = 10"

definition mq_send :: "msgQueue_elem \<Rightarrow> mqttContext \<Rightarrow> mqttContext option" where
  "mq_send e s = (if length (msgQueue s) < MQ_MAXMSG then Some (s\<lparr>msgQueue := msgQueue s @ [e]\<rparr>) else None)"

definition call_event :: "mqtt_event \<Rightarrow> mqttContext \<Rightarrow> mqttContext option" where
  "call_event e s = (if eventCB s then Some (s\<lparr>cb_calls := cb_calls s @ [EventCB e]\<rparr>) else None)"

definition event_elem :: "mqtt_event \<Rightarrow> msgQueue_elem" where
  "event_elem e = \<lparr>q_event = e, q_topic = [], q_payload = [], q_qos = 0\<rparr>"

text \<open>\<open>p->next = q\<close> and \<open>free (p)\<close>.\<close>

definition set_next :: "nat \<Rightarrow> nat option \<Rightarrow> mqttContext \<Rightarrow> mqttContext option" where
  "set_next p q s = map_option (\<lambda>n. s\<lparr>nodes := (nodes s)(p \<mapsto> n\<lparr>n_next := q\<rparr>)\<rparr>) (nodes s p)"

definition free_node :: "nat \<Rightarrow> mqttContext \<Rightarrow> mqttContext option" where
  "free_node p s = map_option (\<lambda>_. s\<lparr>nodes := (nodes s)(p := None)\<rparr>) (nodes s p)"

section \<open>Callback of the client library\<close>

record op_codes =
  MQTTCLIENT_OPERATION_CONNACK :: u8
  MQTTCLIENT_OPERATION_EVT_PUBACK :: u8
  MQTTCLIENT_OPERATION_SUBACK :: u8
  MQTTCLIENT_OPERATION_UNSUBACK :: u8

definition operation_event :: "op_codes \<Rightarrow> u8 \<Rightarrow> mqtt_event option" where
  "operation_event P t =
     (if t = MQTTCLIENT_OPERATION_CONNACK P then Some MQTT_EVENT_CONNACK
      else if t = MQTTCLIENT_OPERATION_EVT_PUBACK P then Some MQTT_EVENT_PUBACK
      else if t = MQTTCLIENT_OPERATION_SUBACK P then Some MQTT_EVENT_SUBACK
      else if t = MQTTCLIENT_OPERATION_UNSUBACK P then Some MQTT_EVENT_UNSUBACK
      else None)"

text \<open>The payload is copied with a NUL appended.\<close>

fun MQTTClientCallback :: "op_codes \<Rightarrow> app_event \<Rightarrow> mqttContext \<Rightarrow> mqttContext option" where
  "MQTTClientCallback P (OPERATION_CB_EVENT t data) s =
     do { e \<leftarrow> operation_event P t; mq_send (event_elem e) s }"
| "MQTTClientCallback P (RECV_CB_EVENT m data) s =
     mq_send \<lparr>q_event = MQTT_EVENT_RECV, q_topic = md_topic m, q_payload = data @ [0], q_qos = md_qos m\<rparr> s"
| "MQTTClientCallback P DISCONNECT_CB_EVENT s = mq_send (event_elem MQTT_EVENT_SERVER_DISCONNECT) s"

section \<open>The application thread\<close>

text \<open>The search for the node whose filter matches a received topic.\<close>

partial_function (option) app_search ::
    "msgQueue_elem \<Rightarrow> nat \<Rightarrow> mqttContext \<Rightarrow> mqttContext option" where
  "app_search q tmp s =
     do { n \<leftarrow> nodes s tmp;
          r \<leftarrow> MQTTHelperTopicMatching (n_topic n) (Some (q_topic q));
          if r = 1
          then Some (s\<lparr>cb_calls := cb_calls s @ [TopicCB (topicCB n) (q_topic q) (q_payload q) (q_qos q)]\<rparr>)
          else case n_next n of None \<Rightarrow> Some s | Some t \<Rightarrow> app_search q t s }"

text \<open>
  The renewal of the subscriptions after a CONNACK; \<open>rets\<close> are the results of the subscriptions. \<open>prev\<close> is
  \<open>None\<close> while the variable is not set.
\<close>

definition resub_remove ::
    "nat \<Rightarrow> Node \<Rightarrow> nat option \<Rightarrow> mqttContext \<Rightarrow> (mqttContext \<times> nat option) option" where
  "resub_remove node n prev s =
     (if head s = Some node then Some (s\<lparr>head := n_next n\<rparr>, n_next n)
      else do { p \<leftarrow> prev;
                s' \<leftarrow> set_next p (n_next n) s;
                case n_next n of
                  Some x \<Rightarrow> do { nx \<leftarrow> nodes s' x; Some (s', n_next nx) }
                | None \<Rightarrow> Some (s', None) })"

fun resubscribe :: "int list \<Rightarrow> nat option \<Rightarrow> nat option \<Rightarrow> mqttContext \<Rightarrow> mqttContext option" where
  "resubscribe rets None prev s = Some s"
| "resubscribe [] (Some node) prev s = None"
| "resubscribe (ret # rets) (Some node) prev s =
     do { n \<leftarrow> nodes s node;
          if ret < 0
          then do { (s1, node') \<leftarrow> resub_remove node n prev s;
                    s2 \<leftarrow> free_node node s1;
                    resubscribe rets node' prev s2 }
          else resubscribe rets (n_next n) (Some node) s }"

text \<open>The handling of one message. The flag says whether the thread exits.\<close>

definition app_handle :: "int list \<Rightarrow> msgQueue_elem \<Rightarrow> mqttContext \<Rightarrow> (mqttContext \<times> bool) option" where
  "app_handle rets q s =
     (case q_event q of
        MQTT_EVENT_RECV \<Rightarrow>
          do { s1 \<leftarrow> lock s;
               s2 \<leftarrow> (case head s1 of None \<Rightarrow> Some s1 | Some a \<Rightarrow> app_search q a s1);
               s3 \<leftarrow> unlock s2;
               Some (s3, False) }
      | MQTT_EVENT_DESTROY \<Rightarrow>
          do { s1 \<leftarrow> call_event MQTT_EVENT_DESTROY s; Some (s1, True) }
      | MQTT_EVENT_SERVER_DISCONNECT \<Rightarrow>
          do { s1 \<leftarrow> lock s;
               s2 \<leftarrow> unlock (s1\<lparr>clientDisconnectFlag := False\<rparr>);
               s3 \<leftarrow> call_event (if clientDisconnectFlag s1 then MQTT_EVENT_CLIENT_DISCONNECT
                                 else MQTT_EVENT_SERVER_DISCONNECT) s2;
               Some (s3, False) }
      | MQTT_EVENT_CONNACK \<Rightarrow>
          do { s1 \<leftarrow> lock s;
               s2 \<leftarrow> resubscribe rets (head s1) None s1;
               s3 \<leftarrow> unlock s2;
               s4 \<leftarrow> call_event MQTT_EVENT_CONNACK s3;
               Some (s4, False) }
      | e \<Rightarrow> do { s1 \<leftarrow> call_event e s; Some (s1, False) })"

text \<open>One turn of \<open>MQTTAppThread\<close>; with an empty queue the thread waits.\<close>

definition MQTTAppThread :: "int list \<Rightarrow> mqttContext \<Rightarrow> (mqttContext \<times> bool) option" where
  "MQTTAppThread rets s =
     (case msgQueue s of
        [] \<Rightarrow> Some (s, False)
      | q # qs \<Rightarrow> app_handle rets q (s\<lparr>msgQueue := qs\<rparr>))"

text \<open>The end of \<open>MQTTContextThread\<close>, when \<open>MQTTClient_run\<close> has returned.\<close>

definition MQTTContextThread_end :: "mqttContext \<Rightarrow> mqttContext option" where
  "MQTTContextThread_end s =
     do { s1 \<leftarrow> lock s; unlock (s1\<lparr>moduleState := MQTT_STATE_INITIALIZED\<rparr>) }"

section \<open>The operations\<close>

type_synonym if_result = "(mqttContext \<times> int) option"

text \<open>
  Initialisation: whether the mutex is allocated and what its initialisation returns, the queue
  descriptor, and the result of the thread creation. Without a mutex the routine loops for ever.
\<close>

definition MQTT_IF_Init :: "bool \<Rightarrow> int \<Rightarrow> int \<Rightarrow> int \<Rightarrow> mqttContext \<Rightarrow> if_result" where
  "MQTT_IF_Init malloc_ok mutex_ret mq thread_ret s =
     (if moduleState s \<noteq> MQTT_STATE_IDLE then Some (s, - 1)
      else if \<not> malloc_ok \<or> mutex_ret \<noteq> 0 then None
      else do { s1 \<leftarrow> lock (s\<lparr>moduleMutex := True, locked := False\<rparr>);
                if mq \<le> 0 then do { s2 \<leftarrow> unlock s1; Some (s2, mq) }
                else do { s2 \<leftarrow> unlock (if thread_ret = 0 then s1\<lparr>moduleState := MQTT_STATE_INITIALIZED\<rparr> else s1);
                          Some (s2, thread_ret) } })"

partial_function (option) free_topics :: "mqttContext \<Rightarrow> mqttContext option" where
  "free_topics s =
     (case head s of
        None \<Rightarrow> Some s
      | Some a \<Rightarrow> do { n \<leftarrow> nodes s a; s' \<leftarrow> free_node a (s\<lparr>head := n_next n\<rparr>); free_topics s' })"

definition MQTT_IF_Deinit :: "bool \<Rightarrow> mqttContext \<Rightarrow> if_result" where
  "MQTT_IF_Deinit send_ok s =
     do { s1 \<leftarrow> lock s;
          if moduleState s1 \<noteq> MQTT_STATE_INITIALIZED then do { s2 \<leftarrow> unlock s1; Some (s2, - 1) }
          else if \<not> send_ok then do { s2 \<leftarrow> unlock s1; Some (s2, - 1) }
          else do { s2 \<leftarrow> mq_send (event_elem MQTT_EVENT_DESTROY) s1;
                    s3 \<leftarrow> free_topics s2;
                    s4 \<leftarrow> unlock (s3\<lparr>moduleState := MQTT_STATE_IDLE\<rparr>);
                    Some (s4, 0) } }"

record MQTT_IF_ClientParams_t =
  cp_clientID :: "string option"
  cp_username :: "string option"
  cp_password :: "string option"
  cp_keepaliveTime :: u16
  cp_cleanConnect :: bool
  cp_mqttMode31 :: bool
  cp_blockingSend :: bool
  cp_willParams :: "MQTTClient_Will option"

text \<open>The calls of \<open>MQTTClient_set\<close> before a connection.\<close>

definition connect_options :: "MQTT_IF_ClientParams_t \<Rightarrow> mqtt_option list" where
  "connect_options p =
     (case cp_willParams p of None \<Rightarrow> [] | Some w \<Rightarrow> [WILL_PARAM w])
     @ (if cp_username p \<noteq> None then [USER_NAME (cp_username p)] else [])
     @ (if cp_password p \<noteq> None then [PASSWORD (cp_password p)] else [])
     @ (if \<not> cp_cleanConnect p then [CLEAN_CONNECT (cp_cleanConnect p)] else [])
     @ (if cp_keepaliveTime p > 0 then [KEEPALIVE_TIME (cp_keepaliveTime p)] else [])"

text \<open>Connection: the handle of the created client, the results of the thread creation and of \<open>MQTTClient_connect\<close>.\<close>

definition MQTT_IF_Connect :: "int option \<Rightarrow> int \<Rightarrow> int \<Rightarrow> mqttContext \<Rightarrow> if_result" where
  "MQTT_IF_Connect created thread_ret connect_ret s =
     do { s1 \<leftarrow> lock s;
          if moduleState s1 \<noteq> MQTT_STATE_INITIALIZED then do { s2 \<leftarrow> unlock s1; Some (s2, - 1) }
          else let s2 = s1\<lparr>eventCB := True, mqttClient := created\<rparr> in
          case created of
            None \<Rightarrow> do { s3 \<leftarrow> unlock s2; Some (s3, - 1) }
          | Some h \<Rightarrow>
            if thread_ret \<noteq> 0 then do { s3 \<leftarrow> unlock s2; Some (s3, - 1) }
            else if connect_ret < 0 then do { s3 \<leftarrow> unlock s2; Some (s3, connect_ret) }
            else do { s3 \<leftarrow> unlock (s2\<lparr>moduleState := MQTT_STATE_CONNECTED\<rparr>); Some (s3, h) } }"

definition MQTT_IF_Disconnect :: "int \<Rightarrow> mqttContext \<Rightarrow> if_result" where
  "MQTT_IF_Disconnect disconnect_ret s =
     do { s1 \<leftarrow> lock s;
          if moduleState s1 \<noteq> MQTT_STATE_CONNECTED then do { s2 \<leftarrow> unlock s1; Some (s2, - 1) }
          else let s2 = s1\<lparr>clientDisconnectFlag := True\<rparr> in
          do { s3 \<leftarrow> unlock (if disconnect_ret < 0 then s2 else s2\<lparr>moduleState := MQTT_STATE_INITIALIZED\<rparr>);
               Some (s3, disconnect_ret) } }"

text \<open>Subscription: the address of the new node, whether its topic string is allocated, the result of the client.\<close>

definition MQTT_IF_Subscribe ::
    "nat option \<Rightarrow> bool \<Rightarrow> int \<Rightarrow> string \<Rightarrow> nat \<Rightarrow> nat \<Rightarrow> mqttContext \<Rightarrow> if_result" where
  "MQTT_IF_Subscribe node_addr topic_ok sub_ret topic qos cb s =
     do { s1 \<leftarrow> lock s;
          if moduleState s1 = MQTT_STATE_IDLE then do { s2 \<leftarrow> unlock s1; Some (s2, - 1) }
          else case node_addr of
            None \<Rightarrow> do { s2 \<leftarrow> unlock s1; Some (s2, - 1) }
          | Some a \<Rightarrow>
            if \<not> topic_ok then do { s2 \<leftarrow> unlock s1; Some (s2, - 1) }
            else let s2 = s1\<lparr>nodes := (nodes s1)(a \<mapsto> \<lparr>n_topic = topic, n_qos = qos, topicCB = cb, n_next = head s1\<rparr>),
                             head := Some a\<rparr> in
              if moduleState s2 = MQTT_STATE_CONNECTED \<and> sub_ret < 0
              then do { s3 \<leftarrow> free_node a s2; s4 \<leftarrow> unlock s3; Some (s4, sub_ret) }
              else do { s3 \<leftarrow> unlock s2;
                        Some (s3, if moduleState s2 = MQTT_STATE_CONNECTED then sub_ret else 0) } }"

text \<open>The loop that looks for the node to remove; \<open>None\<close> in the second component: no node matches.\<close>

partial_function (option) unsub_loop ::
    "string \<Rightarrow> nat option \<Rightarrow> nat option \<Rightarrow> mqttContext \<Rightarrow> (mqttContext \<times> int option) option" where
  "unsub_loop topic node prev s =
     (case node of
        None \<Rightarrow> Some (s, None)
      | Some c \<Rightarrow>
        do { n \<leftarrow> nodes s c;
             r \<leftarrow> MQTTHelperTopicMatching (n_topic n) (Some topic);
             if r = 1
             then do { s1 \<leftarrow> (if head s = Some c then Some (s\<lparr>head := n_next n\<rparr>)
                              else do { p \<leftarrow> prev; set_next p (n_next n) s });
                       s2 \<leftarrow> free_node c s1;
                       Some (s2, Some r) }
             else unsub_loop topic (n_next n) (Some c) s })"

definition MQTT_IF_Unsubscribe :: "int \<Rightarrow> string \<Rightarrow> mqttContext \<Rightarrow> if_result" where
  "MQTT_IF_Unsubscribe unsub_ret topic s =
     do { s1 \<leftarrow> lock s;
          if moduleState s1 \<noteq> MQTT_STATE_CONNECTED then do { s2 \<leftarrow> unlock s1; Some (s2, - 1) }
          else if unsub_ret < 0 then do { s2 \<leftarrow> unlock s1; Some (s2, unsub_ret) }
          else do { (s2, found) \<leftarrow> unsub_loop topic (head s1) None s1;
                    case found of
                      Some r \<Rightarrow> do { s3 \<leftarrow> unlock s2; Some (s3, r) }
                    | None \<Rightarrow> do { s3 \<leftarrow> unlock s2; s4 \<leftarrow> unlock s3; Some (s4, - 1) } } }"

text \<open>Publication; the client is called without the lock.\<close>

definition MQTT_IF_Publish :: "int \<Rightarrow> string \<Rightarrow> u8 list \<Rightarrow> mqttContext \<Rightarrow> if_result" where
  "MQTT_IF_Publish publish_ret topic payload s =
     do { s1 \<leftarrow> lock s;
          if moduleState s1 \<noteq> MQTT_STATE_CONNECTED then do { s2 \<leftarrow> unlock s1; Some (s2, - 1) }
          else do { s2 \<leftarrow> unlock s1;
                    Some (s2\<lparr>pub_calls := pub_calls s2 @ [(topic, payload)]\<rparr>, publish_ret) } }"

end
