(* ===== verification/Mqtt_App.thy ===== *)
theory Mqtt_App
  imports Mqtt_If Msg_Structs Print_User
begin

text \<open>
  \<open>mqtt_user.c\<close>, the application part: the topics and messages it publishes, the command handler, the identification
  of the device, the data thread and the wrappers of the module \<open>MQTT_IF\<close>.

  The globals are arguments and results: the device number (\<open>id_device\<close>), the MAC address, the connection flag.
  The characters of an array on the stack are checked against its declared size plus \<open>slack\<close>, the number of bytes
  behind it that happen to be unused; the C standard grants none.
\<close>

section \<open>Strings in arrays\<close>

text \<open>\<open>strcpy\<close> and \<open>strcat\<close> into an array of \<open>size\<close> characters; a string is given without its final NUL.\<close>

definition strcpy_into :: "nat \<Rightarrow> string \<Rightarrow> string option" where
  "strcpy_into cap src = (if length src + 1 \<le> cap then Some src else None)"

definition strcat_into :: "nat \<Rightarrow> string \<Rightarrow> string \<Rightarrow> string option" where
  "strcat_into cap src dst = strcpy_into cap (dst @ src)"

definition TOPIC_PUB_CMD :: string where "TOPIC_PUB_CMD = ''CC32xx/cmd/d2s/''"
definition TOPIC_PUB_DATA :: string where "TOPIC_PUB_DATA = ''CC32xx/data/''"
definition DEFAULT_ID_DEVICE :: string where "DEFAULT_ID_DEVICE = ''255''"
definition topic_1 :: string where "topic_1 = ''CC32xx/cmd/s2d/0''"

definition sizeof_id_device :: nat where "sizeof_id_device = 2"

definition TYPE_CMD_DEFAULT_ID :: u16 where "TYPE_CMD_DEFAULT_ID = 0"
definition TYPE_DATA_DEFAULT_ID :: u16 where "TYPE_DATA_DEFAULT_ID = 1"
definition TYPE_CMD :: u16 where "TYPE_CMD = 2"
definition TYPE_DATA :: u16 where "TYPE_DATA = 3"

lemmas topic_defs = TOPIC_PUB_CMD_def TOPIC_PUB_DATA_def DEFAULT_ID_DEVICE_def sizeof_id_device_def
lemmas type_defs = TYPE_CMD_DEFAULT_ID_def TYPE_DATA_DEFAULT_ID_def TYPE_CMD_def TYPE_DATA_def

section \<open>Publication\<close>

text \<open>A topic built from a prefix and a number in an array of \<open>sizeof prefix + size - 2\<close> characters.\<close>

definition topic_in :: "nat \<Rightarrow> string \<Rightarrow> nat \<Rightarrow> string \<Rightarrow> string option" where
  "topic_in slack prefix sz number =
     (let cap = (length prefix + 1) + sz - 2 + slack in
      do { t \<leftarrow> strcpy_into cap prefix; strcat_into cap number t })"

definition mqtt_publish ::
    "nat \<Rightarrow> u16 \<Rightarrow> int \<Rightarrow> u16 \<Rightarrow> u8 list \<Rightarrow> mqttContext \<Rightarrow> (mqttContext \<times> int) option" where
  "mqtt_publish slack dev publish_ret type_publish payload s =
     do { id_device_string \<leftarrow> strcpy_into (sizeof_id_device + slack) (dec_string (unat dev));
          if type_publish = TYPE_CMD_DEFAULT_ID then
            do { t \<leftarrow> topic_in slack TOPIC_PUB_CMD (length DEFAULT_ID_DEVICE + 1) DEFAULT_ID_DEVICE;
                 MQTT_IF_Publish publish_ret t payload s }
          else if type_publish = TYPE_DATA_DEFAULT_ID then
            do { t \<leftarrow> topic_in slack TOPIC_PUB_DATA (length DEFAULT_ID_DEVICE + 1) DEFAULT_ID_DEVICE;
                 MQTT_IF_Publish publish_ret t payload s }
          else if type_publish = TYPE_CMD then
            do { t \<leftarrow> topic_in slack TOPIC_PUB_CMD sizeof_id_device id_device_string;
                 MQTT_IF_Publish publish_ret t payload s }
          else if type_publish = TYPE_DATA then
            do { t \<leftarrow> topic_in slack TOPIC_PUB_DATA sizeof_id_device id_device_string;
                 MQTT_IF_Publish publish_ret t payload s }
          else Some (s, 0) }"

section \<open>Commands\<close>

text \<open>\<open>send_rssi\<close>: the statistics, and the bytes of the union that are not set.\<close>

record SlDeviceGetStat_t =
  AvarageDataCtrlRssi :: u16
  AvarageMgMntRssi :: u16
  ReceivedFcsErrorPacketsNumber :: u32
  ReceivedValidPacketsNumber :: u32

definition rssi_message :: "u16 \<Rightarrow> SlDeviceGetStat_t \<Rightarrow> u8 list \<Rightarrow> msg_cmd_t" where
  "rssi_message dev st junk =
     \<lparr>cmd_h = \<lparr>id_device = ucast dev, msg_op = CMD,
        msg_size = word_of_nat (sizeof_cmd_rssi_t + sizeof_cmd_header_t + sizeof_msg_header_t)\<rparr>,
      cmd_id = CMD_RSSI_STATUS,
      cmd_p = enc_cmd_rssi \<lparr>avg_data_ctrl_rssi = AvarageDataCtrlRssi st, avg_msg_mnt_rssi = AvarageMgMntRssi st,
                rcv_fcs_err_pkt_num = ReceivedValidPacketsNumber st\<rparr> @ drop sizeof_cmd_rssi_t junk\<rparr>"

definition send_rssi ::
    "nat \<Rightarrow> u16 \<Rightarrow> int \<Rightarrow> SlDeviceGetStat_t \<Rightarrow> u8 list \<Rightarrow> mqttContext \<Rightarrow> (mqttContext \<times> int) option" where
  "send_rssi slack dev publish_ret st junk s =
     mqtt_publish slack dev publish_ret TYPE_CMD (enc_msg_cmd (rssi_message dev st junk)) s"

text \<open>\<open>(1 / (F_SAMPLE / DWS_RATE)) * 10 ^ 9\<close>: integer division, and an exclusive or.\<close>

definition F_SAMPLE :: int where "F_SAMPLE = 62500"
definition DWS_RATE :: int where "DWS_RATE = 8"

definition ready_time_per_sample :: u64 where
  "ready_time_per_sample = word_of_int ((1 div (F_SAMPLE div DWS_RATE)) * 10) XOR 9"

definition ready_message :: "u8 list \<Rightarrow> u8 list \<Rightarrow> msg_cmd_t" where
  "ready_message mac junk =
     \<lparr>cmd_h = \<lparr>id_device = 255, msg_op = CMD,
        msg_size = word_of_nat (sizeof_cmd_ready_t + sizeof_cmd_header_t + sizeof_msg_header_t)\<rparr>,
      cmd_id = CMD_READY,
      cmd_p = enc_cmd_ready \<lparr>rdy_mac_addr = mac, time_per_sample = ready_time_per_sample\<rparr>
              @ drop sizeof_cmd_ready_t junk\<rparr>"

definition ready_cmd_len :: nat where
  "ready_cmd_len = sizeof_cmd_ready_t + sizeof_cmd_header_t + sizeof_msg_header_t"

text \<open>
  The command handler: \<open>p\<close> are the bytes of the received payload with their final NUL; the result is the device
  number after the call.
\<close>

definition cmd_zero :: "u8 list \<Rightarrow> u8 list \<Rightarrow> u16 \<Rightarrow> u16 option" where
  "cmd_zero mac p dev =
     do { rec \<leftarrow> peek p 0 sizeof_msg_header_t;
          let h = dec_header rec;
          if id_device h \<noteq> 0 then Some dev
          else if msg_op h = CMD then
            do { idb \<leftarrow> peek p sizeof_msg_header_t sizeof_cmd_header_t;
                 if dec_w idb = CMD_RESP_ID then
                   do { body \<leftarrow> peek p (sizeof_msg_header_t + sizeof_cmd_header_t) sizeof_cmd_resp_id_t;
                        let c = dec_cmd_resp_id body;
                        if rsp_mac_addr c \<noteq> mac then Some dev else Some (cmd_resp_id c) }
                 else Some dev }
          else Some dev }"

text \<open>
  The loop of \<open>ask_for_id\<close>: each element of the list is the result of a publication and the payloads that the application
  thread hands to \<open>cmd_zero\<close> during the pause after it, which change the device number. \<open>None\<close>: no number has come yet.
\<close>

fun ask_loop ::
    "nat \<Rightarrow> u8 list \<Rightarrow> u8 list \<Rightarrow> (int \<times> u8 list list) list \<Rightarrow> u16 \<Rightarrow> int \<Rightarrow> mqttContext \<Rightarrow>
     (mqttContext \<times> u16 \<times> int) option" where
  "ask_loop slack mac msg polls dev ret s =
     (if dev \<noteq> 255 then Some (s, dev, ret)
      else case polls of
        [] \<Rightarrow> None
      | (publish_ret, received) # ps \<Rightarrow>
          do { (s', r) \<leftarrow> mqtt_publish slack dev publish_ret TYPE_CMD_DEFAULT_ID (take ready_cmd_len msg) s;
               dev' \<leftarrow> run (cmd_zero mac) received dev;
               ask_loop slack mac msg ps dev' r s' })"

declare ask_loop.simps [simp del]

definition ask_for_id ::
    "nat \<Rightarrow> u8 list \<Rightarrow> u8 list \<Rightarrow> (int \<times> u8 list list) list \<Rightarrow> mqttContext \<Rightarrow> (mqttContext \<times> u16 \<times> int) option" where
  "ask_for_id slack mac junk polls s =
     ask_loop slack mac (enc_msg_cmd (ready_message mac junk)) polls 255 0 s"

text \<open>
  The callbacks of the subscriptions that the application thread of the module makes; the program registers only
  \<open>cmd_zero\<close>, as number 0.
\<close>

fun dev_after :: "u8 list \<Rightarrow> cb_call list \<Rightarrow> u16 \<Rightarrow> u16 option" where
  "dev_after mac [] dev = Some dev"
| "dev_after mac (TopicCB cb topic payload qos # cs) dev =
     (if cb = 0 then Option.bind (cmd_zero mac payload dev) (dev_after mac cs) else dev_after mac cs dev)"
| "dev_after mac (EventCB e # cs) dev = dev_after mac cs dev"

section \<open>Client name\<close>

definition hex_nibble :: "u8 \<Rightarrow> char" where
  "hex_nibble n = char_of (if unat n > 9 then unat n + 97 - 10 else unat n + 48)"

definition SetClientIdNamefromMacAddress :: "u8 list \<Rightarrow> string \<Rightarrow> string option" where
  "SetClientIdNamefromMacAddress mac client_id =
     fold (\<lambda>i acc. do { c \<leftarrow> acc;
                        m \<leftarrow> rd mac i;
                        c1 \<leftarrow> wr c (2 * i) (hex_nibble (drop_bit 4 m AND 0xf));
                        wr c1 (2 * i + 1) (hex_nibble (m AND 0xf)) })
       [0..<SIZE_MAC_ADDR] (wr client_id 0 NUL)"

section \<open>Connection state\<close>

definition mqtt_event_callback :: "mqtt_event \<Rightarrow> bool \<Rightarrow> bool" where
  "mqtt_event_callback e mqtt_connected =
     (case e of
        MQTT_EVENT_CONNACK \<Rightarrow> True
      | MQTT_EVENT_CLIENT_DISCONNECT \<Rightarrow> False
      | MQTT_EVENT_SERVER_DISCONNECT \<Rightarrow> False
      | _ \<Rightarrow> mqtt_connected)"

text \<open>The flag after the event callbacks recorded in a context; topic callbacks do not change it.\<close>

fun connected_after :: "cb_call list \<Rightarrow> bool \<Rightarrow> bool" where
  "connected_after [] b = b"
| "connected_after (EventCB e # cs) b = connected_after cs (mqtt_event_callback e b)"
| "connected_after (TopicCB _ _ _ _ # cs) b = connected_after cs b"

text \<open>
  \<open>mqtt_connect\<close> ignores the handle and waits until the flag is set; \<open>polls\<close> are its values. \<open>None\<close>: still waiting.
\<close>

fun wait_connected :: "bool list \<Rightarrow> bool list option" where
  "wait_connected [] = None"
| "wait_connected (b # bs) = (if b then Some bs else wait_connected bs)"

definition mqtt_connect ::
    "int option \<Rightarrow> int \<Rightarrow> int \<Rightarrow> bool list \<Rightarrow> mqttContext \<Rightarrow> (mqttContext \<times> int) option" where
  "mqtt_connect created thread_ret connect_ret polls s =
     do { (s', handle) \<leftarrow> MQTT_IF_Connect created thread_ret connect_ret s;
          rest \<leftarrow> wait_connected polls;
          Some (s', 0) }"

definition mqtt_disconnect :: "int \<Rightarrow> mqttContext \<Rightarrow> (mqttContext \<times> int \<times> bool) option" where
  "mqtt_disconnect disconnect_ret s =
     do { (s', ret) \<leftarrow> MQTT_IF_Disconnect disconnect_ret s; Some (s', ret, False) }"

definition mqtt_init :: "bool \<Rightarrow> int \<Rightarrow> int \<Rightarrow> int \<Rightarrow> mqttContext \<Rightarrow> (mqttContext \<times> int) option" where
  "mqtt_init malloc_ok mutex_ret mq thread_ret s = MQTT_IF_Init malloc_ok mutex_ret mq thread_ret s"

text \<open>\<open>cmd_zero\<close> is callback number 0, the quality of service is 0.\<close>

definition mqtt_subscribe :: "nat option \<Rightarrow> bool \<Rightarrow> int \<Rightarrow> mqttContext \<Rightarrow> (mqttContext \<times> int) option" where
  "mqtt_subscribe node_addr topic_ok sub_ret s = MQTT_IF_Subscribe node_addr topic_ok sub_ret topic_1 0 0 s"

definition mqtt_client_disconnect :: "int \<Rightarrow> bool \<Rightarrow> mqttContext \<Rightarrow> (mqttContext \<times> int) option" where
  "mqtt_client_disconnect disconnect_ret send_ok s =
     do { (s1, r1) \<leftarrow> MQTT_IF_Disconnect disconnect_ret s; MQTT_IF_Deinit send_ok s1 }"

definition mqtt_client_connect ::
    "bool \<times> int \<times> int \<times> int \<Rightarrow> nat option \<times> bool \<times> int \<Rightarrow> int option \<times> int \<times> int \<times> bool list \<Rightarrow>
     mqttContext \<Rightarrow> (mqttContext \<times> int) option" where
  "mqtt_client_connect ini sub con s =
     (let (malloc_ok, mutex_ret, mq, thr) = ini; (node_addr, topic_ok, sub_ret) = sub;
          (created, cthr, connect_ret, polls) = con
      in do { (s1, r1) \<leftarrow> mqtt_init malloc_ok mutex_ret mq thr s;
              (s2, r2) \<leftarrow> mqtt_subscribe node_addr topic_ok sub_ret s1;
              mqtt_connect created cthr connect_ret polls s2 })"

definition test_mqtt_connection :: int where "test_mqtt_connection = - 1"

text \<open>The watchdog callback never returns.\<close>

definition watchdog_callback :: "unit option" where "watchdog_callback = None"

section \<open>The data thread\<close>

text \<open>
  The header of a message that is about to be sent. The device number is copied with its two bytes over the one-byte
  field; the second byte lands in the operation field, which is written next.
\<close>

definition stamp_message :: "u16 \<Rightarrow> u32 \<Rightarrow> msg_data_t \<Rightarrow> msg_data_t" where
  "stamp_message dev mid m =
     (let m1 = m\<lparr>data_h := (data_h m)\<lparr>data_buffer_num := word_of_nat DATA_BUFFER_MAX,
                                      buffer_size := word_of_nat sizeof_data_buffer_t\<rparr>\<rparr>;
          m2 = m1\<lparr>msg_h := (msg_h m1)\<lparr>id_device := ucast dev, msg_op := ucast (drop_bit 8 dev)\<rparr>\<rparr>;
          m3 = m2\<lparr>msg_h := (msg_h m2)\<lparr>msg_op := DATA\<rparr>\<rparr>;
          m4 = m3\<lparr>msg_h := (msg_h m3)\<lparr>msg_size := word_of_nat sizeof_msg_data_t\<rparr>\<rparr>
      in m4\<lparr>data_h := (data_h m4)\<lparr>data_id := mid\<rparr>\<rparr>)"

record send_state =
  send_n_msg_data :: nat
  msg_data_id :: u32
  watchdog_clears :: nat

text \<open>The polls of the status, of which a value other than \<open>stop\<close> ends the wait.\<close>

fun wait_start :: "int list \<Rightarrow> int list option" where
  "wait_start [] = None"
| "wait_start (x # xs) = (if x = 0 then wait_start xs else Some xs)"

text \<open>
  One turn of \<open>send_data\<close> after the semaphore wait: the messages found in shared memory, the device number, the polls
  of the status and the result of the publication.
\<close>

record send_env =
  se_messages :: "msg_data_t list"
  se_dev :: u16
  se_polls :: "int list"
  se_publish_ret :: int

definition send_data_body ::
    "nat \<Rightarrow> send_env \<Rightarrow> send_state \<times> mqttContext \<Rightarrow> (send_state \<times> mqttContext) option" where
  "send_data_body slack e x =
     (case x of (st, s) \<Rightarrow>
       do { m \<leftarrow> rd (se_messages e) (send_n_msg_data st);
            let m' = stamp_message (se_dev e) (msg_data_id st) m;
            polls \<leftarrow> wait_start (se_polls e);
            (s', ret) \<leftarrow> mqtt_publish slack (se_dev e) (se_publish_ret e) TYPE_DATA (enc_msg_data m') s;
            Some (\<lparr>send_n_msg_data = (send_n_msg_data st + 1) mod N_MSG_DATA,
                   msg_data_id = msg_data_id st + 1,
                   watchdog_clears = watchdog_clears st + (if ret < 0 then 0 else 1)\<rparr>, s') })"

definition send_init :: send_state where
  "send_init = \<lparr>send_n_msg_data = 0, msg_data_id = 0, watchdog_clears = 0\<rparr>"

end
