(* ===== verification/Wifi.thy ===== *)
theory Wifi
  imports Mqtt_App
begin

text \<open>
  \<open>wifi_user.c\<close>: the status word of the network processor, the event handlers that maintain it, and the operations
  that start, stop and configure the device and associate it with the access point.

  The SimpleLink driver is a parameter (\<open>wifi_env\<close>): what each call returns, what it writes to its output arguments and
  which asynchronous events its task delivers before control is back in the caller, as functions of the history of
  calls. A pause (\<open>sleep\<close>, \<open>usleep\<close>) is such a call: the events that end a wait arrive there. A wait that never ends, the
  macro \<open>LOOP_FOREVER\<close> and a copy outside an array have the value \<open>None\<close>.
\<close>

section \<open>Status word\<close>

definition STATUS_BIT_NWP_INIT :: nat where "STATUS_BIT_NWP_INIT = 0"
definition STATUS_BIT_CONNECTION :: nat where "STATUS_BIT_CONNECTION = 1"
definition STATUS_BIT_IP_LEASED :: nat where "STATUS_BIT_IP_LEASED = 2"
definition STATUS_BIT_IP_ACQUIRED :: nat where "STATUS_BIT_IP_ACQUIRED = 3"
definition STATUS_BIT_RESET_REQUIRED :: nat where "STATUS_BIT_RESET_REQUIRED = 12"

lemmas status_bits = STATUS_BIT_NWP_INIT_def STATUS_BIT_CONNECTION_def STATUS_BIT_IP_LEASED_def
  STATUS_BIT_IP_ACQUIRED_def STATUS_BIT_RESET_REQUIRED_def

definition SET_STATUS_BIT :: "u32 \<Rightarrow> nat \<Rightarrow> u32" where
  "SET_STATUS_BIT st b = st OR push_bit b 1"

definition CLR_STATUS_BIT :: "u32 \<Rightarrow> nat \<Rightarrow> u32" where
  "CLR_STATUS_BIT st b = st AND NOT (push_bit b 1)"

definition GET_STATUS_BIT :: "u32 \<Rightarrow> nat \<Rightarrow> bool" where
  "GET_STATUS_BIT st b \<longleftrightarrow> st AND push_bit b 1 \<noteq> 0"

definition IS_CONNECTED :: "u32 \<Rightarrow> bool" where
  "IS_CONNECTED st = GET_STATUS_BIT st STATUS_BIT_CONNECTION"

definition IS_IP_ACQUIRED :: "u32 \<Rightarrow> bool" where
  "IS_IP_ACQUIRED st = GET_STATUS_BIT st STATUS_BIT_IP_ACQUIRED"

section \<open>State, driver and events\<close>

text \<open>
  A connect event carries the \<open>SsidLen\<close> bytes of the network's name and the BSSID. The two arrays that receive them
  have the sizes \<open>SL_WLAN_SSID_MAX_LENGTH + 1\<close> and \<open>SL_WLAN_BSSID_LENGTH\<close> of the driver's headers; in the model their
  size is the length of the list. A loss carries whether its reason is \<open>SL_WLAN_DISCONNECT_USER_INITIATED\<close>.
\<close>

datatype wlan_event =
  SL_WLAN_EVENT_CONNECT "u8 list" "u8 list"
| SL_WLAN_EVENT_DISCONNECT bool
| SL_WLAN_EVENT_STA_ADDED
| SL_WLAN_EVENT_STA_REMOVED
| Wlan_unexpected nat

datatype netapp_event =
  SL_NETAPP_EVENT_IPV4_ACQUIRED
| SL_NETAPP_EVENT_IPV6_ACQUIRED
| SL_NETAPP_EVENT_DHCPV4_LEASED u32
| SL_NETAPP_EVENT_DHCPV4_RELEASED
| NetApp_unexpected nat

datatype fatal_event =
  SL_DEVICE_EVENT_FATAL_DEVICE_ABORT u32 u32
| SL_DEVICE_EVENT_FATAL_DRIVER_ABORT
| SL_DEVICE_EVENT_FATAL_NO_CMD_ACK u32
| SL_DEVICE_EVENT_FATAL_SYNC_LOSS
| SL_DEVICE_EVENT_FATAL_CMD_TIMEOUT u32
| Fatal_unspecified nat

text \<open>The status of a failed transmission is the pair of the driver's code and whether it is \<open>SL_ERROR_BSD_ECLOSE\<close>.\<close>

datatype ssl_type =
  SL_SSL_NOTIFICATION_CONNECTED_SECURED | SL_SSL_NOTIFICATION_HANDSHAKE_FAILED | SL_SSL_ACCEPT
| SL_OTHER_SIDE_CLOSE_SSL_DATA_NOT_ENCRYPTED | SL_SSL_NOTIFICATION_WRONG_ROOT_CA | Ssl_other

datatype sock_event =
  SL_SOCKET_TX_FAILED_EVENT (tx_sd: nat) (tx_eclose: bool) (tx_status: nat)
| SL_SOCKET_ASYNC_EVENT (async_sd: nat) (async_type: ssl_type) (async_val: nat)
| Sock_unexpected nat

datatype sl_event = Wlan wlan_event | NetApp netapp_event | Fatal fatal_event | Sock sock_event | General u32 u32

text \<open>A line on the console: the format string and its arguments.\<close>

datatype print_arg = Str "u8 list" | Num nat

type_synonym print_call = "string \<times> print_arg list"

datatype wifi_call =
  C_RegisterEventHandler | C_Start | C_Stop | C_WlanSetMode u32
| C_WlanConnect string | C_WlanDisconnect | C_NetCfgGet | C_DnsGetHostByName string
| C_ProfileDel | C_WlanSet | C_ProfileAdd string | C_PolicyConnection | C_PolicyPm
| C_DeviceStatStart | C_sleep | C_usleep | C_pthread_create

record ipv4_args =
  ip_addr :: u32
  ip_mask :: u32
  ip_gateway :: u32
  ip_dns :: u32

text \<open>
  \<open>calls\<close> is the history of driver calls, newest first; \<open>led\<close> is the red light; \<open>console\<close> is what the event handlers
  print, oldest first. The messages of the operations are not kept.
\<close>

record wifi =
  g_ulStatus :: u32
  g_ulStaIp :: u32
  g_ulGatewayIP :: u32
  g_ucConnectionSSID :: "u8 list"
  g_ucConnectionBSSID :: "u8 list"
  g_usConnectIndex :: u16
  led :: bool
  console :: "print_call list"
  calls :: "wifi_call list"

record wifi_env =
  sl_ret :: "wifi_call list \<Rightarrow> int"
  sl_events :: "wifi_call list \<Rightarrow> sl_event list"
  sl_ipv4 :: "wifi_call list \<Rightarrow> ipv4_args"
  sl_host :: "wifi_call list \<Rightarrow> u32"
  ROLE_STA :: int
  ROLE_AP :: int

section \<open>Event handlers\<close>

definition UART_PRINT :: "string \<Rightarrow> print_arg list \<Rightarrow> wifi \<Rightarrow> wifi" where
  "UART_PRINT fmt args s = s\<lparr>console := console s @ [(fmt, args)]\<rparr>"

text \<open>\<open>%s\<close> shows an array up to its first zero byte; the four bytes of an address are printed from the highest on.\<close>

definition c_str :: "u8 list \<Rightarrow> u8 list" where
  "c_str bs = takeWhile (\<lambda>b. b \<noteq> 0) bs"

definition ip_bytes :: "u32 \<Rightarrow> print_arg list" where
  "ip_bytes ip = map (\<lambda>i. Num (unat (drop_bit (8 * i) ip AND 0xff))) [3, 2, 1, 0]"

definition SimpleLinkWlanEventHandler :: "wlan_event \<Rightarrow> wifi \<Rightarrow> wifi option" where
  "SimpleLinkWlanEventHandler e s =
     (case e of
        SL_WLAN_EVENT_CONNECT ssid bssid \<Rightarrow>
          do { let s1 = s\<lparr>led := True, g_ulStatus := SET_STATUS_BIT (g_ulStatus s) STATUS_BIT_CONNECTION\<rparr>;
               m \<leftarrow> poke (g_ucConnectionSSID s1) 0 ssid;
               m' \<leftarrow> poke (g_ucConnectionBSSID s1) 0 (take (length (g_ucConnectionBSSID s1)) bssid);
               Some (UART_PRINT ''[WLAN EVENT] STA Connected to the AP: %s , BSSID: %x:%x:%x:%x:%x:%x''
                       (Str (c_str m) # map (\<lambda>b. Num (unat b)) m')
                       (s1\<lparr>g_ucConnectionSSID := m, g_ucConnectionBSSID := m'\<rparr>)) }
      | SL_WLAN_EVENT_DISCONNECT user_initiated \<Rightarrow>
          do { let s1 = s\<lparr>led := False,
                  g_ulStatus := CLR_STATUS_BIT (CLR_STATUS_BIT (g_ulStatus s) STATUS_BIT_CONNECTION)
                                  STATUS_BIT_IP_ACQUIRED\<rparr>;
               Some (UART_PRINT (if user_initiated
                                 then ''Device disconnected from the AP on application's request ''
                                 else ''WARNING: Connection to AP lost! '') [] s1) }
      | SL_WLAN_EVENT_STA_ADDED \<Rightarrow>
          Some (s\<lparr>g_ulStatus := SET_STATUS_BIT (g_ulStatus s) STATUS_BIT_CONNECTION\<rparr>)
      | SL_WLAN_EVENT_STA_REMOVED \<Rightarrow>
          Some (s\<lparr>g_ulStatus := CLR_STATUS_BIT (CLR_STATUS_BIT (g_ulStatus s) STATUS_BIT_CONNECTION)
                                  STATUS_BIT_IP_LEASED\<rparr>)
      | Wlan_unexpected i \<Rightarrow> Some (UART_PRINT ''[WLAN EVENT] Unexpected event %d'' [Num i] s))"

definition SimpleLinkNetAppEventHandler :: "netapp_event \<Rightarrow> wifi \<Rightarrow> wifi" where
  "SimpleLinkNetAppEventHandler e s =
     (let acquired = UART_PRINT ''[NETAPP EVENT] IP acquired by the device'' []
                       (s\<lparr>g_ulStatus := SET_STATUS_BIT (g_ulStatus s) STATUS_BIT_IP_ACQUIRED\<rparr>)
      in case e of
        SL_NETAPP_EVENT_IPV4_ACQUIRED \<Rightarrow> acquired
      | SL_NETAPP_EVENT_IPV6_ACQUIRED \<Rightarrow> acquired
      | SL_NETAPP_EVENT_DHCPV4_LEASED ip \<Rightarrow>
          (let s1 = s\<lparr>g_ulStatus := SET_STATUS_BIT (g_ulStatus s) STATUS_BIT_IP_LEASED, g_ulStaIp := ip\<rparr>
           in UART_PRINT ''[NETAPP EVENT] IP Leased to Client: IP=%d.%d.%d.%d , '' (ip_bytes (g_ulStaIp s1)) s1)
      | SL_NETAPP_EVENT_DHCPV4_RELEASED \<Rightarrow>
          (let s1 = s\<lparr>g_ulStatus := CLR_STATUS_BIT (g_ulStatus s) STATUS_BIT_IP_LEASED\<rparr>
           in UART_PRINT ''[NETAPP EVENT] IP Released for Client: IP=%d.%d.%d.%d , '' (ip_bytes (g_ulStaIp s1)) s1)
      | NetApp_unexpected i \<Rightarrow> UART_PRINT ''[NETAPP EVENT] Unexpected event [0x%x] '' [Num i] s)"

text \<open>The handlers of fatal errors, of socket events and of general events only print; the tails of the formats are left out.\<close>

definition SimpleLinkFatalErrorEventHandler :: "fatal_event \<Rightarrow> wifi \<Rightarrow> wifi" where
  "SimpleLinkFatalErrorEventHandler e s =
     (case e of
        SL_DEVICE_EVENT_FATAL_DEVICE_ABORT code v \<Rightarrow>
          UART_PRINT ''[ERROR] - FATAL ERROR: Abort NWP event detected: AbortType=%d, AbortData=0x%x''
            [Num (unat code), Num (unat v)] s
      | SL_DEVICE_EVENT_FATAL_DRIVER_ABORT \<Rightarrow> UART_PRINT ''[ERROR] - FATAL ERROR: Driver Abort detected. '' [] s
      | SL_DEVICE_EVENT_FATAL_NO_CMD_ACK code \<Rightarrow>
          UART_PRINT ''[ERROR] - FATAL ERROR: No Cmd Ack detected [cmd opcode = 0x%x] '' [Num (unat code)] s
      | SL_DEVICE_EVENT_FATAL_SYNC_LOSS \<Rightarrow> UART_PRINT ''[ERROR] - FATAL ERROR: Sync loss detected n'' [] s
      | SL_DEVICE_EVENT_FATAL_CMD_TIMEOUT code \<Rightarrow>
          UART_PRINT ''[ERROR] - FATAL ERROR: Async event timeout detected [event opcode =0x%x]  '' [Num (unat code)] s
      | Fatal_unspecified i \<Rightarrow> UART_PRINT ''[ERROR] - FATAL ERROR: Unspecified error detected '' [] s)"

definition SimpleLinkSockEventHandler :: "sock_event \<Rightarrow> wifi \<Rightarrow> wifi" where
  "SimpleLinkSockEventHandler e s =
     (case e of
        SL_SOCKET_TX_FAILED_EVENT sd eclose status \<Rightarrow>
          (if eclose
           then UART_PRINT ''[SOCK ERROR] - close socket (%d) operation failed to transmit all queued packets'' [Num sd] s
           else UART_PRINT ''[SOCK ERROR] - TX FAILED  :  socket %d , reason (%d) '' [Num sd, Num status] s)
      | SL_SOCKET_ASYNC_EVENT sd ty v \<Rightarrow>
          (let s1 = UART_PRINT ''[SOCK ERROR] an event received on socket %d'' [Num sd] s
           in case ty of
                SL_SSL_NOTIFICATION_CONNECTED_SECURED \<Rightarrow> UART_PRINT ''[SOCK ERROR] SSL handshake done'' [] s1
              | SL_SSL_NOTIFICATION_HANDSHAKE_FAILED \<Rightarrow>
                  UART_PRINT ''[SOCK ERROR] SSL handshake failed with error %d'' [Num v] s1
              | SL_SSL_ACCEPT \<Rightarrow>
                  UART_PRINT ''[SOCK ERROR] Recoverable error occurred during the handshake %d'' [Num v] s1
              | SL_OTHER_SIDE_CLOSE_SSL_DATA_NOT_ENCRYPTED \<Rightarrow>
                  UART_PRINT ''[SOCK ERROR] Other peer terminated the SSL layer.'' [] s1
              | SL_SSL_NOTIFICATION_WRONG_ROOT_CA \<Rightarrow>
                  UART_PRINT ''[SOCK ERROR] Used wrong CA to verify the peer.'' [] s1
              | Ssl_other \<Rightarrow> s1)
      | Sock_unexpected i \<Rightarrow> UART_PRINT ''[SOCK EVENT] - Unexpected Event [%x0x]'' [Num i] s)"

definition SimpleLinkGeneralEventHandler :: "u32 \<Rightarrow> u32 \<Rightarrow> wifi \<Rightarrow> wifi" where
  "SimpleLinkGeneralEventHandler code sender s =
     UART_PRINT ''[GENERAL EVENT] - ID=[%d] Sender=[%d]'' [Num (unat code), Num (unat sender)] s"

definition sl_event_handler :: "sl_event \<Rightarrow> wifi \<Rightarrow> wifi option" where
  "sl_event_handler e s =
     (case e of
        Wlan w \<Rightarrow> SimpleLinkWlanEventHandler w s
      | NetApp n \<Rightarrow> Some (SimpleLinkNetAppEventHandler n s)
      | Fatal i \<Rightarrow> Some (SimpleLinkFatalErrorEventHandler i s)
      | Sock i \<Rightarrow> Some (SimpleLinkSockEventHandler i s)
      | General code sender \<Rightarrow> Some (SimpleLinkGeneralEventHandler code sender s))"

text \<open>
  One driver call: it is recorded, its events are delivered, and it returns. An operation takes events only in its calls of the
  driver; between the operations the running system delivers them at any place (\<open>Ev_wifi\<close> of \<open>System\<close>).
\<close>

definition sl :: "wifi_env \<Rightarrow> wifi_call \<Rightarrow> wifi \<Rightarrow> (wifi \<times> int) option" where
  "sl env c s =
     (let h = c # calls s in
      do { s' \<leftarrow> run sl_event_handler (sl_events env h) (s\<lparr>calls := h\<rparr>); Some (s', sl_ret env h) })"

section \<open>Operations\<close>

definition Network_IF_ResetMCUStateMachine :: "wifi \<Rightarrow> wifi" where
  "Network_IF_ResetMCUStateMachine s = s\<lparr>g_ulStatus := 0\<rparr>"

definition Network_IF_CurrentMCUState :: "wifi \<Rightarrow> u32" where
  "Network_IF_CurrentMCUState s = g_ulStatus s"

definition Network_IF_SetMCUMachineState :: "nat \<Rightarrow> wifi \<Rightarrow> wifi" where
  "Network_IF_SetMCUMachineState b s = s\<lparr>g_ulStatus := SET_STATUS_BIT (g_ulStatus s) b\<rparr>"

definition Network_IF_UnsetMCUMachineState :: "nat \<Rightarrow> wifi \<Rightarrow> wifi" where
  "Network_IF_UnsetMCUMachineState b s = s\<lparr>g_ulStatus := CLR_STATUS_BIT (g_ulStatus s) b\<rparr>"

definition test_wifi_connection :: "wifi \<Rightarrow> int" where
  "test_wifi_connection s = (if IS_CONNECTED (g_ulStatus s) then 1 else 0)"

definition InitializeAppVariables :: "wifi \<Rightarrow> wifi" where
  "InitializeAppVariables s =
     s\<lparr>g_ulStatus := 0, g_ulStaIp := 0, g_ulGatewayIP := 0,
       g_ucConnectionSSID := replicate (length (g_ucConnectionSSID s)) 0,
       g_ucConnectionBSSID := replicate (length (g_ucConnectionBSSID s)) 0\<rparr>"

text \<open>The loops that wait for the status: \<open>while(!IS_IP_ACQUIRED) usleep\<close> and \<open>while(IS_CONNECTED) usleep\<close>.\<close>

partial_function (option) wait_ip :: "wifi_env \<Rightarrow> wifi \<Rightarrow> wifi option" where
  "wait_ip env s =
     (if IS_IP_ACQUIRED (g_ulStatus s) then Some s
      else Option.bind (sl env C_usleep s) (\<lambda>r. wait_ip env (fst r)))"

partial_function (option) wait_disconnected :: "wifi_env \<Rightarrow> wifi \<Rightarrow> wifi option" where
  "wait_disconnected env s =
     (if IS_CONNECTED (g_ulStatus s)
      then Option.bind (sl env C_usleep s) (\<lambda>r. wait_disconnected env (fst r))
      else Some s)"

text \<open>The loop of \<open>Network_IF_ConnectAP\<close>: toggle the light, sleep a second, look.\<close>

partial_function (option) wait_associated :: "wifi_env \<Rightarrow> wifi \<Rightarrow> wifi option" where
  "wait_associated env s =
     Option.bind (sl env C_sleep (s\<lparr>led := \<not> led s\<rparr>))
       (\<lambda>r. if IS_CONNECTED (g_ulStatus (fst r)) \<and> IS_IP_ACQUIRED (g_ulStatus (fst r))
            then Some ((fst r)\<lparr>led := True\<rparr>) else wait_associated env (fst r))"

declare wait_ip.simps [code] wait_disconnected.simps [code] wait_associated.simps [code]

definition Network_IF_DisconnectFromAP :: "wifi_env \<Rightarrow> wifi \<Rightarrow> (wifi \<times> int) option" where
  "Network_IF_DisconnectFromAP env s =
     (if IS_CONNECTED (g_ulStatus s) then
        do { (s1, r) \<leftarrow> sl env C_WlanDisconnect s;
             if r = 0 then do { s2 \<leftarrow> wait_disconnected env s1; Some (s2, r) } else Some (s1, r) }
      else Some (s, 0))"

text \<open>The output arguments are returned: address, mask, gateway and name server, as they were before if not written.\<close>

definition Network_IF_IpConfigGet :: "wifi_env \<Rightarrow> ipv4_args \<Rightarrow> wifi \<Rightarrow> (wifi \<times> int \<times> ipv4_args) option" where
  "Network_IF_IpConfigGet env a s =
     do { (s1, r) \<leftarrow> sl env C_NetCfgGet s;
          if r < 0 then Some (s1, r, a)
          else let ipV4 = sl_ipv4 env (C_NetCfgGet # calls s);
                   a1 = a\<lparr>ip_addr := ip_addr ipV4\<rparr>;
                   a2 = a1\<lparr>ip_mask := ip_mask ipV4\<rparr>;
                   a3 = a2\<lparr>ip_gateway := ip_gateway ipV4\<rparr>;
                   a4 = a3\<lparr>ip_gateway := ip_dns ipV4\<rparr>
               in Some (s1, r, a4) }"

definition Network_IF_GetHostIP :: "wifi_env \<Rightarrow> string \<Rightarrow> u32 \<Rightarrow> wifi \<Rightarrow> (wifi \<times> int \<times> u32) option" where
  "Network_IF_GetHostIP env host dest s =
     do { (s1, r) \<leftarrow> sl env (C_DnsGetHostByName host) s;
          Some (s1, r, sl_host env (C_DnsGetHostByName host # calls s)) }"

definition Network_IF_ConnectAP :: "wifi_env \<Rightarrow> string option \<Rightarrow> wifi \<Rightarrow> (wifi \<times> int) option" where
  "Network_IF_ConnectAP env pcSsid s =
     do { (s1, r1) \<leftarrow> Network_IF_DisconnectFromAP env (s\<lparr>g_usConnectIndex := 0\<rparr>);
          let s2 = s1\<lparr>g_ulStatus := CLR_STATUS_BIT (CLR_STATUS_BIT (g_ulStatus s1) STATUS_BIT_CONNECTION)
                                      STATUS_BIT_IP_ACQUIRED\<rparr>;
          case pcSsid of
            None \<Rightarrow> Some (s2, - 1)
          | Some ssid \<Rightarrow>
              do { (s3, r3) \<leftarrow> sl env (C_WlanConnect ssid) s2;
                   if r3 < 0 then Some (s3, r3)
                   else do { s4 \<leftarrow> wait_associated env (s3\<lparr>led := True\<rparr>);
                             (s5, r5, a) \<leftarrow> Network_IF_IpConfigGet env
                                \<lparr>ip_addr = 0, ip_mask = 0, ip_gateway = 0, ip_dns = 0\<rparr> s4;
                             if r5 < 0 then Some (s5, r5) else Some (s5, 0) } } }"

text \<open>The comparisons of the requested mode with the returned role are unsigned.\<close>

definition Network_IF_InitDriver :: "wifi_env \<Rightarrow> u32 \<Rightarrow> wifi \<Rightarrow> (wifi \<times> int) option" where
  "Network_IF_InitDriver env uiMode s =
     do { (s1, r1) \<leftarrow> sl env C_RegisterEventHandler s;
          (s2, r2) \<leftarrow> sl env C_Start (InitializeAppVariables s1);
          if uiMode \<noteq> word_of_int r2 then
            do { (s3, r3) \<leftarrow> sl env (C_WlanSetMode uiMode) s2;
                 if r3 < 0 then Some (s3, r3)
                 else do { (s4, r4) \<leftarrow> sl env C_Stop s3;
                           (s5, r5) \<leftarrow> sl env C_Start s4;
                           if r5 < 0 then Some (s5, r5)
                           else if word_of_int r5 = uiMode
                           then if r5 = ROLE_AP env then do { s6 \<leftarrow> wait_ip env s5; Some (s6, 0) }
                                else Some (s5, 0)
                           else None } }
          else if r2 = ROLE_AP env then do { s3 \<leftarrow> wait_ip env s2; Some (s3, 0) }
          else Some (s2, 0) }"

definition Network_IF_DeInitDriver :: "wifi_env \<Rightarrow> wifi \<Rightarrow> (wifi \<times> int) option" where
  "Network_IF_DeInitDriver env s =
     do { (s1, r1) \<leftarrow> Network_IF_DisconnectFromAP env s;
          (s2, r2) \<leftarrow> sl env C_Stop s1;
          Some (Network_IF_ResetMCUStateMachine s2, r2) }"

text \<open>
  \<open>wifi_init\<close> ends with the client name, which \<open>SetClientIdNamefromMacAddress\<close> derives from the MAC address \<open>mac\<close> that
  its own driver call returns.
\<close>

definition wifi_init :: "wifi_env \<Rightarrow> u8 list \<Rightarrow> string \<Rightarrow> wifi \<Rightarrow> (wifi \<times> string \<times> int) option" where
  "wifi_init env mac client_id s =
     do { (s1, r1) \<leftarrow> sl env C_pthread_create s;
          (s2, r2) \<leftarrow> Network_IF_DeInitDriver env (Network_IF_ResetMCUStateMachine s1);
          (s3, ret) \<leftarrow> Network_IF_InitDriver env (word_of_int (ROLE_STA env)) s2;
          (s4, r4) \<leftarrow> sl env C_NetCfgGet s3;
          client \<leftarrow> SetClientIdNamefromMacAddress mac client_id;
          Some (s4, client, ret) }"

definition wifi_deinit :: "wifi_env \<Rightarrow> wifi \<Rightarrow> (wifi \<times> int) option" where
  "wifi_deinit env s = Network_IF_DeInitDriver env (Network_IF_ResetMCUStateMachine s)"

definition SSID_NAME :: string where "SSID_NAME = ''eduroam''"

definition wifi_connect :: "wifi_env \<Rightarrow> wifi \<Rightarrow> (wifi \<times> int) option" where
  "wifi_connect env s =
     do { (s1, r1) \<leftarrow> sl env C_ProfileDel s;
          (s2, r2) \<leftarrow> sl env C_WlanSet s1;
          (s3, r3) \<leftarrow> Network_IF_ConnectAP env (Some SSID_NAME) s2;
          (s4, r4) \<leftarrow> sl env (C_ProfileAdd SSID_NAME) s3;
          (s5, r5) \<leftarrow> sl env C_PolicyConnection s4;
          (s6, r6) \<leftarrow> sl env C_PolicyPm s5;
          sl env C_DeviceStatStart s6 }"

end
