(* ===== verification/Wifi_Props.thy ===== *)
theory Wifi_Props
  imports Wifi
begin

text \<open>
  The properties of \<open>wifi_user.c\<close>: the status word is an exact picture of the link events, an association ends
  precisely when the link comes up at a poll, what starting and stopping the device does, and what the operations
  report.
\<close>

section \<open>The status word and the link\<close>

lemma GET_STATUS_BIT_bit: "b < 32 \<Longrightarrow> GET_STATUS_BIT st b = bit st b"
  unfolding GET_STATUS_BIT_def push_bit_of_1 by (simp add: and_exp_eq_0_iff_not_bit)

lemma bit_SET: "i < 32 \<Longrightarrow> bit (SET_STATUS_BIT st b) i = (bit st i \<or> i = b)"
  by (auto simp: SET_STATUS_BIT_def bit_simps)

lemma bit_CLR: "i < 32 \<Longrightarrow> bit (CLR_STATUS_BIT st b) i = (bit st i \<and> i \<noteq> b)"
  by (auto simp: CLR_STATUS_BIT_def bit_simps)

lemma IS_CONNECTED_bit: "IS_CONNECTED st = bit st 1"
  by (simp add: IS_CONNECTED_def GET_STATUS_BIT_bit status_bits)

lemma IS_IP_ACQUIRED_bit: "IS_IP_ACQUIRED st = bit st 3"
  by (simp add: IS_IP_ACQUIRED_def GET_STATUS_BIT_bit status_bits)

lemmas status_simps = bit_SET bit_CLR IS_CONNECTED_bit IS_IP_ACQUIRED_bit status_bits

text \<open>The link as the events describe it: associated, address leased to a client, address acquired.\<close>

datatype link = Link (assoc: bool) (leased: bool) (acquired: bool)

definition link_of :: "u32 \<Rightarrow> link" where
  "link_of st = Link (bit st 1) (bit st 2) (bit st 3)"

fun link_step :: "sl_event \<Rightarrow> link \<Rightarrow> link" where
  "link_step (Wlan (SL_WLAN_EVENT_CONNECT n b)) (Link a l i) = Link True l i"
| "link_step (Wlan (SL_WLAN_EVENT_DISCONNECT r)) (Link a l i) = Link False l False"
| "link_step (Wlan SL_WLAN_EVENT_STA_ADDED) (Link a l i) = Link True l i"
| "link_step (Wlan SL_WLAN_EVENT_STA_REMOVED) (Link a l i) = Link False False i"
| "link_step (NetApp SL_NETAPP_EVENT_IPV4_ACQUIRED) (Link a l i) = Link a l True"
| "link_step (NetApp SL_NETAPP_EVENT_IPV6_ACQUIRED) (Link a l i) = Link a l True"
| "link_step (NetApp (SL_NETAPP_EVENT_DHCPV4_LEASED x)) (Link a l i) = Link a True i"
| "link_step (NetApp SL_NETAPP_EVENT_DHCPV4_RELEASED) (Link a l i) = Link a False i"
| "link_step e k = k"

text \<open>
  Links are ordered by what they offer; every event keeps the order, so a device that is behind another one in its
  link stays behind it when both see the same events.
\<close>

instantiation link :: order
begin

definition less_eq_link :: "link \<Rightarrow> link \<Rightarrow> bool" where
  "k \<le> k' \<longleftrightarrow> (assoc k \<longrightarrow> assoc k') \<and> (leased k \<longrightarrow> leased k') \<and> (acquired k \<longrightarrow> acquired k')"

definition less_link :: "link \<Rightarrow> link \<Rightarrow> bool" where
  "k < k' \<longleftrightarrow> k \<le> k' \<and> \<not> k' \<le> (k :: link)"

instance
  by standard (auto simp: less_eq_link_def less_link_def intro: link.expand)

end

lemma link_step_mono: "k \<le> k' \<Longrightarrow> link_step e k \<le> link_step e k'"
  by (cases k; cases k'; cases "(e, k)" rule: link_step.cases) (auto simp: less_eq_link_def)

lemma link_fold_mono: "k \<le> k' \<Longrightarrow> fold link_step es k \<le> fold link_step es k'"
  by (induction es arbitrary: k k') (simp_all add: link_step_mono)

text \<open>Events whose network name and identifier fit the arrays that receive them.\<close>

definition event_fits :: "nat \<Rightarrow> nat \<Rightarrow> sl_event \<Rightarrow> bool" where
  "event_fits n b e =
     (case e of Wlan (SL_WLAN_EVENT_CONNECT ssid bssid) \<Rightarrow> length ssid \<le> n \<and> length bssid \<le> b | _ \<Rightarrow> True)"

definition arrays_are :: "nat \<Rightarrow> nat \<Rightarrow> wifi \<Rightarrow> bool" where
  "arrays_are n b s \<longleftrightarrow> length (g_ucConnectionSSID s) = n \<and> length (g_ucConnectionBSSID s) = b"

text \<open>What an event leaves alone: the other bits, the history of calls and the sizes of the arrays.\<close>

definition kept :: "wifi \<Rightarrow> wifi \<Rightarrow> bool" where
  "kept s s' \<longleftrightarrow> calls s' = calls s \<and> (\<forall>n b. arrays_are n b s \<longrightarrow> arrays_are n b s')
     \<and> (\<forall>i < 32. i \<notin> {1, 2, 3} \<longrightarrow> bit (g_ulStatus s') i = bit (g_ulStatus s) i)"

lemma kept_refl: "kept s s"
  by (simp add: kept_def)

lemma kept_trans: "kept s t \<Longrightarrow> kept t u \<Longrightarrow> kept s u"
  by (simp add: kept_def)

lemma kept_calls: "kept s t \<Longrightarrow> calls t = calls s"
  and kept_arrays: "kept s t \<Longrightarrow> arrays_are n b s \<Longrightarrow> arrays_are n b t"
  by (simp_all add: kept_def)

lemmas handlers = sl_event_handler_def SimpleLinkWlanEventHandler_def SimpleLinkNetAppEventHandler_def
  SimpleLinkFatalErrorEventHandler_def SimpleLinkSockEventHandler_def
  SimpleLinkGeneralEventHandler_def UART_PRINT_def Let_def

text \<open>The state after one event, by events.\<close>

lemma handler_status:
  assumes "sl_event_handler e s = Some s'"
  shows "calls s' = calls s \<and> length (g_ucConnectionSSID s') = length (g_ucConnectionSSID s)
     \<and> length (g_ucConnectionBSSID s') = length (g_ucConnectionBSSID s)
     \<and> (\<forall>i < 32. i \<notin> {1, 2, 3} \<longrightarrow> bit (g_ulStatus s') i = bit (g_ulStatus s) i)
     \<and> link_of (g_ulStatus s') = link_step e (link_of (g_ulStatus s))"
proof (cases e)
  case (Wlan w)
  then show ?thesis
    using assms
    by (cases w) (auto simp: handlers link_of_def bit_SET bit_CLR status_bits dest!: poke_length split: bind_splits)
next
  case (NetApp w)
  then show ?thesis
    using assms by (cases w) (auto simp: handlers link_of_def bit_SET bit_CLR status_bits)
next
  case (Fatal f)
  then show ?thesis
    using assms by (cases f) (auto simp: handlers link_of_def)
next
  case (Sock f)
  then show ?thesis
    using assms by (cases f) (auto simp: handlers link_of_def split: ssl_type.splits if_splits)
qed (use assms in \<open>auto simp: handlers link_of_def\<close>)

lemma handler_kept: "sl_event_handler e s = Some s' \<Longrightarrow> kept s s'"
  using handler_status [of e s s'] by (simp add: kept_def arrays_are_def)

lemma handler_link:
  "sl_event_handler e s = Some s' \<Longrightarrow> link_of (g_ulStatus s') = link_step e (link_of (g_ulStatus s))"
  using handler_status [of e s s'] by simp

lemma handler_defined:
  assumes "arrays_are n b s" "event_fits n b e"
  shows "\<exists>s'. sl_event_handler e s = Some s' \<and> arrays_are n b s'"
proof -
  have "sl_event_handler e s \<noteq> None"
  proof (cases e)
    case (Wlan w)
    then show ?thesis
      using assms by (cases w) (auto simp: handlers arrays_are_def event_fits_def)
  qed (simp_all add: handlers)
  then show ?thesis
    using handler_kept [of e s] kept_arrays assms(1) by blast
qed

interpretation link: safe_machine sl_event_handler "arrays_are n b" "event_fits n b" for n b
  by unfold_locales (rule handler_defined)

lemma events_kept: "run sl_event_handler es s = Some s' \<Longrightarrow> kept s s'"
  by (induction es arbitrary: s) (auto simp: kept_refl split: bind_splits dest!: handler_kept intro: kept_trans)

lemma events_link:
  "run sl_event_handler es s = Some s' \<Longrightarrow>
   link_of (g_ulStatus s') = fold link_step es (link_of (g_ulStatus s))"
proof (induction es arbitrary: s)
  case (Cons e es)
  then show ?case by (auto split: bind_splits dest!: handler_link)
qed simp

text \<open>
  (C26) The handlers keep the status word an exact picture of the link: after any sequence of driver events whose names
  fit their arrays, the handlers have stayed in their arrays, the bits for association, leased and acquired address are
  those the events describe (a loss of the association also clears the acquired address, a client that leaves also
  clears the lease), and no other bit of the word has changed.
\<close>

theorem status_refines_link:
  assumes "arrays_are n b s" "list_all (event_fits n b) es"
  shows "\<exists>s'. run sl_event_handler es s = Some s' \<and> arrays_are n b s'
           \<and> link_of (g_ulStatus s') = fold link_step es (link_of (g_ulStatus s))
           \<and> (\<forall>i < 32. i \<notin> {1, 2, 3} \<longrightarrow> bit (g_ulStatus s') i = bit (g_ulStatus s) i)"
proof -
  obtain s' where s': "run sl_event_handler es s = Some s'" "arrays_are n b s'"
    using link.safe_run [OF assms] by blast
  then show ?thesis
    using events_kept [OF s'(1)] events_link [OF s'(1)] by (simp add: kept_def)
qed

definition wifi_example :: wifi where
  "wifi_example = \<lparr>g_ulStatus = 0, g_ulStaIp = 0, g_ulGatewayIP = 0, g_ucConnectionSSID = replicate 33 0,
     g_ucConnectionBSSID = replicate 6 0, g_usConnectIndex = 0, led = False, console = [], calls = []\<rparr>"

theorem status_refines_link_witness:
  "\<exists>s'. run sl_event_handler [Wlan (SL_WLAN_EVENT_CONNECT [80, 76] [1, 2, 3, 4, 5, 6]),
           NetApp SL_NETAPP_EVENT_IPV4_ACQUIRED] wifi_example = Some s'
     \<and> link_of (g_ulStatus s') = Link True False True"
  using status_refines_link [of 33 6 wifi_example
      "[Wlan (SL_WLAN_EVENT_CONNECT [80, 76] [1, 2, 3, 4, 5, 6]), NetApp SL_NETAPP_EVENT_IPV4_ACQUIRED]"]
  by (auto simp: wifi_example_def arrays_are_def event_fits_def link_of_def)

section \<open>Driver calls and waits\<close>

text \<open>A driver all of whose events fit the arrays of the program.\<close>

definition fitting :: "nat \<Rightarrow> nat \<Rightarrow> wifi_env \<Rightarrow> bool" where
  "fitting n b env \<longleftrightarrow> (\<forall>h. list_all (event_fits n b) (sl_events env h))"

lemma sl_defined:
  assumes "fitting n b env" "arrays_are n b s"
  obtains s' where "sl env c s = Some (s', sl_ret env (c # calls s))" "arrays_are n b s'"
    "calls s' = c # calls s"
    "link_of (g_ulStatus s') = fold link_step (sl_events env (c # calls s)) (link_of (g_ulStatus s))"
proof -
  let ?s = "s\<lparr>calls := c # calls s\<rparr>"
  have "arrays_are n b ?s" "list_all (event_fits n b) (sl_events env (c # calls s))"
    using assms by (simp_all add: arrays_are_def fitting_def)
  then obtain s' where s': "run sl_event_handler (sl_events env (c # calls s)) ?s = Some s'" "arrays_are n b s'"
    using link.safe_run by blast
  show ?thesis
  proof (rule that)
    show "sl env c s = Some (s', sl_ret env (c # calls s))"
      by (simp add: sl_def s'(1))
    show "calls s' = c # calls s"
      using kept_calls [OF events_kept [OF s'(1)]] by simp
    show "link_of (g_ulStatus s') = fold link_step (sl_events env (c # calls s)) (link_of (g_ulStatus s))"
      using events_link [OF s'(1)] by simp
  qed (rule s'(2))
qed

text \<open>The link at the polls of a wait: after \<open>m\<close> pauses that follow the history \<open>h\<close>.\<close>

primrec link_at :: "wifi_env \<Rightarrow> wifi_call list \<Rightarrow> link \<Rightarrow> nat \<Rightarrow> link" where
  "link_at env h k 0 = k"
| "link_at env h k (Suc m) = fold link_step (sl_events env (replicate (Suc m) C_sleep @ h)) (link_at env h k m)"

definition link_up :: "link \<Rightarrow> bool" where
  "link_up k \<longleftrightarrow> assoc k \<and> acquired k"

lemma link_up_status: "link_up (link_of st) \<longleftrightarrow> IS_CONNECTED st \<and> IS_IP_ACQUIRED st"
  by (simp add: link_up_def link_of_def status_simps)

lemma link_at_shift: "link_at env (C_sleep # h) (link_at env h k 1) m = link_at env h k (Suc m)"
proof (induction m)
  case (Suc m)
  have "replicate (Suc m) C_sleep @ C_sleep # h = replicate (Suc (Suc m)) C_sleep @ h"
    by (simp add: replicate_app_Cons_same)
  then show ?case
    using Suc by (simp only: link_at.simps(2))
qed simp

text \<open>One turn of the wait.\<close>

lemma wait_turn:
  assumes "fitting n b env" "arrays_are n b s"
  obtains t where "arrays_are n b t" "calls t = C_sleep # calls s"
    "link_of (g_ulStatus t) = link_at env (calls s) (link_of (g_ulStatus s)) 1"
    "wait_associated env s = (if link_up (link_of (g_ulStatus t)) then Some (t\<lparr>led := True\<rparr>) else wait_associated env t)"
proof -
  have "arrays_are n b (s\<lparr>led := \<not> led s\<rparr>)"
    using assms(2) by (simp add: arrays_are_def)
  from sl_defined [OF assms(1) this, of C_sleep]
  obtain t where t: "sl env C_sleep (s\<lparr>led := \<not> led s\<rparr>) = Some (t, sl_ret env (C_sleep # calls s))"
    "arrays_are n b t" "calls t = C_sleep # calls s"
    "link_of (g_ulStatus t) = fold link_step (sl_events env (C_sleep # calls s)) (link_of (g_ulStatus s))"
    by auto
  show ?thesis
    by (rule that [of t]) (simp_all add: t link_up_status [symmetric] wait_associated.simps [of env s])
qed

lemma wait_associated_first:
  assumes "fitting n b env" "arrays_are n b s"
    "link_up (link_at env (calls s) (link_of (g_ulStatus s)) (Suc m))"
    "\<forall>j < m. \<not> link_up (link_at env (calls s) (link_of (g_ulStatus s)) (Suc j))"
  shows "\<exists>t. wait_associated env s = Some t \<and> arrays_are n b t \<and> calls t = replicate (Suc m) C_sleep @ calls s
           \<and> IS_CONNECTED (g_ulStatus t) \<and> IS_IP_ACQUIRED (g_ulStatus t)"
  using assms(2-)
proof (induction m arbitrary: s)
  case 0
  obtain t where "arrays_are n b t" "calls t = C_sleep # calls s"
    "link_of (g_ulStatus t) = link_at env (calls s) (link_of (g_ulStatus s)) 1"
    "wait_associated env s = (if link_up (link_of (g_ulStatus t)) then Some (t\<lparr>led := True\<rparr>) else wait_associated env t)"
    by (rule wait_turn [OF assms(1) 0(1)])
  then show ?case
    using 0(2) link_up_status [of "g_ulStatus t"] by (simp add: arrays_are_def)
next
  case (Suc m)
  obtain t where t: "arrays_are n b t" "calls t = C_sleep # calls s"
    "link_of (g_ulStatus t) = link_at env (calls s) (link_of (g_ulStatus s)) 1"
    "wait_associated env s = (if link_up (link_of (g_ulStatus t)) then Some (t\<lparr>led := True\<rparr>) else wait_associated env t)"
    by (rule wait_turn [OF assms(1) Suc(2)])
  have at: "link_at env (calls t) (link_of (g_ulStatus t)) j = link_at env (calls s) (link_of (g_ulStatus s)) (Suc j)" for j
    by (simp only: t link_at_shift)
  have "\<not> link_up (link_of (g_ulStatus t))"
    using Suc(4) t(3) by auto
  moreover have "\<exists>u. wait_associated env t = Some u \<and> arrays_are n b u \<and> calls u = replicate (Suc m) C_sleep @ calls t
           \<and> IS_CONNECTED (g_ulStatus u) \<and> IS_IP_ACQUIRED (g_ulStatus u)"
    by (rule Suc.IH [OF t(1)]) (use Suc(3,4) in \<open>auto simp only: at\<close>)
  ultimately show ?case
    using t(2,4) by (auto simp: replicate_app_Cons_same)
qed

lemma wait_associated_returns:
  assumes "fitting n b env" "wait_associated env s = Some u" "arrays_are n b s"
  shows "\<exists>m. link_up (link_at env (calls s) (link_of (g_ulStatus s)) (Suc m))"
proof -
  have "arrays_are n b s \<longrightarrow> (\<exists>m. link_up (link_at env (calls s) (link_of (g_ulStatus s)) (Suc m)))"
  proof (rule wait_associated.raw_induct [where P = "\<lambda>env' s u. env' = env \<longrightarrow> arrays_are n b s \<longrightarrow>
      (\<exists>m. link_up (link_at env (calls s) (link_of (g_ulStatus s)) (Suc m)))", THEN mp, rotated, OF assms(2) refl])
    fix wait env' s u
    assume IH: "\<And>env' s u. wait env' s = Some u \<Longrightarrow> env' = env \<longrightarrow> arrays_are n b s \<longrightarrow>
        (\<exists>m. link_up (link_at env (calls s) (link_of (g_ulStatus s)) (Suc m)))"
      and ret: "Option.bind (sl env' C_sleep (s\<lparr>led := \<not> led s\<rparr>))
          (\<lambda>r. if IS_CONNECTED (g_ulStatus (fst r)) \<and> IS_IP_ACQUIRED (g_ulStatus (fst r))
               then Some ((fst r)\<lparr>led := True\<rparr>) else wait env' (fst r)) = Some u"
    show "env' = env \<longrightarrow> arrays_are n b s \<longrightarrow>
        (\<exists>m. link_up (link_at env (calls s) (link_of (g_ulStatus s)) (Suc m)))"
    proof (intro impI)
      assume e: "env' = env" and s: "arrays_are n b s"
      have "arrays_are n b (s\<lparr>led := \<not> led s\<rparr>)"
        using s by (simp add: arrays_are_def)
      from sl_defined [OF assms(1) this, of C_sleep]
      obtain t where t: "sl env C_sleep (s\<lparr>led := \<not> led s\<rparr>) = Some (t, sl_ret env (C_sleep # calls s))"
        "arrays_are n b t" "calls t = C_sleep # calls s"
        "link_of (g_ulStatus t) = link_at env (calls s) (link_of (g_ulStatus s)) 1"
        by auto
      show "\<exists>m. link_up (link_at env (calls s) (link_of (g_ulStatus s)) (Suc m))"
      proof (cases "link_up (link_of (g_ulStatus t))")
        case True
        then show ?thesis using t(4) by (metis One_nat_def)
      next
        case False
        then have "wait env t = Some u"
          using ret t(1) by (simp add: e link_up_status [symmetric])
        then obtain m where "link_up (link_at env (calls t) (link_of (g_ulStatus t)) (Suc m))"
          using IH t(2) by blast
        then have "link_up (link_at env (calls s) (link_of (g_ulStatus s)) (Suc (Suc m)))"
          by (simp only: t link_at_shift)
        then show ?thesis ..
      qed
    qed
  qed
  with assms(3) show ?thesis by blast
qed

section \<open>Association\<close>

lemma ip_config:
  assumes "fitting n b env" "arrays_are n b s"
  obtains t a' where "Network_IF_IpConfigGet env a s = Some (t, sl_ret env (C_NetCfgGet # calls s), a')"
    "arrays_are n b t" "calls t = C_NetCfgGet # calls s"
proof -
  obtain t where "sl env C_NetCfgGet s = Some (t, sl_ret env (C_NetCfgGet # calls s))" "arrays_are n b t"
    "calls t = C_NetCfgGet # calls s"
    by (rule sl_defined [OF assms])
  moreover from this have "\<exists>a'. Network_IF_IpConfigGet env a s = Some (t, sl_ret env (C_NetCfgGet # calls s), a')"
    by (simp add: Network_IF_IpConfigGet_def Let_def)
  ultimately show ?thesis
    using that by blast
qed

lemma link_cleared:
  "link_of (CLR_STATUS_BIT (CLR_STATUS_BIT st STATUS_BIT_CONNECTION) STATUS_BIT_IP_ACQUIRED) = Link False (bit st 2) False"
  by (simp add: link_of_def status_simps)

text \<open>
  (C25) \<open>Network_IF_ConnectAP\<close>, started while not associated and with an association request that the driver accepts,
  returns if and only if the driver's events bring the link up - associated and with an address - at one of its polls,
  one second apart. It then returns after the first such poll, having made the association request, that many pauses
  and the query of the configuration, and its result is negative only when that query failed. When the link never
  comes up it waits for ever.
\<close>

theorem connect_ap_waits_for_link:
  assumes "fitting n b env" "arrays_are n b s" "\<not> IS_CONNECTED (g_ulStatus s)"
    and "h = C_WlanConnect ssid # calls s" "0 \<le> sl_ret env h"
    and "k = fold link_step (sl_events env h) (Link False (bit (g_ulStatus s) 2) False)"
  shows "((\<exists>m. link_up (link_at env h k (Suc m))) \<longleftrightarrow> Network_IF_ConnectAP env (Some ssid) s \<noteq> None)
    \<and> (\<forall>m. link_up (link_at env h k (Suc m)) \<and> (\<forall>j < m. \<not> link_up (link_at env h k (Suc j))) \<longrightarrow>
          (\<exists>s'. Network_IF_ConnectAP env (Some ssid) s
                  = Some (s', min 0 (sl_ret env (C_NetCfgGet # replicate (Suc m) C_sleep @ h)))
              \<and> calls s' = C_NetCfgGet # replicate (Suc m) C_sleep @ h))"
proof -
  let ?s2 = "s\<lparr>g_usConnectIndex := 0, g_ulStatus :=
    CLR_STATUS_BIT (CLR_STATUS_BIT (g_ulStatus s) STATUS_BIT_CONNECTION) STATUS_BIT_IP_ACQUIRED\<rparr>"
  have "arrays_are n b ?s2"
    using assms(2) by (simp add: arrays_are_def)
  from sl_defined [OF assms(1) this, of "C_WlanConnect ssid"]
  obtain s3 where s3: "sl env (C_WlanConnect ssid) ?s2 = Some (s3, sl_ret env h)" "arrays_are n b s3"
    "calls s3 = h" "link_of (g_ulStatus s3) = k"
    using assms(4,6) by (auto simp: link_cleared)
  let ?s3 = "s3\<lparr>led := True\<rparr>"
  have a3: "arrays_are n b ?s3"
    using s3(2) by (simp add: arrays_are_def)
  have body: "Network_IF_ConnectAP env (Some ssid) s =
      Option.bind (wait_associated env ?s3) (\<lambda>s4.
        do { (s5, r5, a) \<leftarrow> Network_IF_IpConfigGet env \<lparr>ip_addr = 0, ip_mask = 0, ip_gateway = 0, ip_dns = 0\<rparr> s4;
             if r5 < 0 then Some (s5, r5) else Some (s5, 0) })"
    using assms(3,5) s3(1) by (simp add: Network_IF_ConnectAP_def Network_IF_DisconnectFromAP_def Let_def)
  have first: "\<exists>s'. Network_IF_ConnectAP env (Some ssid) s
        = Some (s', min 0 (sl_ret env (C_NetCfgGet # replicate (Suc m) C_sleep @ h)))
      \<and> calls s' = C_NetCfgGet # replicate (Suc m) C_sleep @ h"
    if up: "link_up (link_at env h k (Suc m))" "\<forall>j < m. \<not> link_up (link_at env h k (Suc j))" for m
  proof -
    have "\<exists>t. wait_associated env ?s3 = Some t \<and> arrays_are n b t \<and> calls t = replicate (Suc m) C_sleep @ calls ?s3
        \<and> IS_CONNECTED (g_ulStatus t) \<and> IS_IP_ACQUIRED (g_ulStatus t)"
      by (rule wait_associated_first [OF assms(1) a3]) (use up s3(3,4) in simp_all)
    then obtain t where t: "wait_associated env ?s3 = Some t" "arrays_are n b t" "calls t = replicate (Suc m) C_sleep @ h"
      using s3(3) by auto
    obtain u a' where "Network_IF_IpConfigGet env \<lparr>ip_addr = 0, ip_mask = 0, ip_gateway = 0, ip_dns = 0\<rparr> t
        = Some (u, sl_ret env (C_NetCfgGet # calls t), a')" "calls u = C_NetCfgGet # calls t"
      by (rule ip_config [OF assms(1) t(2)])
    then show ?thesis
      using t(1,3) by (auto simp: body min_def)
  qed
  have "\<exists>m. link_up (link_at env h k (Suc m))" if "Network_IF_ConnectAP env (Some ssid) s \<noteq> None"
  proof -
    obtain t where "wait_associated env ?s3 = Some t"
      using \<open>Network_IF_ConnectAP env (Some ssid) s \<noteq> None\<close> by (cases "wait_associated env ?s3") (auto simp: body)
    from wait_associated_returns [OF assms(1) this a3] show ?thesis
      using s3(3,4) by simp
  qed
  moreover have "Network_IF_ConnectAP env (Some ssid) s \<noteq> None" if "link_up (link_at env h k (Suc m))" for m
  proof -
    define l where "l = (LEAST m. link_up (link_at env h k (Suc m)))"
    have "link_up (link_at env h k (Suc l))" "\<forall>j < l. \<not> link_up (link_at env h k (Suc j))"
      unfolding l_def using that by (auto intro: LeastI dest: not_less_Least)
    from first [OF this] show ?thesis by auto
  qed
  ultimately show ?thesis
    using first by blast
qed

text \<open>A driver that associates after the second pause and gets its address after the third.\<close>

definition wifi_env_example :: wifi_env where
  "wifi_env_example = \<lparr>sl_ret = (\<lambda>h. 0),
     sl_events = (\<lambda>h. case h of
        C_sleep # h' \<Rightarrow> (if length h' = 2 then [Wlan (SL_WLAN_EVENT_CONNECT [80, 76] [1, 2, 3, 4, 5, 6])]
                       else if length h' = 3 then [NetApp SL_NETAPP_EVENT_IPV4_ACQUIRED] else [])
      | _ \<Rightarrow> []),
     sl_ipv4 = (\<lambda>h. \<lparr>ip_addr = 1, ip_mask = 2, ip_gateway = 3, ip_dns = 4\<rparr>), sl_host = (\<lambda>h. 0),
     ROLE_STA = 0, ROLE_AP = 2\<rparr>"

lemma wifi_env_example_fits: "fitting 33 6 wifi_env_example"
  by (auto simp: fitting_def wifi_env_example_def event_fits_def split: list.splits wifi_call.splits)

lemma wifi_example_arrays: "arrays_are 33 6 wifi_example" "\<not> IS_CONNECTED (g_ulStatus wifi_example)"
  by (simp_all add: arrays_are_def wifi_example_def IS_CONNECTED_bit)

theorem connect_ap_waits_for_link_witness:
  "\<exists>s'. Network_IF_ConnectAP wifi_env_example (Some ''eduroam'') wifi_example = Some (s', 0)
     \<and> calls s' = [C_NetCfgGet, C_sleep, C_sleep, C_sleep, C_WlanConnect ''eduroam'']"
proof -
  let ?h = "[C_WlanConnect ''eduroam'']" and ?k = "Link False False False"
  have ex: "calls wifi_example = []" "g_ulStatus wifi_example = 0" "\<And>h. sl_ret wifi_env_example h = 0"
    "sl_events wifi_env_example ?h = []"
    by (simp_all add: wifi_example_def wifi_env_example_def)
  have up: "link_up (link_at wifi_env_example ?h ?k (Suc 2))
      \<and> (\<forall>j < 2. \<not> link_up (link_at wifi_env_example ?h ?k (Suc j)))"
    by (auto simp: less_Suc_eq wifi_env_example_def link_up_def numeral_2_eq_2)
  have "?h = C_WlanConnect ''eduroam'' # calls wifi_example" "0 \<le> sl_ret wifi_env_example ?h"
    "?k = fold link_step (sl_events wifi_env_example ?h) (Link False (bit (g_ulStatus wifi_example) 2) False)"
    by (simp_all add: ex)
  note connect_ap_waits_for_link [OF wifi_env_example_fits wifi_example_arrays this,
      THEN conjunct2, THEN spec [of _ 2], THEN mp, OF up]
  then show ?thesis
    by (simp add: ex numeral_2_eq_2)
qed

section \<open>Starting and stopping\<close>

lemma cleared_not_connected [simp]: "\<not> IS_CONNECTED 0"
  by (simp add: IS_CONNECTED_bit)

text \<open>
  \<open>wifi_deinit\<close> never leaves the network: it clears the status word before it asks whether the device is
  connected, so that the driver is only stopped. The driver shutdown by itself does ask for the disconnection first
  when the status says connected.
\<close>

theorem deinit_never_disconnects:
  assumes "fitting n b env" "arrays_are n b s"
  shows "(\<exists>s'. wifi_deinit env s = Some (s', sl_ret env (C_Stop # calls s)) \<and> calls s' = C_Stop # calls s
             \<and> g_ulStatus s' = 0)
    \<and> (IS_CONNECTED (g_ulStatus s) \<and> sl_ret env (C_WlanDisconnect # calls s) \<noteq> 0 \<longrightarrow>
        (\<exists>s' r. Network_IF_DeInitDriver env s = Some (s', r) \<and> calls s' = C_Stop # C_WlanDisconnect # calls s))"
proof
  have "arrays_are n b (Network_IF_ResetMCUStateMachine s)"
    using assms(2) by (simp add: arrays_are_def Network_IF_ResetMCUStateMachine_def)
  from sl_defined [OF assms(1) this, of C_Stop]
  obtain t where "sl env C_Stop (Network_IF_ResetMCUStateMachine s) = Some (t, sl_ret env (C_Stop # calls s))"
    "calls t = C_Stop # calls s"
    by (auto simp: Network_IF_ResetMCUStateMachine_def)
  then show "\<exists>s'. wifi_deinit env s = Some (s', sl_ret env (C_Stop # calls s)) \<and> calls s' = C_Stop # calls s
             \<and> g_ulStatus s' = 0"
    by (simp add: wifi_deinit_def Network_IF_DeInitDriver_def Network_IF_DisconnectFromAP_def
        Network_IF_ResetMCUStateMachine_def)
  show "IS_CONNECTED (g_ulStatus s) \<and> sl_ret env (C_WlanDisconnect # calls s) \<noteq> 0 \<longrightarrow>
        (\<exists>s' r. Network_IF_DeInitDriver env s = Some (s', r) \<and> calls s' = C_Stop # C_WlanDisconnect # calls s)"
  proof
    assume c: "IS_CONNECTED (g_ulStatus s) \<and> sl_ret env (C_WlanDisconnect # calls s) \<noteq> 0"
    obtain t where t: "sl env C_WlanDisconnect s = Some (t, sl_ret env (C_WlanDisconnect # calls s))"
      "arrays_are n b t" "calls t = C_WlanDisconnect # calls s"
      by (rule sl_defined [OF assms])
    obtain u where "sl env C_Stop t = Some (u, sl_ret env (C_Stop # calls t))" "calls u = C_Stop # calls t"
      by (rule sl_defined [OF assms(1) t(2)])
    then show "\<exists>s' r. Network_IF_DeInitDriver env s = Some (s', r) \<and> calls s' = C_Stop # C_WlanDisconnect # calls s"
      using c t by (simp add: Network_IF_DeInitDriver_def Network_IF_DisconnectFromAP_def
          Network_IF_ResetMCUStateMachine_def)
  qed
qed

theorem deinit_never_disconnects_witness:
  "\<exists>s'. wifi_deinit wifi_env_example (wifi_example\<lparr>g_ulStatus := 2\<rparr>) = Some (s', 0) \<and> calls s' = [C_Stop]"
proof -
  have "arrays_are 33 6 (wifi_example\<lparr>g_ulStatus := 2\<rparr>)"
    by (simp add: arrays_are_def wifi_example_def)
  from deinit_never_disconnects [OF wifi_env_example_fits this]
  have "\<exists>s'. wifi_deinit wifi_env_example (wifi_example\<lparr>g_ulStatus := 2\<rparr>)
      = Some (s', sl_ret wifi_env_example [C_Stop]) \<and> calls s' = [C_Stop]"
    by (auto simp: wifi_example_def)
  then show ?thesis by (simp add: wifi_env_example_def)
qed

lemma role_word: "- (2 ^ 31) \<le> r \<Longrightarrow> r < 2 ^ 31 \<Longrightarrow> (word_of_int r :: u32) = 0 \<longleftrightarrow> r = 0"
proof -
  assume r: "- (2 ^ 31) \<le> r" "r < 2 ^ 31"
  have "(word_of_int r :: u32) = 0 \<longleftrightarrow> 2 ^ 32 dvd r"
    by (simp add: word_of_int_eq_0_iff)
  then show ?thesis
    using r dvd_imp_le_int [of r "2 ^ 32"] by auto
qed

text \<open>
  Starting the driver as a station. If the device comes up as a station nothing else is done. Otherwise the mode is
  set and the device restarted; an error of either call is returned; a restart in the right mode is success, and in
  any other mode the code never returns.
\<close>

theorem init_driver_station:
  assumes "fitting n b env" "arrays_are n b s" "ROLE_AP env \<noteq> 0"
    and "\<forall>h. - (2 ^ 31) \<le> sl_ret env h \<and> sl_ret env h < 2 ^ 31"
    and "h1 = C_Start # C_RegisterEventHandler # calls s" "h2 = C_WlanSetMode 0 # h1" "h3 = C_Start # C_Stop # h2"
  shows "map_option (\<lambda>(s', r). (calls s', r)) (Network_IF_InitDriver env 0 s) =
    (if sl_ret env h1 = 0 then Some (h1, 0)
     else if sl_ret env h2 < 0 then Some (h2, sl_ret env h2)
     else if sl_ret env h3 < 0 then Some (h3, sl_ret env h3)
     else if sl_ret env h3 = 0 then Some (h3, 0) else None)"
proof -
  obtain s1 where s1: "sl env C_RegisterEventHandler s = Some (s1, sl_ret env (C_RegisterEventHandler # calls s))"
    "arrays_are n b s1" "calls s1 = C_RegisterEventHandler # calls s"
    by (rule sl_defined [OF assms(1,2)])
  have "arrays_are n b (InitializeAppVariables s1)" "calls (InitializeAppVariables s1) = calls s1"
    using s1(2) by (simp_all add: arrays_are_def InitializeAppVariables_def)
  with s1(3) obtain s2 where s2: "sl env C_Start (InitializeAppVariables s1) = Some (s2, sl_ret env h1)"
    "arrays_are n b s2" "calls s2 = h1"
    using sl_defined [OF assms(1), of "InitializeAppVariables s1" C_Start] assms(5) by metis
  obtain s3 where s3: "sl env (C_WlanSetMode 0) s2 = Some (s3, sl_ret env h2)" "arrays_are n b s3" "calls s3 = h2"
    using sl_defined [OF assms(1) s2(2), of "C_WlanSetMode 0"] s2(3) assms(6) by metis
  obtain s4 where s4: "sl env C_Stop s3 = Some (s4, sl_ret env (C_Stop # h2))" "arrays_are n b s4" "calls s4 = C_Stop # h2"
    using sl_defined [OF assms(1) s3(2), of C_Stop] s3(3) by metis
  obtain s5 where s5: "sl env C_Start s4 = Some (s5, sl_ret env h3)" "calls s5 = h3"
    using sl_defined [OF assms(1) s4(2), of C_Start] s4(3) assms(7) by metis
  have w: "(word_of_int (sl_ret env h) :: u32) = 0 \<longleftrightarrow> sl_ret env h = 0" for h
    using assms(4) role_word by blast
  show ?thesis
    using assms(3) s2(3) s3(3) s5(2)
    by (auto simp: Network_IF_InitDriver_def s1(1) s2(1) s3(1) s4(1) s5(1) w eq_commute [of "0 :: u32"])
qed

theorem init_driver_station_witness:
  "map_option (\<lambda>(s', r). (calls s', r)) (Network_IF_InitDriver wifi_env_example 0 wifi_example)
     = Some ([C_Start, C_RegisterEventHandler], 0)"
  using init_driver_station [OF wifi_env_example_fits wifi_example_arrays(1) _ _ refl refl refl]
  by (simp add: wifi_env_example_def wifi_example_def)

section \<open>What is reported\<close>

text \<open>
  The name on the console is not the name of the network: a network whose name is shorter than that of the previous
  one is reported with the tail of the old name, because the array is overwritten without a terminator.
\<close>

theorem stale_network_name:
  assumes "length n2 < length n1" "length n1 < n" "0 \<notin> set n1" "0 \<notin> set n2"
    and "length b1 = b" "length b2 = b" "arrays_are n b s" "g_ucConnectionSSID s = replicate n 0"
  shows "\<exists>s' f bs. run sl_event_handler [Wlan (SL_WLAN_EVENT_CONNECT n1 b1), Wlan (SL_WLAN_EVENT_DISCONNECT True),
            Wlan (SL_WLAN_EVENT_CONNECT n2 b2)] s = Some s'
    \<and> last (console s') = (f, Str (n2 @ drop (length n2) n1) # bs) \<and> IS_CONNECTED (g_ulStatus s')"
proof -
  have bs: "poke (g_ucConnectionBSSID s) 0 b1 = Some b1" "poke b1 0 b2 = Some b2"
    using assms(5-7) by (simp_all add: arrays_are_def)
  have n1: "poke (replicate n 0) 0 n1 = Some (n1 @ replicate (n - length n1) 0)"
    using assms(2) by simp
  have n2: "poke (n1 @ replicate (n - length n1) 0) 0 n2
      = Some (n2 @ drop (length n2) n1 @ replicate (n - length n1) 0)"
    using assms(1,2) by simp
  have "c_str (n2 @ drop (length n2) n1 @ replicate (n - length n1) 0) = n2 @ drop (length n2) n1"
  proof -
    have "0 \<notin> set (n2 @ drop (length n2) n1)"
      using assms(3,4) by (auto dest: in_set_dropD)
    then have "c_str ((n2 @ drop (length n2) n1) @ replicate (n - length n1) 0)
        = (n2 @ drop (length n2) n1) @ c_str (replicate (n - length n1) 0)"
      unfolding c_str_def by (intro takeWhile_append2) auto
    moreover have "c_str (replicate (n - length n1) 0) = []"
      by (cases "n - length n1") (simp_all add: c_str_def)
    ultimately show ?thesis by simp
  qed
  then show ?thesis
    using assms(5-8) bs n1 n2
    by (simp add: sl_event_handler_def SimpleLinkWlanEventHandler_def UART_PRINT_def arrays_are_def IS_CONNECTED_bit
        bit_SET status_bits del: poke_Some)
qed

theorem stale_network_name_witness:
  "\<exists>s' f bs. run sl_event_handler [Wlan (SL_WLAN_EVENT_CONNECT [80, 76, 72, 82] [1, 2, 3, 4, 5, 6]),
       Wlan (SL_WLAN_EVENT_DISCONNECT True), Wlan (SL_WLAN_EVENT_CONNECT [65, 66] [1, 2, 3, 4, 5, 6])] wifi_example = Some s'
    \<and> last (console s') = (f, Str [65, 66, 72, 82] # bs)"
  using stale_network_name [of "[65, 66]" "[80, 76, 72, 82]" 33 "[1, 2, 3, 4, 5, 6]" 6 "[1, 2, 3, 4, 5, 6]" wifi_example]
    wifi_example_arrays(1)
  by (simp add: wifi_example_def del: run.simps) blast

lemma sl_quiet:
  assumes "sl_events env = (\<lambda>h. [])"
  shows "sl env c s = Some (s\<lparr>calls := c # calls s\<rparr>, sl_ret env (c # calls s))"
  using assms by (simp add: sl_def Let_def)

text \<open>
  \<open>wifi_connect\<close> hides a refused association: when the driver rejects the request, the remaining configuration is
  done all the same, and the result is that of the last driver call, not the error, although the device is not
  associated.
\<close>

theorem wifi_connect_masks_refusal:
  assumes "sl_events env = (\<lambda>h. [])" "\<not> IS_CONNECTED (g_ulStatus s)"
    and "sl_ret env (C_WlanConnect SSID_NAME # C_WlanSet # C_ProfileDel # calls s) < 0"
    and "h = [C_DeviceStatStart, C_PolicyPm, C_PolicyConnection, C_ProfileAdd SSID_NAME, C_WlanConnect SSID_NAME,
              C_WlanSet, C_ProfileDel] @ calls s"
  shows "\<exists>s'. wifi_connect env s = Some (s', sl_ret env h) \<and> calls s' = h \<and> \<not> IS_CONNECTED (g_ulStatus s')"
  using assms(2-)
  by (simp add: wifi_connect_def sl_quiet [OF assms(1)] Network_IF_ConnectAP_def Network_IF_DisconnectFromAP_def
      Let_def status_simps)

theorem wifi_connect_masks_refusal_witness:
  "\<exists>s'. wifi_connect (wifi_env_example\<lparr>sl_events := \<lambda>h. [],
       sl_ret := \<lambda>h. if hd h = C_WlanConnect SSID_NAME then - 1 else 0\<rparr>) wifi_example = Some (s', 0)
     \<and> \<not> IS_CONNECTED (g_ulStatus s')"
  using wifi_connect_masks_refusal [of "wifi_env_example\<lparr>sl_events := \<lambda>h. [],
       sl_ret := \<lambda>h. if hd h = C_WlanConnect SSID_NAME then - 1 else 0\<rparr>" wifi_example, OF _ wifi_example_arrays(2) _ refl]
  by auto

end
