(* ===== verification/Mqtt_If_Props.thy ===== *)
theory Mqtt_If_Props
  imports Mqtt_If
begin

text \<open>
  The correctness of \<open>Mqtt_If\<close>: the linked list of subscriptions as an abstract list, the effect of every
  operation on it, the invariant of the module and the behaviours that break it.
\<close>

section \<open>Lists in the heap\<close>

fun lst :: "(nat \<rightharpoonup> Node) \<Rightarrow> nat option \<Rightarrow> nat list \<Rightarrow> bool" where
  "lst h p [] \<longleftrightarrow> p = None"
| "lst h p (a # as) \<longleftrightarrow> p = Some a \<and> (\<exists>n. h a = Some n \<and> lst h (n_next n) as)"

lemma lst_None [simp]: "lst h None as \<longleftrightarrow> as = []"
  by (cases as) auto

lemma lst_unique: "lst h p as \<Longrightarrow> lst h p bs \<Longrightarrow> as = bs"
proof (induction as arbitrary: p bs)
  case (Cons a as)
  then show ?case by (cases bs) auto
qed auto

lemma lst_suffix: "lst h p (xs @ a # ys) \<Longrightarrow> lst h (Some a) (a # ys)"
  by (induction xs arbitrary: p) auto

lemma lst_distinct: "lst h p as \<Longrightarrow> distinct as"
proof (induction as arbitrary: p)
  case (Cons a as)
  have "a \<notin> set as"
  proof
    assume "a \<in> set as"
    then obtain xs ys where as: "as = xs @ a # ys" by (meson split_list)
    have "lst h (Some a) (a # ys)" using Cons.prems as lst_suffix [of h p "a # xs" a ys] by simp
    moreover have "lst h (Some a) (a # as)" using Cons.prems by simp
    ultimately have "a # ys = a # as" by (rule lst_unique)
    then show False using as by simp
  qed
  then show ?case using Cons by auto
qed simp

lemma lst_upd [simp]: "a \<notin> set as \<Longrightarrow> lst (h(a := x)) p as = lst h p as"
  by (induction as arbitrary: p) auto

lemma lst_in_dom: "lst h p as \<Longrightarrow> a \<in> set as \<Longrightarrow> \<exists>n. h a = Some n"
  by (induction as arbitrary: p) auto

lemma lst_ex: "lst h p as \<Longrightarrow> p = (case as of [] \<Rightarrow> None | a # _ \<Rightarrow> Some a)"
  by (cases as) auto

text \<open>Unlinking the part \<open>sk @ [a]\<close> behind the node \<open>q\<close>.\<close>

lemma lst_unlink:
  assumes "lst h p (xs @ q # sk @ a # ys)" "h q = Some nq" "h a = Some na"
    and h': "h' = h(q \<mapsto> nq\<lparr>n_next := n_next na\<rparr>, a := None)"
  shows "lst h' p (xs @ q # ys)"
  using assms(1)
proof (induction xs arbitrary: p)
  case Nil
  have d: "distinct (q # sk @ a # ys)" using lst_distinct [OF Nil] by simp
  have "lst h (Some a) (a # ys)" using lst_suffix [of h p "q # sk" a ys] Nil by simp
  then have "lst h (n_next na) ys" using assms(3) by simp
  then have "lst h' (n_next na) ys"
    unfolding h' using d by (simp only: lst_upd distinct.simps distinct_append set_append list.set Un_iff insert_iff) auto
  moreover have "h' q = Some (nq\<lparr>n_next := n_next na\<rparr>)" unfolding h' using d by auto
  moreover have "p = Some q" using Nil by simp
  ultimately show ?case by simp
next
  case (Cons x xs)
  have d: "distinct (x # xs @ q # sk @ a # ys)" using lst_distinct [OF Cons.prems(1)] by simp
  obtain n where n: "h x = Some n" "lst h (n_next n) (xs @ q # sk @ a # ys)" "p = Some x"
    using Cons.prems by auto
  have "h' x = Some n" unfolding h' using d n(1) by auto
  with Cons.IH [OF n(2)] n(3) show ?case by simp
qed

section \<open>Subscriptions\<close>

definition sub_of :: "Node \<Rightarrow> string \<times> nat \<times> nat" where
  "sub_of n = (n_topic n, n_qos n, topicCB n)"

definition subs :: "mqttContext \<Rightarrow> nat list \<Rightarrow> (string \<times> nat \<times> nat) list" where
  "subs s as = map (\<lambda>a. sub_of (the (nodes s a))) as"

text \<open>The invariant: nobody holds the mutex, which exists once the module is initialised, and the list is intact.\<close>

definition if_ok :: "mqttContext \<Rightarrow> nat list \<Rightarrow> bool" where
  "if_ok s as \<longleftrightarrow> \<not> locked s \<and> lst (nodes s) (head s) as
     \<and> (moduleState s \<noteq> MQTT_STATE_IDLE \<longrightarrow> moduleMutex s)"

lemma if_ok_lock: "if_ok s as \<Longrightarrow> moduleState s \<noteq> MQTT_STATE_IDLE \<Longrightarrow> lock s = Some (s\<lparr>locked := True\<rparr>)"
  by (simp add: if_ok_def lock_def)

text \<open>
  A subscription that the client accepts, or that is made while the module is not connected, adds one node
  in front of the list and keeps all others; the result is that of the client, or zero.
\<close>

theorem subscribe_adds_topic:
  assumes "if_ok s as" "moduleState s \<noteq> MQTT_STATE_IDLE" "nodes s a = None"
    and "moduleState s = MQTT_STATE_CONNECTED \<Longrightarrow> 0 \<le> sub_ret"
  shows "\<exists>s'. MQTT_IF_Subscribe (Some a) True sub_ret topic qos cb s
      = Some (s', if moduleState s = MQTT_STATE_CONNECTED then sub_ret else 0)
    \<and> if_ok s' (a # as) \<and> subs s' (a # as) = (topic, qos, cb) # subs s as
    \<and> moduleState s' = moduleState s \<and> msgQueue s' = msgQueue s \<and> cb_calls s' = cb_calls s"
proof -
  have "a \<notin> set as" using assms(1,3) lst_in_dom [of "nodes s" "head s" as a] by (auto simp: if_ok_def)
  moreover from this have "subs (s\<lparr>nodes := (nodes s)(a \<mapsto> n), head := Some a\<rparr>) as = subs s as" for n
    by (simp add: subs_def)
  ultimately show ?thesis
    using assms if_ok_lock [OF assms(1,2)]
    by (auto simp: MQTT_IF_Subscribe_def unlock_def if_ok_def subs_def sub_of_def Let_def)
qed

text \<open>
  A subscription that the client refuses frees its node but leaves it at the head of the list: from then on
  the handling of a received message or of a CONNACK and the deinitialisation all read freed memory.
\<close>

theorem refused_subscription_dangles:
  assumes "if_ok s as" "moduleState s = MQTT_STATE_CONNECTED" "sub_ret < 0"
    and "MQTT_IF_Subscribe (Some a) True sub_ret topic qos cb s = Some (s', r)"
  shows "r = sub_ret \<and> head s' = Some a \<and> nodes s' a = None
    \<and> (q_event q = MQTT_EVENT_RECV \<longrightarrow> app_handle rets q s' = None)
    \<and> (q_event q = MQTT_EVENT_CONNACK \<longrightarrow> app_handle rets q s' = None)
    \<and> MQTT_IF_Deinit True (s'\<lparr>moduleState := MQTT_STATE_INITIALIZED\<rparr>) = None"
proof -
  have m: "moduleMutex s" "\<not> locked s" using assms(1,2) by (auto simp: if_ok_def)
  have s': "r = sub_ret" "head s' = Some a" "nodes s' a = None" "moduleMutex s'" "\<not> locked s'"
    using assms(2-4) m by (auto simp: MQTT_IF_Subscribe_def lock_def unlock_def free_node_def Let_def)
  have "app_search q a (s'\<lparr>locked := True\<rparr>) = None"
    using s' by (simp add: app_search.simps)
  moreover have "resubscribe rets (Some a) None (s'\<lparr>locked := True\<rparr>) = None"
    using s' by (cases rets) simp_all
  moreover have "free_topics (s'\<lparr>moduleState := MQTT_STATE_INITIALIZED, locked := True, msgQueue := u\<rparr>) = None" for u
    using s' by (simp add: free_topics.simps)
  ultimately show ?thesis
    using s' by (auto simp: app_handle_def MQTT_IF_Deinit_def lock_def mq_send_def split: if_splits)
qed

lemma refused_subscription_dangles_witness:
  "\<exists>s' r. MQTT_IF_Subscribe (Some 7) True (- 4) ''t'' 0 1
      (mMQTTContext_init\<lparr>moduleMutex := True, moduleState := MQTT_STATE_CONNECTED\<rparr>) = Some (s', r)
    \<and> head s' = Some 7 \<and> nodes s' 7 = None"
proof -
  let ?s = "mMQTTContext_init\<lparr>moduleMutex := True, moduleState := MQTT_STATE_CONNECTED\<rparr>"
  have s: "if_ok ?s []" "moduleState ?s = MQTT_STATE_CONNECTED"
    by (simp_all add: if_ok_def mMQTTContext_init_def)
  obtain s' r where x: "MQTT_IF_Subscribe (Some 7) True (- 4) ''t'' 0 1 ?s = Some (s', r)"
    by (simp add: MQTT_IF_Subscribe_def lock_def unlock_def free_node_def mMQTTContext_init_def)
  from refused_subscription_dangles [OF s _ x, of "event_elem MQTT_EVENT_CONNACK" "[]"] x
  show ?thesis by auto
qed

lemma subscribe_adds_topic_witness:
  "\<exists>s'. MQTT_IF_Subscribe (Some 7) True 0 ''t'' 0 1
      (mMQTTContext_init\<lparr>moduleMutex := True, moduleState := MQTT_STATE_CONNECTED\<rparr>) = Some (s', 0)
    \<and> if_ok s' [7] \<and> subs s' [7] = [(''t'', 0, 1)]"
proof -
  let ?s = "mMQTTContext_init\<lparr>moduleMutex := True, moduleState := MQTT_STATE_CONNECTED\<rparr>"
  have "if_ok ?s []" "moduleState ?s \<noteq> MQTT_STATE_IDLE" "nodes ?s 7 = None"
    by (simp_all add: if_ok_def mMQTTContext_init_def)
  from subscribe_adds_topic [OF this, of 0 "''t''" 0 1] show ?thesis
    by (auto simp: subs_def mMQTTContext_init_def)
qed

section \<open>Search, removal, deinitialisation\<close>

abbreviation node_match :: "mqttContext \<Rightarrow> string \<Rightarrow> nat \<Rightarrow> int option" where
  "node_match s topic a \<equiv> MQTTHelperTopicMatching (n_topic (the (nodes s a))) (Some topic)"

lemma app_search_find:
  assumes "lst (nodes s) (Some c) as" "\<forall>a\<in>set as. node_match s (q_topic q) a \<noteq> None"
  shows "app_search q c s = Some (s\<lparr>cb_calls := cb_calls s @
    (case find (\<lambda>a. node_match s (q_topic q) a = Some 1) as of
       None \<Rightarrow> []
     | Some a \<Rightarrow> [TopicCB (topicCB (the (nodes s a))) (q_topic q) (q_payload q) (q_qos q)])\<rparr>)"
  using assms
proof (induction as arbitrary: c)
  case (Cons a as)
  then obtain n where n: "c = a" "nodes s a = Some n" "lst (nodes s) (n_next n) as" by auto
  obtain r where r: "MQTTHelperTopicMatching (n_topic n) (Some (q_topic q)) = Some r"
    using Cons.prems(2) n(2) by auto
  show ?case
  proof (cases "r = 1")
    case True
    then show ?thesis using n r by (simp add: app_search.simps [of q a])
  next
    case False
    show ?thesis
    proof (cases "n_next n")
      case None
      then have "as = []" using n(3) by simp
      then show ?thesis using n r None False by (simp add: app_search.simps [of q a])
    next
      case (Some b)
      then show ?thesis
        using n r False Cons.IH [of b] Cons.prems(2) by (simp add: app_search.simps [of q a])
    qed
  qed
qed simp

text \<open>The search for the node, with the mutex.\<close>

lemma recv_dispatch:
  assumes "if_ok s as" "moduleState s \<noteq> MQTT_STATE_IDLE" "q_event q = MQTT_EVENT_RECV"
    and "\<forall>a\<in>set as. node_match s (q_topic q) a \<noteq> None"
  shows "app_handle rets q s = Some (s\<lparr>cb_calls := cb_calls s @
    (case find (\<lambda>a. node_match s (q_topic q) a = Some 1) as of
       None \<Rightarrow> []
     | Some a \<Rightarrow> [TopicCB (topicCB (the (nodes s a))) (q_topic q) (q_payload q) (q_qos q)])\<rparr>, False)"
proof -
  have l: "lst (nodes s) (head s) as" "\<not> locked s" "moduleMutex s"
    using assms(1,2) by (auto simp: if_ok_def)
  have u: "s\<lparr>locked := False\<rparr> = s" "s\<lparr>locked := False, cb_calls := x\<rparr> = s\<lparr>cb_calls := x\<rparr>" for x
    using l(2) by (cases s; simp)+
  show ?thesis
  proof (cases "head s")
    case None
    then show ?thesis
      using l assms(3) if_ok_lock [OF assms(1,2)] u by (simp add: app_handle_def unlock_def)
  next
    case (Some c)
    then have "app_search q c (s\<lparr>locked := True\<rparr>) = Some (s\<lparr>locked := True, cb_calls := cb_calls s @
      (case find (\<lambda>a. node_match s (q_topic q) a = Some 1) as of
         None \<Rightarrow> []
       | Some a \<Rightarrow> [TopicCB (topicCB (the (nodes s a))) (q_topic q) (q_payload q) (q_qos q)])\<rparr>)"
      using app_search_find [of "s\<lparr>locked := True\<rparr>" c as q] l assms(4) by (simp cong: option.case_cong)
    then show ?thesis
      using l assms(3) if_ok_lock [OF assms(1,2)] u Some by (simp add: app_handle_def unlock_def)
  qed
qed

text \<open>
  (C23) A received message is handed to the callback of the first node whose filter matches its topic, once, and to no
  other; without such a node it is dropped. The module is otherwise unchanged, with the mutex released.
\<close>

theorem received_message_dispatch:
  assumes "if_ok s as" "moduleState s \<noteq> MQTT_STATE_IDLE" "q_event q = MQTT_EVENT_RECV"
    and "\<forall>a\<in>set as. node_match s (q_topic q) a \<noteq> None"
  shows "app_handle rets q s = Some (s\<lparr>cb_calls := cb_calls s @
    (case find (\<lambda>a. node_match s (q_topic q) a = Some 1) as of
       None \<Rightarrow> []
     | Some a \<Rightarrow> [TopicCB (topicCB (the (nodes s a))) (q_topic q) (q_payload q) (q_qos q)])\<rparr>, False)"
  by (rule recv_dispatch [OF assms])

lemma received_message_dispatch_witness:
  "\<exists>s. app_handle [] \<lparr>q_event = MQTT_EVENT_RECV, q_topic = ''a'', q_payload = [1, 0], q_qos = 0\<rparr> s
      = Some (s\<lparr>cb_calls := cb_calls s @ [TopicCB 5 ''a'' [1, 0] 0]\<rparr>, False)"
proof -
  let ?s = "mMQTTContext_init\<lparr>moduleMutex := True, moduleState := MQTT_STATE_CONNECTED,
    nodes := [7 \<mapsto> \<lparr>n_topic = ''a'', n_qos = 0, topicCB = 5, n_next = None\<rparr>], head := Some 7\<rparr>"
  let ?q = "\<lparr>q_event = MQTT_EVENT_RECV, q_topic = ''a'', q_payload = [1, 0], q_qos = 0\<rparr>"
  have m: "MQTTHelperTopicMatching ''a'' (Some ''a'') = Some 1"
    by (simp add: MQTTHelperTopicMatching.simps starts_def memcmp_eq_def)
  have "if_ok ?s [7]" "moduleState ?s \<noteq> MQTT_STATE_IDLE" "q_event ?q = MQTT_EVENT_RECV"
    "\<forall>a\<in>set [7]. node_match ?s (q_topic ?q) a \<noteq> None"
    by (simp_all add: if_ok_def mMQTTContext_init_def m)
  from received_message_dispatch [OF this, of "[]"] show ?thesis
    by (intro exI [of _ ?s]) (simp add: m)
qed

text \<open>The list without the first element that satisfies a predicate.\<close>

fun remove_first :: "('a \<Rightarrow> bool) \<Rightarrow> 'a list \<Rightarrow> 'a list" where
  "remove_first P [] = []"
| "remove_first P (x # xs) = (if P x then xs else x # remove_first P xs)"

lemma remove_first_map: "map f (remove_first (\<lambda>x. P (f x)) xs) = remove_first P (map f xs)"
  by (induction xs) auto

lemma remove_first_split:
  "(\<forall>x\<in>set us. \<not> P x) \<Longrightarrow> P a \<Longrightarrow> remove_first P (us @ a # vs) = us @ vs"
  by (induction us) auto

text \<open>Up to the first match the loop only moves on.\<close>

lemma unsub_loop_skip:
  assumes "lst (nodes s) (head s) (xs @ us @ ys)" "\<forall>a\<in>set us. node_match s topic a \<noteq> None \<and> node_match s topic a \<noteq> Some 1"
  shows "unsub_loop topic (case us @ ys of [] \<Rightarrow> None | a # _ \<Rightarrow> Some a)
      (if xs = [] then None else Some (last xs)) s
    = unsub_loop topic (case ys of [] \<Rightarrow> None | a # _ \<Rightarrow> Some a)
      (if xs @ us = [] then None else Some (last (xs @ us))) s"
  using assms
proof (induction us arbitrary: xs)
  case (Cons u us)
  have l: "lst (nodes s) (Some u) (u # us @ ys)"
    using Cons.prems(1) lst_suffix [of "nodes s" "head s" xs u "us @ ys"] by simp
  then obtain n where n: "nodes s u = Some n" "lst (nodes s) (n_next n) (us @ ys)" by auto
  then have nx: "n_next n = (case us @ ys of [] \<Rightarrow> None | a # _ \<Rightarrow> Some a)" using lst_ex by blast
  obtain r where r: "MQTTHelperTopicMatching (n_topic n) (Some topic) = Some r" "r \<noteq> 1"
    using Cons.prems(2) n(1) by auto
  have "unsub_loop topic (Some u) p s = unsub_loop topic (n_next n) (Some u) s" for p
    using n(1) r by (simp add: unsub_loop.simps [of topic "Some u"])
  then show ?case using Cons.IH [of "xs @ [u]"] Cons.prems nx by simp
qed simp

text \<open>Unlinking a node of the list, at the head or behind another node.\<close>

lemma unsub_loop_found:
  assumes l: "lst (nodes s) (head s) (us @ a # vs)" and m: "node_match s topic a = Some 1"
  shows "\<exists>s'. unsub_loop topic (Some a) (if us = [] then None else Some (last us)) s = Some (s', Some 1)
    \<and> lst (nodes s') (head s') (us @ vs) \<and> dom (nodes s') = dom (nodes s) - {a}
    \<and> subs s' (us @ vs) = subs s (us @ vs) \<and> locked s' = locked s \<and> moduleMutex s' = moduleMutex s
    \<and> moduleState s' = moduleState s"
proof -
  have d: "distinct (us @ a # vs)" by (rule lst_distinct [OF l])
  have "lst (nodes s) (Some a) (a # vs)" using lst_suffix [OF l] .
  then obtain n where n: "nodes s a = Some n" "lst (nodes s) (n_next n) vs" by auto
  show ?thesis
  proof (cases us rule: rev_cases)
    case Nil
    then have "head s = Some a" using l by simp
    let ?s = "s\<lparr>head := n_next n, nodes := (nodes s)(a := None)\<rparr>"
    have "unsub_loop topic (Some a) None s = Some (?s, Some 1)"
      using n(1) m \<open>head s = Some a\<close> by (simp add: unsub_loop.simps [of topic "Some a"] free_node_def)
    moreover have "lst (nodes ?s) (head ?s) vs" using n(2) d by simp
    moreover have "subs ?s vs = subs s vs" using d by (auto simp: subs_def)
    ultimately show ?thesis using Nil by (intro exI [of _ ?s]) auto
  next
    case (snoc xs q)
    then obtain nq where nq: "nodes s q = Some nq" using lst_in_dom [OF l, of q] by auto
    have hd: "head s \<noteq> Some a"
      using l d snoc by (cases xs) auto
    have aq: "a \<noteq> q" using d snoc by auto
    let ?h = "(nodes s)(q \<mapsto> nq\<lparr>n_next := n_next n\<rparr>, a := None)"
    have "unsub_loop topic (Some a) (Some q) s = Some (s\<lparr>nodes := ?h\<rparr>, Some 1)"
      using n(1) m hd nq aq by (simp add: unsub_loop.simps [of topic "Some a"] set_next_def free_node_def)
    moreover have "lst ?h (head s) (xs @ q # vs)"
      by (rule lst_unlink [where sk = "[]", OF _ nq n(1) refl]) (use l snoc in simp)
    moreover have "subs (s\<lparr>nodes := ?h\<rparr>) (us @ vs) = subs s (us @ vs)"
      using d nq snoc by (auto simp: subs_def sub_of_def)
    moreover have "dom ?h = dom (nodes s) - {a}" using nq aq by auto
    ultimately show ?thesis using snoc by (intro exI [of _ "s\<lparr>nodes := ?h\<rparr>"]) simp
  qed
qed

text \<open>The unsubscription of a topic that a filter of the list matches.\<close>

lemma unsubscribe_found:
  assumes "if_ok s as" "moduleState s = MQTT_STATE_CONNECTED" "0 \<le> unsub_ret"
    and "as = us @ a # vs" "node_match s topic a = Some 1"
    and "\<forall>u\<in>set us. node_match s topic u \<noteq> None \<and> node_match s topic u \<noteq> Some 1"
  shows "\<exists>s'. MQTT_IF_Unsubscribe unsub_ret topic s = Some (s', 1) \<and> if_ok s' (us @ vs)
    \<and> subs s' (us @ vs) = remove_first (\<lambda>(t, _). MQTTHelperTopicMatching t (Some topic) = Some 1) (subs s as)
    \<and> dom (nodes s') = dom (nodes s) - {a} \<and> moduleState s' = MQTT_STATE_CONNECTED"
proof -
  let ?s = "s\<lparr>locked := True\<rparr>"
  have l: "lst (nodes ?s) (head ?s) ([] @ us @ a # vs)" and m: "moduleMutex s" "\<not> locked s"
    using assms(1,2,4) by (auto simp: if_ok_def)
  have m': "node_match ?s topic a = Some 1"
    "\<forall>u\<in>set us. node_match ?s topic u \<noteq> None \<and> node_match ?s topic u \<noteq> Some 1"
    using assms(5,6) by simp_all
  have "head ?s = (case us @ a # vs of [] \<Rightarrow> None | x # _ \<Rightarrow> Some x)"
    using lst_ex [OF l] by simp
  then have skip: "unsub_loop topic (head ?s) None ?s
      = unsub_loop topic (Some a) (if us = [] then None else Some (last us)) ?s"
    using unsub_loop_skip [OF l m'(2)] by simp
  have l': "lst (nodes ?s) (head ?s) (us @ a # vs)" using l by simp
  from unsub_loop_found [OF l' m'(1)] obtain s1 where
    s1: "unsub_loop topic (head ?s) None ?s = Some (s1, Some 1)"
    "lst (nodes s1) (head s1) (us @ vs)" "dom (nodes s1) = dom (nodes ?s) - {a}"
    "subs s1 (us @ vs) = subs ?s (us @ vs)" "locked s1 = locked ?s" "moduleMutex s1 = moduleMutex ?s"
    "moduleState s1 = moduleState ?s"
    unfolding skip by blast
  have subs: "subs ?s = subs s" by (simp add: subs_def fun_eq_iff)
  have "subs s (us @ vs) = remove_first (\<lambda>(t, _). MQTTHelperTopicMatching t (Some topic) = Some 1) (subs s as)"
    unfolding assms(4) subs_def map_append list.map
    by (subst remove_first_split) (use assms(5,6) in \<open>auto simp: sub_of_def\<close>)
  then show ?thesis
    using s1 m assms(2,3) subs
    by (intro exI [of _ "s1\<lparr>locked := False\<rparr>"])
      (simp add: MQTT_IF_Unsubscribe_def lock_def unlock_def if_ok_def subs_def)
qed

text \<open>
  (C31) A successful unsubscription removes the first subscription whose filter matches the topic, frees its
  node and no other, and keeps the rest of the list; it returns 1, although its description promises 0.
\<close>

theorem unsubscribe_removes_first_match:
  assumes "if_ok s as" "moduleState s = MQTT_STATE_CONNECTED" "0 \<le> unsub_ret"
    and "as = us @ a # vs" "node_match s topic a = Some 1"
    and "\<forall>u\<in>set us. node_match s topic u \<noteq> None \<and> node_match s topic u \<noteq> Some 1"
  shows "\<exists>s'. MQTT_IF_Unsubscribe unsub_ret topic s = Some (s', 1) \<and> if_ok s' (us @ vs)
    \<and> subs s' (us @ vs) = remove_first (\<lambda>(t, _). MQTTHelperTopicMatching t (Some topic) = Some 1) (subs s as)
    \<and> dom (nodes s') = dom (nodes s) - {a} \<and> moduleState s' = MQTT_STATE_CONNECTED"
  by (rule unsubscribe_found [OF assms])

text \<open>Two nodes for the examples: \<open>a/b\<close> at address 7 and \<open>c\<close> at address 8.\<close>

definition two_topics :: mqttContext where
  "two_topics = mMQTTContext_init\<lparr>moduleMutex := True, eventCB := True, moduleState := MQTT_STATE_CONNECTED,
     nodes := [7 \<mapsto> \<lparr>n_topic = ''a/b'', n_qos = 0, topicCB = 5, n_next = Some 8\<rparr>,
               8 \<mapsto> \<lparr>n_topic = ''c'', n_qos = 0, topicCB = 6, n_next = None\<rparr>], head := Some 7\<rparr>"

lemma two_topics_ok: "if_ok two_topics [7, 8]" "moduleState two_topics = MQTT_STATE_CONNECTED"
  by (simp_all add: if_ok_def two_topics_def mMQTTContext_init_def)

lemma two_topics_match [simp]:
  "node_match two_topics ''c'' 7 = Some 0" "node_match two_topics ''c'' 8 = Some 1"
  "node_match two_topics ''d'' 7 = Some 0" "node_match two_topics ''d'' 8 = Some 0"
  by (simp_all add: two_topics_def MQTTHelperTopicMatching.simps starts_def memcmp_eq_def seg_len_def
      string_end_def)

lemma unsubscribe_removes_first_match_witness:
  "\<exists>s'. MQTT_IF_Unsubscribe 0 ''c'' two_topics = Some (s', 1) \<and> if_ok s' [7]
    \<and> dom (nodes s') = dom (nodes two_topics) - {8}"
  using unsubscribe_removes_first_match [OF two_topics_ok, of 0 "[7]" 8 "[]" "''c''"] by auto

text \<open>
  An unsubscription that the broker accepts and that matches no node releases the mutex a second time,
  which is undefined.
\<close>

theorem unsubscribe_unknown_topic:
  assumes "if_ok s as" "moduleState s = MQTT_STATE_CONNECTED" "0 \<le> unsub_ret"
    and "\<forall>u\<in>set as. node_match s topic u \<noteq> None \<and> node_match s topic u \<noteq> Some 1"
  shows "MQTT_IF_Unsubscribe unsub_ret topic s = None"
proof -
  let ?s = "s\<lparr>locked := True\<rparr>"
  have l: "lst (nodes ?s) (head ?s) ([] @ as @ [])" and m: "moduleMutex s" "\<not> locked s"
    using assms(1,2) by (auto simp: if_ok_def)
  have "\<forall>u\<in>set as. node_match ?s topic u \<noteq> None \<and> node_match ?s topic u \<noteq> Some 1"
    using assms(4) by simp
  from unsub_loop_skip [OF l this] lst_ex [OF l]
  have "unsub_loop topic (head ?s) None ?s = Some (?s, None)"
    by (simp add: unsub_loop.simps [of _ None])
  then show ?thesis
    using m assms(2,3) by (simp add: MQTT_IF_Unsubscribe_def lock_def unlock_def)
qed

lemma unsubscribe_unknown_topic_witness: "MQTT_IF_Unsubscribe 0 ''d'' two_topics = None"
  using unsubscribe_unknown_topic [OF two_topics_ok, of 0 "''d''"] by simp

lemma free_topics_all:
  assumes "lst (nodes s) (head s) as"
  shows "\<exists>s'. free_topics s = Some s' \<and> head s' = None \<and> dom (nodes s') = dom (nodes s) - set as
    \<and> s' = s\<lparr>head := None, nodes := nodes s'\<rparr>"
  using assms
proof (induction as arbitrary: s)
  case Nil
  then show ?case by (cases s) (simp add: free_topics.simps)
next
  case (Cons a as)
  then obtain n where n: "head s = Some a" "nodes s a = Some n" "lst (nodes s) (n_next n) as" by auto
  have "a \<notin> set as" using lst_distinct [OF Cons.prems] by simp
  let ?s = "s\<lparr>head := n_next n, nodes := (nodes s)(a := None)\<rparr>"
  have "lst (nodes ?s) (head ?s) as" using n(3) \<open>a \<notin> set as\<close> by simp
  from Cons.IH [OF this] obtain s' where s': "free_topics ?s = Some s'" "head s' = None"
    "dom (nodes s') = dom (nodes ?s) - set as" "s' = ?s\<lparr>head := None, nodes := nodes s'\<rparr>" by blast
  have "free_topics s = free_topics ?s"
    using n by (simp add: free_topics.simps [of s] free_node_def)
  moreover have "s' = s\<lparr>head := None, nodes := nodes s'\<rparr>" by (subst s'(4)) simp
  ultimately show ?case using s' by (intro exI [of _ s']) auto
qed

text \<open>The list is freed by the deinitialisation.\<close>

lemma deinit_list:
  assumes "if_ok s as" "moduleState s = MQTT_STATE_INITIALIZED" "length (msgQueue s) < MQ_MAXMSG"
  shows "\<exists>s'. MQTT_IF_Deinit True s = Some (s', 0) \<and> if_ok s' [] \<and> moduleState s' = MQTT_STATE_IDLE
    \<and> dom (nodes s') = dom (nodes s) - set as \<and> msgQueue s' = msgQueue s @ [event_elem MQTT_EVENT_DESTROY]
    \<and> moduleMutex s' \<and> eventCB s' = eventCB s"
proof -
  let ?s = "s\<lparr>locked := True, msgQueue := msgQueue s @ [event_elem MQTT_EVENT_DESTROY]\<rparr>"
  have m: "moduleMutex s" "\<not> locked s" "lst (nodes ?s) (head ?s) as"
    using assms(1,2) by (auto simp: if_ok_def)
  from free_topics_all [OF m(3)] obtain s' where s': "free_topics ?s = Some s'" "head s' = None"
    "dom (nodes s') = dom (nodes s) - set as" "s' = ?s\<lparr>head := None, nodes := nodes s'\<rparr>" by auto
  have l: "locked s'" "moduleMutex s'" "msgQueue s' = msgQueue s @ [event_elem MQTT_EVENT_DESTROY]" "eventCB s' = eventCB s"
    using m(1) by (subst s'(4), simp)+
  show ?thesis
    using m assms(2,3) s' l
    by (intro exI [of _ "s'\<lparr>moduleState := MQTT_STATE_IDLE, locked := False\<rparr>"])
      (simp add: MQTT_IF_Deinit_def lock_def unlock_def mq_send_def if_ok_def)
qed

text \<open>A turn of the application thread after which it goes on, and the turns with the list empty.\<close>

definition app_goes_on :: "int list \<Rightarrow> mqttContext \<Rightarrow> mqttContext option" where
  "app_goes_on rets s = do { (s', finished) \<leftarrow> MQTTAppThread rets s; if finished then None else Some s' }"

lemma app_turn_empty:
  assumes "if_ok s []" "moduleMutex s" "eventCB s" "msgQueue s = q # qs" "q_event q \<noteq> MQTT_EVENT_DESTROY"
  shows "\<exists>s'. app_goes_on rets s = Some s' \<and> if_ok s' [] \<and> moduleMutex s' \<and> eventCB s' \<and> msgQueue s' = qs"
  using assms
  by (cases "q_event q")
    (auto simp: app_goes_on_def MQTTAppThread_def app_handle_def if_ok_def lock_def unlock_def call_event_def)

lemma app_drains:
  assumes "if_ok s []" "moduleMutex s" "eventCB s" "msgQueue s = qs @ [event_elem MQTT_EVENT_DESTROY]"
    and "list_all (\<lambda>q. q_event q \<noteq> MQTT_EVENT_DESTROY) qs" "length rs = length qs"
  shows "\<exists>s1 s2. run app_goes_on rs s = Some s1 \<and> MQTTAppThread rets s1 = Some (s2, True) \<and> msgQueue s2 = []
    \<and> (\<exists>cs. cb_calls s2 = cs @ [EventCB MQTT_EVENT_DESTROY])"
  using assms
proof (induction qs arbitrary: s rs)
  case Nil
  then show ?case by (simp add: MQTTAppThread_def app_handle_def event_elem_def call_event_def)
next
  case (Cons q qs)
  then obtain r rs' where rs: "rs = r # rs'" by (cases rs) auto
  obtain s' where "app_goes_on r s = Some s'" "if_ok s' []" "moduleMutex s'" "eventCB s'"
    "msgQueue s' = qs @ [event_elem MQTT_EVENT_DESTROY]"
    using app_turn_empty [OF Cons.prems(1-3), of q "qs @ [event_elem MQTT_EVENT_DESTROY]" r] Cons.prems(4,5) by auto
  then show ?case using Cons.IH [of s' rs'] Cons.prems(5,6) rs by simp
qed

text \<open>
  (C32) The deinitialisation of an initialised, not connected module with room in its queue frees exactly the nodes of the
  list, leaves the module idle with an empty list, and queues the message that ends the application thread. If the event
  callback was set, by an earlier connection, the thread then works off the messages that wait before it, one a turn, and exits in
  the turn after them, with the event as its last call; without the callback that turn calls through an unset pointer.
\<close>

theorem deinit_frees_list:
  assumes "if_ok s as" "moduleState s = MQTT_STATE_INITIALIZED" "length (msgQueue s) < MQ_MAXMSG"
  shows "\<exists>s'. MQTT_IF_Deinit True s = Some (s', 0) \<and> if_ok s' [] \<and> moduleState s' = MQTT_STATE_IDLE
    \<and> dom (nodes s') = dom (nodes s) - set as \<and> msgQueue s' = msgQueue s @ [event_elem MQTT_EVENT_DESTROY]
    \<and> (eventCB s \<longrightarrow> list_all (\<lambda>q. q_event q \<noteq> MQTT_EVENT_DESTROY) (msgQueue s) \<longrightarrow> length rs = length (msgQueue s) \<longrightarrow>
        (\<exists>s1 s2. run app_goes_on rs s' = Some s1 \<and> MQTTAppThread rets s1 = Some (s2, True) \<and> msgQueue s2 = []
          \<and> (\<exists>cs. cb_calls s2 = cs @ [EventCB MQTT_EVENT_DESTROY])))
    \<and> (\<not> eventCB s \<longrightarrow> msgQueue s = [] \<longrightarrow> MQTTAppThread rets s' = None)"
proof -
  obtain s' where s': "MQTT_IF_Deinit True s = Some (s', 0)" "if_ok s' []" "moduleState s' = MQTT_STATE_IDLE"
    "dom (nodes s') = dom (nodes s) - set as" "msgQueue s' = msgQueue s @ [event_elem MQTT_EVENT_DESTROY]"
    "moduleMutex s'" "eventCB s' = eventCB s"
    using deinit_list [OF assms] by blast
  have "MQTTAppThread rets s' = None" if "\<not> eventCB s" "msgQueue s = []"
    using that s'(5,7) by (simp add: MQTTAppThread_def app_handle_def event_elem_def call_event_def)
  then show ?thesis using s' app_drains [OF s'(2,6), of "msgQueue s" rs rets] by (intro exI [of _ s']) simp
qed

lemma deinit_frees_list_witness:
  "\<exists>s' s2. MQTT_IF_Deinit True (two_topics\<lparr>moduleState := MQTT_STATE_INITIALIZED\<rparr>) = Some (s', 0)
    \<and> dom (nodes s') = {} \<and> MQTTAppThread [] s' = Some (s2, True)"
proof -
  let ?s = "two_topics\<lparr>moduleState := MQTT_STATE_INITIALIZED\<rparr>"
  have "if_ok ?s [7, 8]" "moduleState ?s = MQTT_STATE_INITIALIZED" "length (msgQueue ?s) < MQ_MAXMSG"
    by (simp_all add: if_ok_def two_topics_def mMQTTContext_init_def MQ_MAXMSG_def)
  from deinit_frees_list [OF this, of "[]" "[]"] show ?thesis
    by (auto simp: two_topics_def mMQTTContext_init_def)
qed

section \<open>Renewal of the subscriptions\<close>

text \<open>
  What the loop computes on the list: \<open>sk\<close> are the nodes that were stepped over behind the last renewed one.
  A refusal behind the head steps over the following node, and forgets the nodes stepped over before.
\<close>

fun resub_abs :: "bool \<Rightarrow> 'a list \<Rightarrow> int list \<Rightarrow> 'a list \<Rightarrow> 'a list" where
  "resub_abs at_head sk rets [] = sk"
| "resub_abs at_head sk [] (a # as) = sk @ a # as"
| "resub_abs at_head sk (r # rets) (a # as) =
     (if 0 \<le> r then sk @ a # resub_abs False [] rets as
      else if at_head then resub_abs True [] rets as
      else case as of [] \<Rightarrow> [] | b # bs \<Rightarrow> resub_abs False [b] rets bs)"

lemma resub_remove_head:
  assumes "lst (nodes s) (head s) (a # as)" "nodes s a = Some n"
  shows "resub_remove a n prev s = Some (s\<lparr>head := n_next n\<rparr>, n_next n)"
    "free_node a (s\<lparr>head := n_next n\<rparr>) = Some (s\<lparr>head := n_next n, nodes := (nodes s)(a := None)\<rparr>)"
    "lst ((nodes s)(a := None)) (n_next n) as"
  using assms lst_distinct [OF assms(1)]
  by (simp_all add: resub_remove_def free_node_def)

lemma resub_remove_inner:
  assumes "lst (nodes s) (head s) (xs @ q # sk @ a # as)" "nodes s a = Some n"
  shows "\<exists>h. lst (h(a := None)) (head s) (xs @ q # as) \<and> h a = Some n
    \<and> (\<forall>b. b \<noteq> q \<longrightarrow> h b = nodes s b) \<and> sub_of (the (h q)) = sub_of (the (nodes s q))
    \<and> (case as of [] \<Rightarrow> resub_remove a n (Some q) s = Some (s\<lparr>nodes := h\<rparr>, None)
        | b # bs \<Rightarrow> \<exists>nx. nodes s b = Some nx \<and> resub_remove a n (Some q) s = Some (s\<lparr>nodes := h\<rparr>, n_next nx))"
proof -
  have d: "distinct (xs @ q # sk @ a # as)" by (rule lst_distinct [OF assms(1)])
  obtain nq where nq: "nodes s q = Some nq" using lst_in_dom [OF assms(1), of q] by auto
  let ?h = "(nodes s)(q \<mapsto> nq\<lparr>n_next := n_next n\<rparr>)"
  have hd: "head s \<noteq> Some a" using assms(1) d by (cases xs) auto
  have l: "lst (?h(a := None)) (head s) (xs @ q # as)"
    by (rule lst_unlink [OF assms(1) nq assms(2)]) simp
  have "lst (nodes s) (Some a) (a # as)"
    using lst_suffix [of "nodes s" "head s" "xs @ q # sk" a as] assms(1) by simp
  then have nx: "lst (nodes s) (n_next n) as" using assms(2) by simp
  have r: "case as of [] \<Rightarrow> resub_remove a n (Some q) s = Some (s\<lparr>nodes := ?h\<rparr>, None)
      | b # bs \<Rightarrow> \<exists>nx. nodes s b = Some nx \<and> resub_remove a n (Some q) s = Some (s\<lparr>nodes := ?h\<rparr>, n_next nx)"
  proof (cases as)
    case Nil
    then show ?thesis using nx hd nq by (simp add: resub_remove_def set_next_def)
  next
    case (Cons b bs)
    then obtain nb where "n_next n = Some b" "nodes s b = Some nb" "b \<noteq> q" using nx d by auto
    then show ?thesis using Cons hd nq by (simp add: resub_remove_def set_next_def)
  qed
  have "?h a = Some n" using assms(2) d by auto
  with l r nq show ?thesis by (intro exI [of _ ?h]) (simp add: sub_of_def)
qed

text \<open>The state after the renewal: only the list has changed, and the nodes that are left keep their topics.\<close>

definition resub_result :: "mqttContext \<Rightarrow> nat list \<Rightarrow> mqttContext \<Rightarrow> bool" where
  "resub_result s as s' \<longleftrightarrow> lst (nodes s') (head s') as \<and> s' = s\<lparr>head := head s', nodes := nodes s'\<rparr>
     \<and> (\<forall>a\<in>set as. sub_of (the (nodes s' a)) = sub_of (the (nodes s a)))"

lemma resub_abs_subset: "set (resub_abs h sk rets as) \<subseteq> set sk \<union> set as"
  by (induction h sk rets as rule: resub_abs.induct) (auto split: list.splits)

lemma resub_result_trans:
  assumes "resub_result s1 as s2" "s1 = s\<lparr>head := hd1, nodes := h1\<rparr>"
    "\<forall>a\<in>set as. sub_of (the (h1 a)) = sub_of (the (nodes s a))"
  shows "resub_result s as s2"
  using assms by (auto simp: resub_result_def)

text \<open>One refused renewal behind another node.\<close>

lemma resub_step_inner:
  assumes "lst (nodes s) (head s) (xs @ q # sk @ a # as)" "r < 0"
  shows "\<exists>h. lst h (head s) (xs @ q # as) \<and> (\<forall>b. b \<noteq> a \<longrightarrow> sub_of (the (h b)) = sub_of (the (nodes s b)))
    \<and> (\<forall>rets. resubscribe (r # rets) (Some a) (Some q) s = (case as of [] \<Rightarrow> Some (s\<lparr>nodes := h\<rparr>)
        | b # bs \<Rightarrow> resubscribe rets (case bs of [] \<Rightarrow> None | y # _ \<Rightarrow> Some y) (Some q) (s\<lparr>nodes := h\<rparr>)))"
proof -
  have "lst (nodes s) (Some a) (a # as)" using lst_suffix [of "nodes s" "head s" "xs @ q # sk" a as] assms(1) by simp
  then obtain n where n: "nodes s a = Some n" "lst (nodes s) (n_next n) as" by auto
  from resub_remove_inner [OF assms(1) n(1)] obtain h where h: "lst (h(a := None)) (head s) (xs @ q # as)"
    "h a = Some n" "\<forall>b. b \<noteq> q \<longrightarrow> h b = nodes s b" "sub_of (the (h q)) = sub_of (the (nodes s q))"
    "case as of [] \<Rightarrow> resub_remove a n (Some q) s = Some (s\<lparr>nodes := h\<rparr>, None)
     | b # bs \<Rightarrow> \<exists>nx. nodes s b = Some nx \<and> resub_remove a n (Some q) s = Some (s\<lparr>nodes := h\<rparr>, n_next nx)"
    by blast
  let ?s = "s\<lparr>nodes := h(a := None)\<rparr>"
  have fr: "free_node a (s\<lparr>nodes := h\<rparr>) = Some ?s" using h(2) by (simp add: free_node_def)
  have keep: "\<forall>b. b \<noteq> a \<longrightarrow> sub_of (the ((h(a := None)) b)) = sub_of (the (nodes s b))"
    using h(3,4) by (metis fun_upd_other)
  have "resubscribe (r # rets) (Some a) (Some q) s = (case as of [] \<Rightarrow> Some ?s
      | b # bs \<Rightarrow> resubscribe rets (case bs of [] \<Rightarrow> None | y # _ \<Rightarrow> Some y) (Some q) ?s)" for rets
  proof (cases as)
    case Nil
    then show ?thesis using assms(2) n(1) h(5) fr by simp
  next
    case (Cons b bs)
    then obtain nb where nb: "nodes s b = Some nb"
      "resub_remove a n (Some q) s = Some (s\<lparr>nodes := h\<rparr>, n_next nb)" using h(5) by auto
    then have "lst (nodes s) (n_next nb) bs" using n(2) Cons by auto
    then have "n_next nb = (case bs of [] \<Rightarrow> None | y # _ \<Rightarrow> Some y)" using lst_ex by blast
    then show ?thesis using assms(2) n(1) nb(2) fr Cons by simp
  qed
  then show ?thesis using h(1) keep by blast
qed

lemma resubscribe_abs:
  assumes "lst (nodes s) (head s) (ds @ sk @ ys)" "length ys \<le> length rets"
    and "ds = [] \<Longrightarrow> sk = []"
  shows "\<exists>s'. resubscribe rets (case ys of [] \<Rightarrow> None | y # _ \<Rightarrow> Some y)
      (if ds = [] then None else Some (last ds)) s = Some s'
    \<and> resub_result s (ds @ resub_abs (ds = []) sk rets ys) s'"
  using assms
proof (induction ys arbitrary: s ds sk rets rule: length_induct)
  case (1 ys)
  show ?case
  proof (cases ys)
    case Nil
    then show ?thesis using "1.prems" by (cases s) (simp add: resub_result_def)
  next
    case ys: (Cons a as)
    then obtain r rets' where rets: "rets = r # rets'" "length as \<le> length rets'"
      using "1.prems"(2) by (cases rets) auto
    have l: "lst (nodes s) (Some a) (a # as)"
      using lst_suffix [of "nodes s" "head s" "ds @ sk" a as] "1.prems"(1) ys by simp
    then obtain n where n: "nodes s a = Some n" "lst (nodes s) (n_next n) as" by auto
    then have nx: "n_next n = (case as of [] \<Rightarrow> None | y # _ \<Rightarrow> Some y)" using lst_ex by blast
    have d: "distinct (ds @ sk @ a # as)" using lst_distinct [OF "1.prems"(1)] ys by simp
    consider "0 \<le> r" | "r < 0" "ds = []" | xs q where "r < 0" "ds = xs @ [q]"
      by (metis linorder_not_le rev_exhaust)
    then show ?thesis
    proof cases
      case 1
      have "lst (nodes s) (head s) ((ds @ sk @ [a]) @ [] @ as)" using "1.prems"(1) ys by simp
      from "1.IH" [rule_format, OF _ this rets(2)] ys
      show ?thesis using 1 n(1) rets(1) nx by simp
    next
      case 2
      then have sk: "sk = []" using "1.prems"(3) by simp
      have lh: "lst (nodes s) (head s) (a # as)" using "1.prems"(1) ys 2 sk by simp
      note rm = resub_remove_head [OF lh n(1)]
      let ?s = "s\<lparr>head := n_next n, nodes := (nodes s)(a := None)\<rparr>"
      have "lst (nodes ?s) (head ?s) ([] @ [] @ as)" using rm(3) by simp
      from "1.IH" [rule_format, OF _ this rets(2)] ys obtain s' where s':
        "resubscribe rets' (case as of [] \<Rightarrow> None | y # _ \<Rightarrow> Some y) None ?s = Some s'"
        "resub_result ?s (resub_abs True [] rets' as) s'" by auto
      have "a \<notin> set (resub_abs True [] rets' as)" using resub_abs_subset [of True "[]" rets' as] d by auto
      then have "resub_result s (resub_abs True [] rets' as) s'" by (intro resub_result_trans [OF s'(2) refl]) auto
      then show ?thesis using 2 sk ys rets(1) n(1) rm(1,2) s'(1) nx by simp
    next
      case 3
      have "lst (nodes s) (head s) (xs @ q # sk @ a # as)" using "1.prems"(1) ys 3(2) by simp
      from resub_step_inner [OF this 3(1)] obtain h where h: "lst h (head s) (xs @ q # as)"
        "\<forall>b. b \<noteq> a \<longrightarrow> sub_of (the (h b)) = sub_of (the (nodes s b))"
        "resubscribe (r # rets') (Some a) (Some q) s = (case as of [] \<Rightarrow> Some (s\<lparr>nodes := h\<rparr>)
          | b # bs \<Rightarrow> resubscribe rets' (case bs of [] \<Rightarrow> None | y # _ \<Rightarrow> Some y) (Some q) (s\<lparr>nodes := h\<rparr>))" by blast
      let ?s = "s\<lparr>nodes := h\<rparr>"
      have sh: "?s = s\<lparr>head := head s, nodes := h\<rparr>" by (cases s) simp
      show ?thesis
      proof (cases as)
        case Nil
        have "resub_result s ds ?s" unfolding resub_result_def using h(1,2) Nil 3 d ys by (cases s) auto
        then show ?thesis using h(3) Nil ys rets(1) 3 by simp
      next
        case (Cons b bs)
        have "lst (nodes ?s) (head ?s) (ds @ [b] @ bs)" using h(1) Cons 3 by simp
        moreover have "length bs \<le> length rets'" "length bs < length ys" using rets(2) Cons ys by simp_all
        ultimately obtain s' where s': "resubscribe rets' (case bs of [] \<Rightarrow> None | y # _ \<Rightarrow> Some y)
            (Some (last ds)) ?s = Some s'" "resub_result ?s (ds @ resub_abs False [b] rets' bs) s'"
          using "1.IH" [rule_format, of bs ?s "ds" "[b]" rets'] 3 by auto
        have "a \<notin> set (ds @ resub_abs False [b] rets' bs)" using resub_abs_subset [of False "[b]" rets' bs] d Cons by auto
        then have "resub_result s (ds @ resub_abs False [b] rets' bs) s'"
          using h(2) by (intro resub_result_trans [OF s'(2) sh]) auto
        then show ?thesis using h(3) Cons ys rets(1) s'(1) 3 by simp
      qed
    qed
  qed
qed

text \<open>
  (C21) The handling of a CONNACK renews the subscriptions as \<open>resub_abs\<close> says: with every renewal accepted the list is
  unchanged; refused nodes at the front are removed; the module is left intact, the mutex released, and
  the application notified.
\<close>

theorem connack_renews_subscriptions:
  assumes "if_ok s as" "moduleState s \<noteq> MQTT_STATE_IDLE" "eventCB s" "q_event q = MQTT_EVENT_CONNACK"
    and "length as \<le> length rets"
  shows "\<exists>s'. app_handle rets q s = Some (s', False) \<and> if_ok s' (resub_abs True [] rets as)
    \<and> subs s' (resub_abs True [] rets as) = subs s (resub_abs True [] rets as)
    \<and> cb_calls s' = cb_calls s @ [EventCB MQTT_EVENT_CONNACK] \<and> moduleState s' = moduleState s"
proof -
  let ?s = "s\<lparr>locked := True\<rparr>"
  have m: "moduleMutex s" "\<not> locked s" and l: "lst (nodes ?s) (head ?s) ([] @ [] @ as)"
    using assms(1,2) by (auto simp: if_ok_def)
  from resubscribe_abs [OF l assms(5)] obtain s1 where s1:
    "resubscribe rets (case as of [] \<Rightarrow> None | y # _ \<Rightarrow> Some y) None ?s = Some s1"
    "resub_result ?s (resub_abs True [] rets as) s1" by auto
  have hd: "head s = (case as of [] \<Rightarrow> None | y # _ \<Rightarrow> Some y)" using lst_ex [OF l] by simp
  have k: "lst (nodes s1) (head s1) (resub_abs True [] rets as)" "s1 = ?s\<lparr>head := head s1, nodes := nodes s1\<rparr>"
    "\<forall>a\<in>set (resub_abs True [] rets as). sub_of (the (nodes s1 a)) = sub_of (the (nodes s a))"
    using s1(2) by (auto simp: resub_result_def)
  have f: "locked s1" "moduleMutex s1" "eventCB s1" "cb_calls s1 = cb_calls s" "moduleState s1 = moduleState s"
    using m assms(3) by (subst k(2), simp)+
  show ?thesis
    using m assms(2,4) s1(1) k(1,3) f hd
    by (intro exI [of _ "s1\<lparr>locked := False, cb_calls := cb_calls s1 @ [EventCB MQTT_EVENT_CONNACK]\<rparr>"])
      (simp add: app_handle_def lock_def unlock_def call_event_def if_ok_def subs_def)
qed

lemma connack_renews_subscriptions_witness:
  "\<exists>s'. app_handle [- 1, 0] (event_elem MQTT_EVENT_CONNACK) two_topics = Some (s', False) \<and> if_ok s' [8]"
proof -
  have "eventCB two_topics" by (simp add: two_topics_def)
  from connack_renews_subscriptions [OF two_topics_ok(1) _ this, of "event_elem MQTT_EVENT_CONNACK" "[- 1, 0]"]
  show ?thesis by (auto simp: two_topics_ok(2) event_elem_def)
qed

text \<open>
  A refusal behind the head damages the renewal: of four topics \<open>a\<close>, \<open>b\<close>, \<open>c\<close> and \<open>d\<close> whose second and last
  are refused, \<open>c\<close> is never renewed, yet it drops out of the list while its node stays allocated.
\<close>

theorem renewal_skips_and_leaks:
  assumes "lst (nodes s) (head s) [a, b, c, d]" "0 \<le> r1" "r2 < 0" "r3 < 0"
  shows "\<exists>s'. resubscribe [r1, r2, r3] (head s) None s = Some s' \<and> lst (nodes s') (head s') [a]
    \<and> nodes s' b = None \<and> nodes s' d = None \<and> (\<exists>n. nodes s' c = Some n)"
proof -
  have "distinct [a, b, c, d]" by (rule lst_distinct [OF assms(1)])
  with assms show ?thesis
    by (auto simp: resub_remove_def set_next_def free_node_def)
qed

lemma renewal_skips_and_leaks_witness:
  "\<exists>s s'. resubscribe [0, - 4, - 4] (head s) None s = Some s' \<and> lst (nodes s) (head s) [1, 2, 3, 4]
    \<and> lst (nodes s') (head s') [1]"
proof -
  let ?n = "\<lambda>p. \<lparr>n_topic = ''t'', n_qos = 0, topicCB = 0, n_next = p\<rparr>"
  let ?s = "mMQTTContext_init\<lparr>nodes := [1 \<mapsto> ?n (Some 2), 2 \<mapsto> ?n (Some 3), 3 \<mapsto> ?n (Some 4), 4 \<mapsto> ?n None],
    head := Some 1\<rparr>"
  have l: "lst (nodes ?s) (head ?s) [1, 2, 3, 4]" by simp
  obtain s' where "resubscribe [0, - 4, - 4] (head ?s) None ?s = Some s'" "lst (nodes s') (head s') [1]"
    using renewal_skips_and_leaks [OF l, of 0 "- 4" "- 4"] by (auto simp del: lst.simps)
  with l show ?thesis by (intro exI conjI)
qed

section \<open>The invariant of the module\<close>

lemma app_search_keeps:
  assumes "app_search q c s = Some s'"
  shows "\<exists>x. s' = s\<lparr>cb_calls := x\<rparr>"
  using assms
proof (rule app_search.raw_induct [where P = "\<lambda>q c s s'. \<exists>x. s' = s\<lparr>cb_calls := x\<rparr>", rotated])
  fix f q c s s'
  assume IH: "\<And>q c s s'. f q c s = Some s' \<Longrightarrow> \<exists>x. s' = s\<lparr>cb_calls := x\<rparr>"
    and body: "do { n \<leftarrow> nodes s c; r \<leftarrow> MQTTHelperTopicMatching (n_topic n) (Some (q_topic q));
        if r = 1 then Some (s\<lparr>cb_calls := cb_calls s @ [TopicCB (topicCB n) (q_topic q) (q_payload q) (q_qos q)]\<rparr>)
        else case n_next n of None \<Rightarrow> Some s | Some t \<Rightarrow> f q t s } = Some s'"
  have "\<exists>x. s = s\<lparr>cb_calls := x\<rparr>" by (intro exI [of _ "cb_calls s"]) simp
  with IH body show "\<exists>x. s' = s\<lparr>cb_calls := x\<rparr>"
    by (auto split: Option.bind_splits if_splits option.splits)
qed

lemma resubscribe_more: "resubscribe rets node prev s = Some s' \<Longrightarrow> resubscribe (rets @ xs) node prev s = Some s'"
  by (induction rets node prev s rule: resubscribe.induct) (auto split: Option.bind_splits if_splits prod.splits)

lemma resubscribe_ok:
  assumes "lst (nodes s) (head s) as" "resubscribe rets (head s) None s = Some s'"
  shows "\<exists>as'. resub_result s as' s'"
proof -
  have "resubscribe (rets @ replicate (length as) 0) (head s) None s = Some s'"
    by (rule resubscribe_more [OF assms(2)])
  moreover have "head s = (case as of [] \<Rightarrow> None | y # _ \<Rightarrow> Some y)" using lst_ex [OF assms(1)] .
  ultimately show ?thesis
    using resubscribe_abs [of s "[]" "[]" as "rets @ replicate (length as) 0"] assms(1) by auto
qed

text \<open>
  A subscription that the client refuses: the module is connected, the node and its topic are allocated, and the client
  returns an error.
\<close>

definition refusal :: "nat option \<Rightarrow> bool \<Rightarrow> int \<Rightarrow> mqttContext \<Rightarrow> bool" where
  "refusal node_addr topic_ok sub_ret s \<longleftrightarrow>
     moduleState s = MQTT_STATE_CONNECTED \<and> node_addr \<noteq> None \<and> topic_ok \<and> sub_ret < 0"

text \<open>
  The steps of the module: its operations, its two threads and the callback, with any results of the layers below. The flag marks the
  refused subscriptions. A run carries whether there was one; the allocator returns addresses that are not in use.
\<close>

inductive if_move :: "bool \<Rightarrow> mqttContext \<Rightarrow> mqttContext \<Rightarrow> bool" where
  init: "MQTT_IF_Init m i mq t s = Some (s', r) \<Longrightarrow> if_move False s s'"
| deinit: "MQTT_IF_Deinit ok s = Some (s', r) \<Longrightarrow> if_move False s s'"
| connect: "MQTT_IF_Connect h t c s = Some (s', r) \<Longrightarrow> if_move False s s'"
| disconnect: "MQTT_IF_Disconnect d s = Some (s', r) \<Longrightarrow> if_move False s s'"
| publish: "MQTT_IF_Publish p topic payload s = Some (s', r) \<Longrightarrow> if_move False s s'"
| subscribe: "(\<forall>a. node_addr = Some a \<longrightarrow> nodes s a = None)
    \<Longrightarrow> MQTT_IF_Subscribe node_addr ok sr topic qos cb s = Some (s', r)
    \<Longrightarrow> if_move (refusal node_addr ok sr s) s s'"
| unsubscribe: "MQTT_IF_Unsubscribe u topic s = Some (s', r) \<Longrightarrow> if_move False s s'"
| app_thread: "MQTTAppThread rets s = Some (s', b) \<Longrightarrow> if_move False s s'"
| context_thread: "MQTTContextThread_end s = Some s' \<Longrightarrow> if_move False s s'"
| callback: "MQTTClientCallback P e s = Some s' \<Longrightarrow> if_move False s s'"

abbreviation if_step :: "mqttContext \<Rightarrow> mqttContext \<Rightarrow> bool" where
  "if_step \<equiv> if_move False"

inductive if_run :: "mqttContext \<Rightarrow> bool \<Rightarrow> mqttContext \<Rightarrow> bool" for s0 where
  run_start: "if_run s0 False s0"
| run_move: "if_run s0 refused s \<Longrightarrow> if_move r s s' \<Longrightarrow> if_run s0 (refused \<or> r) s'"

lemma run_steps: "if_step\<^sup>*\<^sup>* s s' \<Longrightarrow> if_run s0 refused s \<Longrightarrow> if_run s0 refused s'"
proof (induction rule: rtranclp_induct)
  case (step y z)
  then show ?case using run_move [of s0 refused y False z] by simp
qed simp

definition if_inv :: "mqttContext \<Rightarrow> bool" where
  "if_inv s \<longleftrightarrow> (\<exists>as. if_ok s as)"

lemmas if_defs = lock_def unlock_def mq_send_def call_event_def if_ok_def

lemma inv_init: "if_ok s as \<Longrightarrow> MQTT_IF_Init m i mq t s = Some (s', r) \<Longrightarrow> if_ok s' as"
  by (auto simp: MQTT_IF_Init_def if_defs split: if_splits)

lemma inv_connect: "if_ok s as \<Longrightarrow> MQTT_IF_Connect h t c s = Some (s', r) \<Longrightarrow> if_ok s' as"
  by (auto simp: MQTT_IF_Connect_def if_defs Let_def split: if_splits option.splits)

lemma inv_disconnect: "if_ok s as \<Longrightarrow> MQTT_IF_Disconnect d s = Some (s', r) \<Longrightarrow> if_ok s' as"
  by (auto simp: MQTT_IF_Disconnect_def if_defs Let_def split: if_splits)

lemma inv_publish: "if_ok s as \<Longrightarrow> MQTT_IF_Publish p topic payload s = Some (s', r) \<Longrightarrow> if_ok s' as"
  by (auto simp: MQTT_IF_Publish_def if_defs split: if_splits)

lemma inv_context_thread: "if_ok s as \<Longrightarrow> MQTTContextThread_end s = Some s' \<Longrightarrow> if_ok s' as"
  by (auto simp: MQTTContextThread_end_def if_defs split: if_splits)

lemma inv_callback: "if_ok s as \<Longrightarrow> MQTTClientCallback P e s = Some s' \<Longrightarrow> if_ok s' as"
  by (cases e) (auto simp: if_defs split: if_splits Option.bind_splits)

lemma inv_subscribe:
  assumes "if_ok s as" "\<forall>a. node_addr = Some a \<longrightarrow> nodes s a = None" "\<not> refusal node_addr ok sr s"
    and "MQTT_IF_Subscribe node_addr ok sr topic qos cb s = Some (s', r)"
  shows "if_inv s'"
proof (cases "moduleState s = MQTT_STATE_IDLE \<or> \<not> ok \<or> node_addr = None")
  case True
  then have "if_ok s' as"
    using assms(1,4) by (auto simp: MQTT_IF_Subscribe_def if_defs split: if_splits option.splits)
  then show ?thesis by (auto simp: if_inv_def)
next
  case False
  then obtain a where a: "moduleState s \<noteq> MQTT_STATE_IDLE" ok "node_addr = Some a" "nodes s a = None" using assms(2) by auto
  have "0 \<le> sr \<or> moduleState s \<noteq> MQTT_STATE_CONNECTED" using assms(3) a by (auto simp: refusal_def)
  then obtain x where "0 \<le> x" "MQTT_IF_Subscribe (Some a) True sr topic qos cb s = MQTT_IF_Subscribe (Some a) True x topic qos cb s"
  proof
    assume "moduleState s \<noteq> MQTT_STATE_CONNECTED"
    then have "MQTT_IF_Subscribe (Some a) True sr topic qos cb s = MQTT_IF_Subscribe (Some a) True 0 topic qos cb s"
      by (auto simp: MQTT_IF_Subscribe_def lock_def)
    then show thesis using that [of 0] by simp
  qed (use that in blast)
  then show ?thesis
    using subscribe_adds_topic [OF assms(1) a(1,4), of x topic qos cb] assms(4) a(2,3) by (auto simp: if_inv_def)
qed

lemma subscribe_refused:
  assumes "MQTT_IF_Subscribe node_addr ok sr topic qos cb s = Some (s', r)" "refusal node_addr ok sr s"
  shows "\<exists>a. head s' = Some a \<and> nodes s' a = None"
  using assms by (auto simp: MQTT_IF_Subscribe_def refusal_def lock_def unlock_def free_node_def Let_def split: if_splits)

lemma inv_unsubscribe:
  assumes "if_ok s as" "MQTT_IF_Unsubscribe u topic s = Some (s', r)"
  shows "if_inv s'"
proof (cases "moduleState s = MQTT_STATE_CONNECTED \<and> 0 \<le> u")
  case False
  then have "if_ok s' as"
    using assms by (auto simp: MQTT_IF_Unsubscribe_def if_defs split: if_splits)
  then show ?thesis by (auto simp: if_inv_def)
next
  case True
  let ?stop = "\<lambda>a. node_match s topic a = None \<or> node_match s topic a = Some 1"
  show ?thesis
  proof (cases "\<exists>a\<in>set as. ?stop a")
    case False
    then have "MQTT_IF_Unsubscribe u topic s = None"
      using unsubscribe_unknown_topic [OF assms(1) conjunct1 [OF True] conjunct2 [OF True]] by simp
    then show ?thesis using assms(2) by simp
  next
    case ex: True
    obtain us a vs where as: "as = us @ a # vs" "?stop a" "\<forall>x\<in>set us. \<not> ?stop x"
      using split_list_first_prop [OF ex] by blast
    show ?thesis
    proof (cases "node_match s topic a")
      case (Some x)
      then have "node_match s topic a = Some 1" using as(2) by simp
      from unsubscribe_found [OF assms(1) conjunct1 [OF True] conjunct2 [OF True] as(1) this] as(3)
        assms(2)
      show ?thesis by (auto simp: if_inv_def)
    next
      case None
      let ?s = "s\<lparr>locked := True\<rparr>"
      have l: "lst (nodes ?s) (head ?s) ([] @ us @ a # vs)" and m: "moduleMutex s" "\<not> locked s"
        using assms(1) True as(1) by (auto simp: if_ok_def)
      have "\<forall>x\<in>set us. node_match ?s topic x \<noteq> None \<and> node_match ?s topic x \<noteq> Some 1"
        using as(3) by simp
      note skip = unsub_loop_skip [OF l this]
      obtain n where n: "nodes s a = Some n" using lst_in_dom [OF l, of a] by auto
      then have "MQTTHelperTopicMatching (n_topic n) (Some topic) = None" using None by simp
      then have "unsub_loop topic (Some a) p ?s = None" for p
        using n by (simp add: unsub_loop.simps [of topic "Some a"])
      then have "unsub_loop topic (head ?s) None ?s = None"
        using skip lst_ex [OF l] by simp
      then show ?thesis
        using assms(2) m True by (simp add: MQTT_IF_Unsubscribe_def lock_def)
    qed
  qed
qed

lemma inv_deinit:
  assumes "if_ok s as" "MQTT_IF_Deinit ok s = Some (s', r)"
  shows "if_inv s'"
proof (cases "moduleState s = MQTT_STATE_INITIALIZED \<and> ok")
  case False
  then have "if_ok s' as" using assms by (auto simp: MQTT_IF_Deinit_def if_defs split: if_splits)
  then show ?thesis by (auto simp: if_inv_def)
next
  case True
  then have "length (msgQueue s) < MQ_MAXMSG"
    using assms by (auto simp: MQTT_IF_Deinit_def if_defs split: if_splits)
  with deinit_list [OF assms(1)] True assms(2) show ?thesis by (auto simp: if_inv_def)
qed

lemma inv_app_handle:
  assumes "if_ok s as" "app_handle rets q s = Some (s', b)"
  shows "if_inv s'"
proof (cases "q_event q = MQTT_EVENT_RECV \<or> q_event q = MQTT_EVENT_CONNACK")
  case False
  then have "if_ok s' as"
    using assms by (cases "q_event q") (auto simp: app_handle_def if_defs split: if_splits)
  then show ?thesis by (auto simp: if_inv_def)
next
  case True
  then have m: "moduleMutex s" "\<not> locked s" "lst (nodes s) (head s) as"
    using assms by (auto simp: app_handle_def if_ok_def lock_def split: if_splits)
  show ?thesis
  proof (cases "q_event q = MQTT_EVENT_RECV")
    case recv: True
    show ?thesis
    proof (cases "head s")
      case None
      then show ?thesis
        using assms(2) m recv by (auto simp: app_handle_def if_defs if_inv_def)
    next
      case (Some c)
      then obtain s1 where s1: "app_search q c (s\<lparr>locked := True\<rparr>) = Some s1" "s' = s1\<lparr>locked := False\<rparr>"
        using assms(2) m recv by (auto simp: app_handle_def lock_def unlock_def split: Option.bind_splits if_splits)
      then obtain x where "s1 = s\<lparr>locked := True, cb_calls := x\<rparr>" using app_search_keeps by blast
      then have "if_ok s' as" using s1(2) m by (simp add: if_ok_def)
      then show ?thesis by (auto simp: if_inv_def)
    qed
  next
    case False
    let ?s = "s\<lparr>locked := True\<rparr>"
    obtain s1 where s1: "resubscribe rets (head ?s) None ?s = Some s1"
      "s' = s1\<lparr>locked := False, cb_calls := cb_calls s1 @ [EventCB MQTT_EVENT_CONNACK]\<rparr>"
      using True False assms(2) m
      by (auto simp: app_handle_def lock_def unlock_def call_event_def split: Option.bind_splits if_splits)
    obtain as' where "resub_result ?s as' s1"
      using resubscribe_ok [OF _ s1(1)] m(3) by auto
    then have "lst (nodes s1) (head s1) as'" "s1 = ?s\<lparr>head := head s1, nodes := nodes s1\<rparr>"
      by (auto simp: resub_result_def)
    moreover from arg_cong [OF this(2), of moduleMutex] have "moduleMutex s1" using m(1) by simp
    ultimately have "if_ok s' as'" using s1(2) by (simp add: if_ok_def)
    then show ?thesis by (auto simp: if_inv_def)
  qed
qed

lemma inv_app_thread:
  assumes "if_ok s as" "MQTTAppThread rets s = Some (s', b)"
  shows "if_inv s'"
proof (cases "msgQueue s")
  case Nil
  then show ?thesis using assms by (auto simp: MQTTAppThread_def if_inv_def)
next
  case (Cons q qs)
  then have "if_ok (s\<lparr>msgQueue := qs\<rparr>) as" using assms(1) by (simp add: if_ok_def)
  then show ?thesis using inv_app_handle assms(2) Cons by (auto simp: MQTTAppThread_def)
qed

lemma if_step_inv:
  assumes "if_step s s'" "if_inv s"
  shows "if_inv s'"
proof -
  obtain as where ok: "if_ok s as" using assms(2) by (auto simp: if_inv_def)
  have inv: "if_ok s' as \<Longrightarrow> if_inv s'" by (auto simp: if_inv_def)
  from assms(1) show ?thesis
  proof cases
    case init
    with ok show ?thesis by (blast intro: inv inv_init)
  next
    case deinit
    then show ?thesis by (rule inv_deinit [OF ok])
  next
    case connect
    with ok show ?thesis by (blast intro: inv inv_connect)
  next
    case disconnect
    with ok show ?thesis by (blast intro: inv inv_disconnect)
  next
    case publish
    with ok show ?thesis by (blast intro: inv inv_publish)
  next
    case subscribe
    then show ?thesis using inv_subscribe [OF ok] by simp
  next
    case unsubscribe
    then show ?thesis by (rule inv_unsubscribe [OF ok])
  next
    case app_thread
    then show ?thesis by (rule inv_app_thread [OF ok])
  next
    case context_thread
    with ok show ?thesis by (blast intro: inv inv_context_thread)
  next
    case callback
    with ok show ?thesis by (blast intro: inv inv_callback)
  qed
qed

text \<open>The part of the invariant that does not speak of the list: it survives refused subscriptions too.\<close>

definition if_free :: "mqttContext \<Rightarrow> bool" where
  "if_free s \<longleftrightarrow> \<not> locked s \<and> (moduleState s \<noteq> MQTT_STATE_IDLE \<longrightarrow> moduleMutex s)"

lemma unlock_free: "unlock s = Some s' \<Longrightarrow> if_free s'"
  by (auto simp: unlock_def if_free_def split: if_splits)

lemma if_free_simps [simp]:
  "if_free (s\<lparr>cb_calls := x\<rparr>) = if_free s" "if_free (s\<lparr>pub_calls := y\<rparr>) = if_free s" "if_free (s\<lparr>msgQueue := z\<rparr>) = if_free s"
  by (simp_all add: if_free_def)

lemma app_handle_free: "app_handle rets q s = Some (s', b) \<Longrightarrow> if_free s \<Longrightarrow> if_free s'"
  by (cases "q_event q")
    (auto simp: app_handle_def call_event_def split: Option.bind_splits if_splits dest!: unlock_free)

lemma if_move_free:
  assumes "if_move r s s'" "if_free s"
  shows "if_free s'"
  using assms(1)
proof cases
  case init
  then show ?thesis using assms(2) by (auto simp: MQTT_IF_Init_def split: Option.bind_splits if_splits dest!: unlock_free)
next
  case deinit
  then show ?thesis by (auto simp: MQTT_IF_Deinit_def split: Option.bind_splits if_splits dest!: unlock_free)
next
  case connect
  then show ?thesis
    by (auto simp: MQTT_IF_Connect_def Let_def split: Option.bind_splits if_splits option.splits dest!: unlock_free)
next
  case disconnect
  then show ?thesis by (auto simp: MQTT_IF_Disconnect_def Let_def split: Option.bind_splits if_splits dest!: unlock_free)
next
  case publish
  then show ?thesis by (auto simp: MQTT_IF_Publish_def split: Option.bind_splits if_splits dest!: unlock_free)
next
  case subscribe
  then show ?thesis
    by (auto simp: MQTT_IF_Subscribe_def Let_def split: Option.bind_splits if_splits option.splits dest!: unlock_free)
next
  case unsubscribe
  then show ?thesis
    by (auto simp: MQTT_IF_Unsubscribe_def split: Option.bind_splits if_splits option.splits dest!: unlock_free)
next
  case app_thread
  then show ?thesis using assms(2) by (auto simp: MQTTAppThread_def split: list.splits dest: app_handle_free)
next
  case context_thread
  then show ?thesis by (auto simp: MQTTContextThread_end_def split: Option.bind_splits dest!: unlock_free)
next
  case (callback P e)
  then show ?thesis using assms(2) by (cases e) (auto simp: mq_send_def split: Option.bind_splits if_splits)
qed

lemma run_invariant:
  assumes "if_run mMQTTContext_init refused s"
  shows "if_free s \<and> (\<not> refused \<longrightarrow> if_inv s)"
  using assms
proof induction
  case run_start
  show ?case by (auto simp: if_free_def if_inv_def if_ok_def mMQTTContext_init_def intro: exI [of _ "[]"])
next
  case (run_move refused s r s')
  then show ?case using if_move_free if_step_inv by (cases r) auto
qed

text \<open>
  (C19) In every state that the module reaches from its start, whatever its threads and callers do in whatever order and whatever
  the layers below return, nobody holds the mutex, and the mutex exists unless the module is idle. As long as the client has
  refused no subscription, the list is intact; the first refusal, and nothing before it, leaves the head of the list
  pointing to a freed node.
\<close>

theorem module_invariant:
  assumes "if_run mMQTTContext_init refused s"
  shows "\<not> locked s \<and> (moduleState s \<noteq> MQTT_STATE_IDLE \<longrightarrow> moduleMutex s)
    \<and> (\<not> refused \<longrightarrow> (\<exists>as. lst (nodes s) (head s) as))
    \<and> (if_move True s s' \<longrightarrow> (\<exists>a. head s' = Some a \<and> nodes s' a = None))"
proof -
  have "\<exists>a. head s' = Some a \<and> nodes s' a = None" if "if_move True s s'"
    using that by cases (auto intro: subscribe_refused)
  then show ?thesis using run_invariant [OF assms] by (auto simp: if_free_def if_inv_def if_ok_def)
qed

lemma module_invariant_witness:
  "\<exists>s1 s2. MQTT_IF_Init True 0 1 0 mMQTTContext_init = Some (s1, 0)
    \<and> MQTT_IF_Subscribe (Some 7) True 0 ''t'' 0 1 s1 = Some (s2, 0) \<and> head s2 = Some 7
    \<and> (\<exists>as. lst (nodes s2) (head s2) as) \<and> \<not> locked s2 \<and> moduleMutex s2"
proof -
  obtain s1 where s1: "MQTT_IF_Init True 0 1 0 mMQTTContext_init = Some (s1, 0)" "nodes s1 7 = None"
    "moduleState s1 = MQTT_STATE_INITIALIZED" "moduleMutex s1" "\<not> locked s1"
    by (simp add: MQTT_IF_Init_def lock_def unlock_def mMQTTContext_init_def)
  then obtain s2 where s2: "MQTT_IF_Subscribe (Some 7) True 0 ''t'' 0 1 s1 = Some (s2, 0)" "head s2 = Some 7"
    "moduleState s2 = MQTT_STATE_INITIALIZED"
    by (simp add: MQTT_IF_Subscribe_def lock_def unlock_def)
  have "if_move (refusal (Some 7) True 0 s1) s1 s2" by (rule if_move.subscribe [OF _ s2(1)]) (simp add: s1(2))
  moreover have "if_run mMQTTContext_init (False \<or> False) s1" by (rule run_move [OF run_start if_move.init [OF s1(1)]])
  ultimately have "if_run mMQTTContext_init ((False \<or> False) \<or> refusal (Some 7) True 0 s1) s2" by (rule run_move [rotated])
  then have "if_run mMQTTContext_init False s2" by (simp add: refusal_def)
  from module_invariant [OF this] s1(1) s2 show ?thesis by auto
qed

section \<open>Disconnection and restart\<close>

lemma context_thread_race_parts:
  assumes "if_ok s as" "moduleState s = MQTT_STATE_CONNECTED" "length (msgQueue s) < MQ_MAXMSG"
  shows "\<exists>s1 s2 s3. MQTT_IF_Disconnect 0 s = Some (s1, 0) \<and> MQTT_IF_Deinit True s1 = Some (s2, 0)
      \<and> MQTTContextThread_end s2 = Some s3 \<and> MQTT_IF_Init m i mq t s3 = Some (s3, - 1)"
    and "\<exists>s1 s2 s3 s4. MQTT_IF_Disconnect 0 s = Some (s1, 0) \<and> MQTTContextThread_end s1 = Some s2
      \<and> MQTT_IF_Deinit True s2 = Some (s3, 0) \<and> MQTT_IF_Init True 0 1 0 s3 = Some (s4, 0)
      \<and> moduleState s4 = MQTT_STATE_INITIALIZED"
proof -
  let ?s1 = "s\<lparr>clientDisconnectFlag := True, moduleState := MQTT_STATE_INITIALIZED, locked := False\<rparr>"
  have m: "moduleMutex s" "\<not> locked s" using assms(1,2) by (auto simp: if_ok_def)
  have s1: "MQTT_IF_Disconnect 0 s = Some (?s1, 0)" "MQTTContextThread_end ?s1 = Some ?s1"
    using m assms(2) by (simp_all add: MQTT_IF_Disconnect_def MQTTContextThread_end_def lock_def unlock_def)
  have "if_ok ?s1 as" "moduleState ?s1 = MQTT_STATE_INITIALIZED" "length (msgQueue ?s1) < MQ_MAXMSG"
    using assms by (simp_all add: if_ok_def)
  from deinit_list [OF this] obtain s2 where s2: "MQTT_IF_Deinit True ?s1 = Some (s2, 0)"
    "if_ok s2 []" "moduleState s2 = MQTT_STATE_IDLE" by auto
  have "moduleMutex s2"
  proof (rule ccontr)
    assume "\<not> moduleMutex s2"
    then show False using s2(1) by (auto simp: MQTT_IF_Deinit_def lock_def unlock_def split: Option.bind_splits if_splits)
  qed
  then have "MQTTContextThread_end s2 = Some (s2\<lparr>moduleState := MQTT_STATE_INITIALIZED, locked := False\<rparr>)"
    using s2(2) by (simp add: MQTTContextThread_end_def lock_def unlock_def if_ok_def)
  then show "\<exists>s1 s2 s3. MQTT_IF_Disconnect 0 s = Some (s1, 0) \<and> MQTT_IF_Deinit True s1 = Some (s2, 0)
      \<and> MQTTContextThread_end s2 = Some s3 \<and> MQTT_IF_Init m i mq t s3 = Some (s3, - 1)"
    using s1(1) s2(1) by (fastforce simp: MQTT_IF_Init_def)
  show "\<exists>s1 s2 s3 s4. MQTT_IF_Disconnect 0 s = Some (s1, 0) \<and> MQTTContextThread_end s1 = Some s2
      \<and> MQTT_IF_Deinit True s2 = Some (s3, 0) \<and> MQTT_IF_Init True 0 1 0 s3 = Some (s4, 0)
      \<and> moduleState s4 = MQTT_STATE_INITIALIZED"
    using s1 s2(1,3) by (fastforce simp: MQTT_IF_Init_def lock_def unlock_def)
qed

text \<open>
  The context thread resets the state of the module without looking at it. When it comes after the
  deinitialisation, the module is marked as initialised although its application thread has been told to end,
  and the next initialisation is refused; when it comes before it, the restart succeeds.
\<close>

theorem context_thread_race:
  assumes "if_ok s as" "moduleState s = MQTT_STATE_CONNECTED" "length (msgQueue s) < MQ_MAXMSG"
  shows "(\<exists>s1 s2 s3. MQTT_IF_Disconnect 0 s = Some (s1, 0) \<and> MQTT_IF_Deinit True s1 = Some (s2, 0)
      \<and> MQTTContextThread_end s2 = Some s3 \<and> MQTT_IF_Init m i mq t s3 = Some (s3, - 1))
    \<and> (\<exists>s1 s2 s3 s4. MQTT_IF_Disconnect 0 s = Some (s1, 0) \<and> MQTTContextThread_end s1 = Some s2
      \<and> MQTT_IF_Deinit True s2 = Some (s3, 0) \<and> MQTT_IF_Init True 0 1 0 s3 = Some (s4, 0)
      \<and> moduleState s4 = MQTT_STATE_INITIALIZED)"
  using context_thread_race_parts [OF assms] by blast

lemma context_thread_race_witness:
  "\<exists>s1 s2 s3. MQTT_IF_Disconnect 0 two_topics = Some (s1, 0) \<and> MQTT_IF_Deinit True s1 = Some (s2, 0)
    \<and> MQTTContextThread_end s2 = Some s3 \<and> MQTT_IF_Init True 0 1 0 s3 = Some (s3, - 1)"
proof -
  have "length (msgQueue two_topics) < MQ_MAXMSG"
    by (simp add: two_topics_def mMQTTContext_init_def MQ_MAXMSG_def)
  from context_thread_race [OF two_topics_ok this] show ?thesis by blast
qed

text \<open>
  A disconnection that fails leaves its flag set: the next loss of the connection by the broker is reported
  to the application as a disconnection by the client.
\<close>

theorem failed_disconnect_misreports:
  assumes "if_ok s as" "moduleState s = MQTT_STATE_CONNECTED" "eventCB s" "d < 0"
    and "q_event q = MQTT_EVENT_SERVER_DISCONNECT"
  shows "\<exists>s1 s2. MQTT_IF_Disconnect d s = Some (s1, d) \<and> moduleState s1 = MQTT_STATE_CONNECTED
    \<and> app_handle rets q s1 = Some (s2, False) \<and> cb_calls s2 = cb_calls s @ [EventCB MQTT_EVENT_CLIENT_DISCONNECT]"
  using assms
  by (auto simp: MQTT_IF_Disconnect_def app_handle_def if_ok_def lock_def unlock_def call_event_def)

lemma failed_disconnect_misreports_witness:
  "\<exists>s1 s2. MQTT_IF_Disconnect (- 4) two_topics = Some (s1, - 4)
    \<and> app_handle [] (event_elem MQTT_EVENT_SERVER_DISCONNECT) s1 = Some (s2, False)
    \<and> cb_calls s2 = [EventCB MQTT_EVENT_CLIENT_DISCONNECT]"
proof -
  have e: "eventCB two_topics" "cb_calls two_topics = []" "(- 4 :: int) < 0"
    "q_event (event_elem MQTT_EVENT_SERVER_DISCONNECT) = MQTT_EVENT_SERVER_DISCONNECT"
    by (simp_all add: two_topics_def mMQTTContext_init_def event_elem_def)
  from failed_disconnect_misreports [OF two_topics_ok e(1,3,4), of "[]"] e(2) show ?thesis by auto
qed

end
