(* ===== verification/Mqtt_App_Props.thy ===== *)
theory Mqtt_App_Props
  imports Mqtt_App Mqtt_If_Props
begin

text \<open>
  The application part of \<open>mqtt_user.c\<close>: the topics and messages it publishes, the identification protocol, the
  sequence of data messages and the client name.
\<close>

section \<open>Topics\<close>

text \<open>The topic a publication is meant for.\<close>

definition publish_topic :: "u16 \<Rightarrow> u16 \<Rightarrow> string" where
  "publish_topic type_publish dev =
     (if type_publish = TYPE_CMD_DEFAULT_ID then ''CC32xx/cmd/d2s/255''
      else if type_publish = TYPE_DATA_DEFAULT_ID then ''CC32xx/data/255''
      else if type_publish = TYPE_CMD then ''CC32xx/cmd/d2s/'' @ dec_string (unat dev)
      else ''CC32xx/data/'' @ dec_string (unat dev))"

lemma dec_string_dev: "length (dec_string (unat (dev :: u16))) \<le> 5"
  using dec_string_length_le [of "unat dev" 4] unat_u16_lt [of dev] by simp

lemma dec_string_pos: "1 \<le> length (dec_string n)"
  using dec_string_nonempty [of n] by (cases "dec_string n") auto

lemma publish_overruns:
  assumes "type_publish \<in> {TYPE_CMD_DEFAULT_ID, TYPE_DATA_DEFAULT_ID, TYPE_CMD, TYPE_DATA}"
  shows "mqtt_publish 0 dev publish_ret type_publish payload s = None"
  using assms dec_string_pos [of "unat dev"]
  by (auto simp: mqtt_publish_def topic_in_def strcat_into_def strcpy_into_def topic_defs type_defs Let_def
      split: Option.bind_splits)

text \<open>
  (C35) Every publication overruns an array on the stack: the arrays for the topics are too small by at least one
  character for every device number, the one for the decimal number from ten on.
\<close>

theorem publish_overruns_stack:
  assumes "type_publish \<in> {TYPE_CMD_DEFAULT_ID, TYPE_DATA_DEFAULT_ID, TYPE_CMD, TYPE_DATA}"
  shows "mqtt_publish 0 dev publish_ret type_publish payload s = None"
  by (rule publish_overruns [OF assms])

lemma publish_overruns_stack_witness:
  "mqtt_publish 0 3 0 TYPE_DATA [1, 2] (two_topics) = None"
  using publish_overruns_stack [of TYPE_DATA 3] by simp

text \<open>The publication when the arrays on the stack are followed by spare bytes.\<close>

lemma publish_topic_of:
  assumes "type_publish \<in> {TYPE_CMD_DEFAULT_ID, TYPE_DATA_DEFAULT_ID, TYPE_CMD, TYPE_DATA}" "5 \<le> slack"
  shows "mqtt_publish slack dev publish_ret type_publish payload s
    = MQTT_IF_Publish publish_ret (publish_topic type_publish dev) payload s"
  using assms dec_string_dev [of dev]
  by (auto simp: mqtt_publish_def topic_in_def strcat_into_def strcpy_into_def topic_defs type_defs Let_def
      publish_topic_def)

text \<open>More spare bytes change nothing.\<close>

lemma strcpy_more: "strcpy_into cap src = Some t \<Longrightarrow> cap \<le> cap' \<Longrightarrow> strcpy_into cap' src = Some t"
  by (simp add: strcpy_into_def split: if_splits)

lemma topic_more: "topic_in slack prefix sz number = Some t \<Longrightarrow> topic_in (slack + n) prefix sz number = Some t"
  by (simp add: topic_in_def strcat_into_def strcpy_into_def Let_def split: if_splits)

lemma publish_more_spare:
  assumes "mqtt_publish slack dev r type_publish payload s = Some x"
  shows "mqtt_publish (slack + n) dev r type_publish payload s = Some x"
proof -
  obtain t where t: "strcpy_into (sizeof_id_device + slack) (dec_string (unat dev)) = Some t"
    using assms by (cases "strcpy_into (sizeof_id_device + slack) (dec_string (unat dev))") (simp_all add: mqtt_publish_def)
  then have t': "strcpy_into (sizeof_id_device + (slack + n)) (dec_string (unat dev)) = Some t"
    by (rule strcpy_more) simp
  have more: "Option.bind (topic_in (slack + n) p z d) f = Some x" if "Option.bind (topic_in slack p z d) f = Some x" for p z d f
    using that topic_more [of slack p z d] by (cases "topic_in slack p z d") simp_all
  show ?thesis
    using assms unfolding mqtt_publish_def t t' Option.bind.bind_lunit by (auto intro: more split: if_split_asm)
qed

text \<open>
  With five spare bytes behind these arrays a publication is exactly one publication of the module, of the given
  payload under the topic of its type and of the full device number.
\<close>

theorem publish_sends_topic:
  assumes "type_publish \<in> {TYPE_CMD_DEFAULT_ID, TYPE_DATA_DEFAULT_ID, TYPE_CMD, TYPE_DATA}" "5 \<le> slack"
  shows "mqtt_publish slack dev publish_ret type_publish payload s
    = MQTT_IF_Publish publish_ret (publish_topic type_publish dev) payload s"
  by (rule publish_topic_of [OF assms])

lemma if_publish_free:
  assumes "if_free s" "moduleState s = MQTT_STATE_CONNECTED"
  shows "MQTT_IF_Publish ret topic payload s = Some (s\<lparr>pub_calls := pub_calls s @ [(topic, payload)]\<rparr>, ret)"
proof -
  have "s\<lparr>locked := False, pub_calls := x\<rparr> = s\<lparr>pub_calls := x\<rparr>" for x
    using assms(1) by (cases s) (simp add: if_free_def)
  then show ?thesis
    using assms by (simp add: MQTT_IF_Publish_def lock_def unlock_def if_free_def)
qed

lemma if_publish_connected:
  assumes "if_ok s as" "moduleState s = MQTT_STATE_CONNECTED"
  shows "MQTT_IF_Publish ret topic payload s = Some (s\<lparr>pub_calls := pub_calls s @ [(topic, payload)]\<rparr>, ret)"
  by (rule if_publish_free) (use assms in \<open>simp_all add: if_ok_def if_free_def\<close>)

lemma publish_sends_topic_witness:
  "\<exists>s'. mqtt_publish 5 300 0 TYPE_DATA [1, 2] two_topics = Some (s', 0)
    \<and> pub_calls s' = [(''CC32xx/data/'' @ dec_string 300, [1, 2])]"
  using publish_sends_topic [of TYPE_DATA 5 300 0 "[1, 2]" two_topics]
    if_publish_connected [OF two_topics_ok, of 0 "publish_topic TYPE_DATA 300" "[1, 2]"]
  by (simp add: publish_topic_def type_defs two_topics_def mMQTTContext_init_def)

section \<open>Commands\<close>

lemma rssi_bytes:
  assumes "length junk = 16"
  shows "length (enc_msg_cmd (rssi_message dev st junk)) = 22
    \<and> msg_size (cmd_h (dec_msg_cmd (enc_msg_cmd (rssi_message dev st junk)))) = 14
    \<and> drop 14 (enc_msg_cmd (rssi_message dev st junk)) = drop 8 junk
    \<and> dec_cmd_rssi (take 8 (cmd_p (dec_msg_cmd (enc_msg_cmd (rssi_message dev st junk)))))
        = \<lparr>avg_data_ctrl_rssi = AvarageDataCtrlRssi st, avg_msg_mnt_rssi = AvarageMgMntRssi st,
           rcv_fcs_err_pkt_num = ReceivedValidPacketsNumber st\<rparr>"
proof -
  let ?m = "rssi_message dev st junk"
  have p: "length (cmd_p ?m) = 16"
    using assms by (simp add: rssi_message_def sizeof_cmd_rssi_t_def cmd_rssi.enc_length)
  have d: "dec_msg_cmd (enc_msg_cmd ?m) = ?m" by (rule msg_cmd_fmt.dec_enc [OF p])
  have "length (enc_header (cmd_h ?m)) = 4" by (rule header.enc_length) simp
  then have "drop 14 (enc_msg_cmd ?m) = drop 8 junk"
    by (simp add: enc_msg_cmd_def rssi_message_def sizeof_cmd_rssi_t_def cmd_rssi.enc_length)
  then show ?thesis
    using msg_cmd_fmt.enc_length [OF p]
    by (simp add: d) (simp add: rssi_message_def sizes cmd_rssi.enc_length cmd_rssi.dec_enc)
qed

text \<open>
  (C34) The signal report, when the module is connected and five bytes behind the arrays of \<open>mqtt_publish\<close> are unused:
  \<open>send_rssi\<close> makes one publication, under the command topic of the device, and returns its result. Its payload has the 22
  bytes of the whole structure while its header announces 14; the last eight are unset memory. Decoded, it carries the two
  signal strengths, and the number of valid packets in the field for packets with a wrong checksum.
\<close>

theorem rssi_report:
  assumes "if_ok s as" "moduleState s = MQTT_STATE_CONNECTED" "5 \<le> slack" "length junk = 16"
  shows "\<exists>bytes. send_rssi slack dev ret st junk s
      = Some (s\<lparr>pub_calls := pub_calls s @ [(publish_topic TYPE_CMD dev, bytes)]\<rparr>, ret)
    \<and> length bytes = 22 \<and> msg_size (cmd_h (dec_msg_cmd bytes)) = 14 \<and> drop 14 bytes = drop 8 junk
    \<and> dec_cmd_rssi (take 8 (cmd_p (dec_msg_cmd bytes)))
        = \<lparr>avg_data_ctrl_rssi = AvarageDataCtrlRssi st, avg_msg_mnt_rssi = AvarageMgMntRssi st,
           rcv_fcs_err_pkt_num = ReceivedValidPacketsNumber st\<rparr>"
  using rssi_bytes [OF assms(4)]
  by (intro exI [of _ "enc_msg_cmd (rssi_message dev st junk)"])
    (simp add: send_rssi_def publish_topic_of assms(3) if_publish_connected [OF assms(1,2)])

lemma rssi_report_witness:
  "\<exists>s' bytes. send_rssi 5 7 0 \<lparr>AvarageDataCtrlRssi = 1, AvarageMgMntRssi = 2,
     ReceivedFcsErrorPacketsNumber = 3, ReceivedValidPacketsNumber = 4\<rparr> (replicate 16 0xAA) two_topics = Some (s', 0)
    \<and> pub_calls s' = [(publish_topic TYPE_CMD 7, bytes)] \<and> length bytes = 22 \<and> drop 14 bytes = replicate 8 0xAA"
  using rssi_report [OF two_topics_ok, of 5 "replicate 16 0xAA" 7 0 "\<lparr>AvarageDataCtrlRssi = 1, AvarageMgMntRssi = 2,
     ReceivedFcsErrorPacketsNumber = 3, ReceivedValidPacketsNumber = 4\<rparr>"]
  by (auto simp: two_topics_def mMQTTContext_init_def)

text \<open>
  The command handler reads a payload without knowing its length. It stays within the received bytes and
  their NUL exactly when they are long enough for the headers and, for an identification, for its body.
\<close>

theorem cmd_zero_reads_in_bounds:
  "cmd_zero mac p dev \<noteq> None \<longleftrightarrow>
     4 \<le> length p \<and> (p ! 0 = 0 \<and> p ! 1 = CMD \<longrightarrow>
       6 \<le> length p \<and> (dec_w (take 2 (drop 4 p)) = CMD_RESP_ID \<longrightarrow> 14 \<le> length p))"
  by (auto simp: cmd_zero_def sizes peek_def dec_header_def Let_def split: if_splits)

lemma cmd_zero_reads_in_bounds_witness:
  "cmd_zero [1, 2, 3, 4, 5, 6] [0, 1, 4] 255 = None \<and> cmd_zero [1, 2, 3, 4, 5, 6] [7, 1, 4, 0] 255 \<noteq> None"
proof -
  let ?mac = "[1, 2, 3, 4, 5, 6] :: u8 list"
  have "\<not> 4 \<le> length [0, 1, 4 :: u8]" by simp
  then have "cmd_zero ?mac [0, 1, 4] 255 = None"
    using cmd_zero_reads_in_bounds [of ?mac "[0, 1, 4]" 255] by auto
  moreover have "cmd_zero ?mac [7, 1, 4, 0] 255 \<noteq> None"
    by (rule cmd_zero_reads_in_bounds [THEN iffD2]) simp
  ultimately show ?thesis by simp
qed

text \<open>The bytes of an identification message, followed by anything.\<close>

definition resp_id_message :: "u8 \<Rightarrow> u8 \<Rightarrow> u16 \<Rightarrow> u16 \<Rightarrow> cmd_resp_id_t \<Rightarrow> u8 list" where
  "resp_id_message sender operation sz cid c =
     enc_header \<lparr>id_device = sender, msg_op = operation, msg_size = sz\<rparr> @ enc_w cid @ enc_cmd_resp_id c"

text \<open>The handler on an identification message.\<close>

lemma cmd_zero_message:
  assumes "length (rsp_mac_addr c) = 6"
  shows "cmd_zero mac (resp_id_message sender operation sz cid c @ rest) dev =
    Some (if sender = 0 \<and> operation = CMD \<and> cid = CMD_RESP_ID \<and> rsp_mac_addr c = mac
          then cmd_resp_id c else dev)"
proof -
  let ?h = "\<lparr>id_device = sender, msg_op = operation, msg_size = sz\<rparr>"
  let ?p = "resp_id_message sender operation sz cid c @ rest"
  have l: "length (enc_header ?h) = 4" "length (enc_w cid) = 2" "length (enc_cmd_resp_id c) = 8"
    using assms by (simp_all add: header.enc_length cmd_resp.enc_length)
  have 1: "peek ?p 0 4 = Some (enc_header ?h)" "peek ?p 4 2 = Some (enc_w cid)"
    "peek ?p 6 8 = Some (enc_cmd_resp_id c)"
    using l by (simp_all add: resp_id_message_def peek_def)
  have 2: "dec_header (enc_header ?h) = ?h" "dec_cmd_resp_id (enc_cmd_resp_id c) = c" "dec_w (enc_w cid) = cid"
    using assms header.dec_enc [of ?h] cmd_resp.dec_enc [of c] w16.dec_enc [of cid] by simp_all
  obtain p where p: "?p = p" by simp
  note 1 = 1 [unfolded p]
  have six: "sizeof_msg_header_t + sizeof_cmd_header_t = 6" by (simp add: sizes)
  show ?thesis
    unfolding p cmd_zero_def six sizes(1-6)
    by (simp add: 1 2)
qed

text \<open>
  (C33) Identification: the handler takes the device number out of an identification message exactly when the message
  comes from the server and carries the MAC address of the device; any other well-formed command leaves the
  number as it is.
\<close>

theorem cmd_zero_identifies:
  assumes "length (rsp_mac_addr c) = 6"
  shows "cmd_zero mac (resp_id_message sender operation sz cid c @ rest) dev =
    Some (if sender = 0 \<and> operation = CMD \<and> cid = CMD_RESP_ID \<and> rsp_mac_addr c = mac
          then cmd_resp_id c else dev)"
  by (rule cmd_zero_message [OF assms])

lemma cmd_zero_identifies_witness:
  "cmd_zero [1, 2, 3, 4, 5, 6]
     (resp_id_message 0 CMD 14 CMD_RESP_ID \<lparr>rsp_mac_addr = [1, 2, 3, 4, 5, 6], cmd_resp_id = 17\<rparr> @ [0]) 255
   = Some 17"
  using cmd_zero_identifies [of "\<lparr>rsp_mac_addr = [1, 2, 3, 4, 5, 6], cmd_resp_id = 17\<rparr>"
      "[1, 2, 3, 4, 5, 6]" 0 CMD 14 CMD_RESP_ID "[0]" 255] by simp

section \<open>The request for a number\<close>

text \<open>The bytes that are published: the first 20 of the message.\<close>

lemma ready_message_bytes:
  assumes "length mac = 6" "length junk = 16"
  shows "take ready_cmd_len (enc_msg_cmd (ready_message mac junk)) =
    enc_header \<lparr>id_device = 255, msg_op = CMD, msg_size = 20\<rparr> @ enc_w CMD_READY @ mac @ enc_w (9 :: u64)"
proof -
  have "ready_time_per_sample = 9"
    by (simp add: ready_time_per_sample_def F_SAMPLE_def DWS_RATE_def)
  moreover have "length (enc_header (h :: msg_header_t)) = 4" for h by (rule header.enc_length) simp
  ultimately show ?thesis
    using assms by (simp add: enc_msg_cmd_def ready_message_def ready_cmd_len_def sizes enc_cmd_ready_def)
qed

text \<open>Messages that do not give the device a number, and pauses that bring only such messages.\<close>

definition other_message :: "u8 list \<Rightarrow> u8 list \<Rightarrow> bool" where
  "other_message mac p \<longleftrightarrow> (\<exists>sender operation sz cid c rest. p = resp_id_message sender operation sz cid c @ rest
     \<and> length (rsp_mac_addr c) = 6 \<and> \<not> (sender = 0 \<and> operation = CMD \<and> cid = CMD_RESP_ID \<and> rsp_mac_addr c = mac))"

lemma other_messages_kept: "\<forall>p \<in> set ms. other_message mac p \<Longrightarrow> run (cmd_zero mac) ms dev = Some dev"
proof (induction ms)
  case (Cons p ms)
  then have "cmd_zero mac p dev = Some dev" using cmd_zero_message by (auto simp: other_message_def)
  then show ?case using Cons by simp
qed simp

lemma number_received:
  assumes "\<forall>p \<in> set ms. other_message mac p" "length mac = 6"
  shows "run (cmd_zero mac) (ms @ [resp_id_message 0 CMD sz CMD_RESP_ID \<lparr>rsp_mac_addr = mac, cmd_resp_id = dev'\<rparr> @ rest]) dev
    = Some dev'"
  using assms by (simp add: run_append other_messages_kept cmd_zero_message)

lemma ask_loop_polls:
  assumes "if_ok s as" "moduleState s = MQTT_STATE_CONNECTED" "5 \<le> slack"
    and "\<forall>p \<in> set ps. run (cmd_zero mac) (snd p) 255 = Some 255" "run (cmd_zero mac) ms 255 = Some dev'" "dev' \<noteq> 255"
  shows "ask_loop slack mac msg (ps @ (r', ms) # rest) 255 r s = Some (s\<lparr>pub_calls := pub_calls s @
    replicate (Suc (length ps)) (''CC32xx/cmd/d2s/255'', take ready_cmd_len msg)\<rparr>, dev', r')"
  using assms(1,2,4)
proof (induction ps arbitrary: s r)
  case Nil
  then show ?case
    using assms(3,5,6) if_publish_connected
    by (simp add: ask_loop.simps publish_topic_of publish_topic_def TYPE_CMD_DEFAULT_ID_def)
next
  case (Cons p ps)
  let ?s = "s\<lparr>pub_calls := pub_calls s @ [(''CC32xx/cmd/d2s/255'', take ready_cmd_len msg)]\<rparr>"
  have "if_ok ?s as" "moduleState ?s = MQTT_STATE_CONNECTED"
    using Cons.prems(1,2) by (simp_all add: if_ok_def)
  note IH = Cons.IH [OF this]
  obtain r1 m where p: "p = (r1, m)" "run (cmd_zero mac) m 255 = Some 255" using Cons.prems(3) by (cases p) auto
  show ?case
    using IH [of r1] Cons.prems(3) assms(3) if_publish_connected [OF Cons.prems(1,2)]
    by (simp add: p ask_loop.simps [of slack mac msg "(r1, m) # ps @ (r', ms) # rest"]
        publish_topic_of publish_topic_def TYPE_CMD_DEFAULT_ID_def)
qed

text \<open>
  The request for a device number: while only other messages arrive, the device publishes one request
  per turn; it returns with the number of the first message that answers it and the result of the last publication. A request is
  20 bytes with the length 20 in its header, the MAC address, and 9 as the time per sample, where
  nanoseconds are meant.
\<close>

theorem ask_for_id_requests:
  assumes "if_ok s as" "moduleState s = MQTT_STATE_CONNECTED" "5 \<le> slack" "length mac = 6" "length junk = 16"
    and "\<forall>p \<in> set ps. \<forall>m \<in> set (snd p). other_message mac m" "\<forall>m \<in> set ms. other_message mac m" "dev' \<noteq> 255"
  shows "ask_for_id slack mac junk
      (ps @ (r', ms @ [resp_id_message 0 CMD sz CMD_RESP_ID \<lparr>rsp_mac_addr = mac, cmd_resp_id = dev'\<rparr> @ final]) # rest) s
    = Some (s\<lparr>pub_calls := pub_calls s @
    replicate (Suc (length ps)) (''CC32xx/cmd/d2s/255'',
      enc_header \<lparr>id_device = 255, msg_op = CMD, msg_size = 20\<rparr> @ enc_w CMD_READY @ mac @ enc_w (9 :: u64))\<rparr>,
    dev', r')"
proof -
  have "\<forall>p \<in> set ps. run (cmd_zero mac) (snd p) 255 = Some 255" using assms(6) other_messages_kept by blast
  from ask_loop_polls [OF assms(1-3) this number_received [OF assms(7,4)] assms(8)] show ?thesis
    using ready_message_bytes [OF assms(4,5)] by (simp add: ask_for_id_def)
qed

lemma other_example: "other_message [1, 2, 3, 4, 5, 6]
    (resp_id_message 0 CMD 14 CMD_RESP_ID \<lparr>rsp_mac_addr = [6, 5, 4, 3, 2, 1], cmd_resp_id = 8\<rparr> @ [0])"
  unfolding other_message_def by (intro exI conjI) (rule refl, simp_all)

lemma ask_for_id_requests_witness:
  "\<exists>s'. ask_for_id 5 [1, 2, 3, 4, 5, 6] (replicate 16 0)
      ([(0, [resp_id_message 0 CMD 14 CMD_RESP_ID \<lparr>rsp_mac_addr = [6, 5, 4, 3, 2, 1], cmd_resp_id = 8\<rparr> @ [0]])]
       @ (0, [] @ [resp_id_message 0 CMD 14 CMD_RESP_ID \<lparr>rsp_mac_addr = [1, 2, 3, 4, 5, 6], cmd_resp_id = 3\<rparr> @ [0]]) # []) two_topics
      = Some (s', 3, 0)
    \<and> length (pub_calls s') = 2"
  by (subst ask_for_id_requests [OF two_topics_ok])
    (simp_all add: other_example, simp add: two_topics_def mMQTTContext_init_def)

section \<open>The data messages\<close>

lemma stamp_message_ok [simp]: "msg_data_ok (stamp_message dev mid m) = msg_data_ok m"
  by (simp add: stamp_message_def Let_def msg_data_ok_def)

text \<open>The second byte of the device number does not survive.\<close>

lemma stamp_message_header:
  "msg_h (stamp_message dev mid m) = \<lparr>id_device = ucast dev, msg_op = DATA, msg_size = 12352\<rparr>"
  "data_p (stamp_message dev mid m) = data_p m"
  "data_h (stamp_message dev mid m) = (data_h m)\<lparr>data_id := mid, buffer_size := 158, data_buffer_num := 78\<rparr>"
  by (cases "msg_h m"; cases "data_h m"; simp add: stamp_message_def Let_def sizes DATA_BUFFER_MAX_def)+

text \<open>An environment in which a turn is defined: ten messages, and the status becomes \<open>start\<close>.\<close>

definition send_env_ok :: "send_env \<Rightarrow> bool" where
  "send_env_ok e \<longleftrightarrow> length (se_messages e) = N_MSG_DATA \<and> (\<exists>x\<in>set (se_polls e). x \<noteq> 0)"

lemma wait_start_ok: "(\<exists>x\<in>set xs. x \<noteq> 0) \<Longrightarrow> \<exists>ys. wait_start xs = Some ys"
  by (induction xs) auto

text \<open>Message \<open>k\<close> as the broker receives it: the buffers and the time of message \<open>k mod 10\<close> of the ring under a new header.\<close>

definition published :: "nat \<Rightarrow> send_env \<Rightarrow> string \<times> u8 list" where
  "published k e = (let m = se_messages e ! (k mod 10) in
     (''CC32xx/data/'' @ dec_string (unat (se_dev e)),
      enc_msg_data \<lparr>msg_h = \<lparr>id_device = ucast (se_dev e), msg_op = DATA, msg_size = 12352\<rparr>,
        data_h = \<lparr>data_id = word_of_nat k, buffer_size = 158, data_buffer_num = 78, rtc_value = rtc_value (data_h m),
          corr_buffer_id = corr_buffer_id (data_h m)\<rparr>,
        data_p = data_p m\<rparr>))"

lemma published_stamp:
  "published k e = (publish_topic TYPE_DATA (se_dev e),
     enc_msg_data (stamp_message (se_dev e) (word_of_nat k) (se_messages e ! (k mod N_MSG_DATA))))"
proof -
  let ?m = "se_messages e ! (k mod 10)" and ?s = "stamp_message (se_dev e) (word_of_nat k) (se_messages e ! (k mod 10))"
  have "?s = \<lparr>msg_h = msg_h ?s, data_h = data_h ?s, data_p = data_p ?s\<rparr>" by simp
  also have "\<dots> = \<lparr>msg_h = \<lparr>id_device = ucast (se_dev e), msg_op = DATA, msg_size = 12352\<rparr>,
      data_h = \<lparr>data_id = word_of_nat k, buffer_size = 158, data_buffer_num = 78, rtc_value = rtc_value (data_h ?m),
        corr_buffer_id = corr_buffer_id (data_h ?m)\<rparr>, data_p = data_p ?m\<rparr>"
    by (simp add: stamp_message_header)
  finally show ?thesis
    by (simp add: published_def publish_topic_def type_defs N_MSG_DATA_def Let_def)
qed

lemma send_data_step:
  assumes "if_ok s as" "moduleState s = MQTT_STATE_CONNECTED" "5 \<le> slack" "send_env_ok e"
    and "st = \<lparr>send_n_msg_data = k mod N_MSG_DATA, msg_data_id = word_of_nat k, watchdog_clears = w\<rparr>"
  shows "send_data_body slack e (st, s) = Some
    (\<lparr>send_n_msg_data = Suc k mod N_MSG_DATA, msg_data_id = word_of_nat (Suc k),
      watchdog_clears = w + (if se_publish_ret e < 0 then 0 else 1)\<rparr>,
     s\<lparr>pub_calls := pub_calls s @ [published k e]\<rparr>)"
proof -
  obtain ys where "wait_start (se_polls e) = Some ys"
    using assms(4) wait_start_ok by (auto simp: send_env_ok_def)
  moreover have "k mod N_MSG_DATA < length (se_messages e)"
    using assms(4) by (simp add: send_env_ok_def N_MSG_DATA_def)
  ultimately show ?thesis
    using assms if_publish_connected [OF assms(1,2)]
    by (simp add: send_data_body_def publish_topic_of published_stamp mod_Suc_eq add.commute)
qed

text \<open>
  (C20) The data thread, when the module is connected, the status lets it send in every turn, and five bytes behind the arrays of
  \<open>mqtt_publish\<close> are unused, publishes the messages of the ring in order: its \<open>k\<close>-th publication has the topic of the device
  number, the identifier \<open>k\<close> in 32 bits, the low byte of the device number, the operation \<open>DATA\<close>, the sizes 12352, 158
  and 78, and the time and the buffers of message \<open>k mod 10\<close>; the watchdog is cleared once for each publication that succeeds.
\<close>

theorem send_data_sequence:
  assumes "if_ok s as" "moduleState s = MQTT_STATE_CONNECTED" "5 \<le> slack" "list_all send_env_ok es"
  shows "\<exists>st. run (send_data_body slack) es (send_init, s) = Some (st,
      s\<lparr>pub_calls := pub_calls s @ map (\<lambda>k. published k (es ! k)) [0..<length es]\<rparr>)
    \<and> send_n_msg_data st = length es mod N_MSG_DATA \<and> msg_data_id st = word_of_nat (length es)
    \<and> watchdog_clears st = length (filter (\<lambda>e. 0 \<le> se_publish_ret e) es)"
  using assms(4)
proof (induction es rule: rev_induct)
  case Nil
  then show ?case by (simp add: send_init_def N_MSG_DATA_def)
next
  case (snoc e es)
  let ?s = "s\<lparr>pub_calls := pub_calls s @ map (\<lambda>k. published k (es ! k)) [0..<length es]\<rparr>"
  obtain st where st: "run (send_data_body slack) es (send_init, s) = Some (st, ?s)"
    "send_n_msg_data st = length es mod N_MSG_DATA" "msg_data_id st = word_of_nat (length es)"
    "watchdog_clears st = length (filter (\<lambda>e. 0 \<le> se_publish_ret e) es)"
    using snoc by auto
  have s: "if_ok ?s as" "moduleState ?s = MQTT_STATE_CONNECTED" using assms(1,2) by (simp_all add: if_ok_def)
  have e: "send_env_ok e" using snoc.prems by simp
  have "st = \<lparr>send_n_msg_data = length es mod N_MSG_DATA, msg_data_id = word_of_nat (length es),
      watchdog_clears = watchdog_clears st\<rparr>"
    using st by (cases st) simp
  note step = send_data_step [OF s assms(3) e this]
  have "map (\<lambda>k. published k ((es @ [e]) ! k)) [0..<length es] = map (\<lambda>k. published k (es ! k)) [0..<length es]"
    by (simp add: nth_append)
  then show ?case
    using st step by (simp add: run_append nth_append)
qed

text \<open>A message of zeros, for the examples.\<close>

definition zero_message :: msg_data_t where
  "zero_message = \<lparr>msg_h = \<lparr>id_device = 0, msg_op = 0, msg_size = 0\<rparr>,
     data_h = \<lparr>data_id = 0, buffer_size = 0, data_buffer_num = 0, rtc_value = 0, corr_buffer_id = 0\<rparr>,
     data_p = replicate DATA_BUFFER_MAX \<lparr>buffer_id = 0, buf_p = replicate DATA_BUFFER_L 0\<rparr>\<rparr>"

lemma send_data_sequence_witness:
  "\<exists>st s'. run (send_data_body 5)
      (replicate 2 \<lparr>se_messages = replicate 10 zero_message, se_dev = 3, se_polls = [0, 1], se_publish_ret = 0\<rparr>)
      (send_init, two_topics) = Some (st, s')
    \<and> length (pub_calls s') = 2 \<and> watchdog_clears st = 2"
proof -
  let ?e = "\<lparr>se_messages = replicate 10 zero_message, se_dev = 3, se_polls = [0, 1], se_publish_ret = 0\<rparr>"
  have "list_all send_env_ok (replicate 2 ?e)" by (simp add: send_env_ok_def N_MSG_DATA_def list_all_iff)
  from send_data_sequence [OF two_topics_ok _ this, of 5] show ?thesis
    by (auto simp: two_topics_def mMQTTContext_init_def)
qed

section \<open>The client name\<close>

definition hex_byte :: "u8 \<Rightarrow> string" where
  "hex_byte m = [hex_nibble (drop_bit 4 m AND 0xf), hex_nibble (m AND 0xf)]"

definition nibble_of :: "char \<Rightarrow> nat" where
  "nibble_of c = (if of_char c \<ge> (97 :: nat) then of_char c - 87 else of_char c - 48)"

fun unhex :: "string \<Rightarrow> u8 list" where
  "unhex (c # d # cs) = word_of_nat (16 * nibble_of c + nibble_of d) # unhex cs"
| "unhex _ = []"

lemma nibble_of_hex: "unat n < 16 \<Longrightarrow> nibble_of (hex_nibble n) = unat n"
  by (simp add: nibble_of_def hex_nibble_def)

lemma low_nibble: "unat (m AND 0xf :: u8) = unat m mod 16"
proof -
  have "m AND 0xf = take_bit 4 m" by (simp add: take_bit_eq_mask mask_eq_exp_minus_1)
  then have "unat (m AND 0xf) = take_bit 4 (unat m)" by (simp only: unsigned_take_bit_eq)
  then show ?thesis by (simp add: take_bit_eq_mod)
qed

lemma high_nibble: "unat (drop_bit 4 m AND 0xf :: u8) = unat m div 16"
proof -
  have "unat (drop_bit 4 m) = unat m div 16" by (simp only: unat_drop_bit_eq) (simp add: drop_bit_eq_div)
  then show ?thesis using unat_u8_lt [of m] low_nibble [of "drop_bit 4 m"] by simp
qed

lemma unhex_hex: "unhex (hex_byte m @ cs) = m # unhex cs"
proof -
  note high_nibble [of m]
  moreover have "unat m div 16 < 16" using unat_u8_lt [of m] by simp
  ultimately have "unhex (hex_byte m @ cs) = word_of_nat (16 * (unat m div 16) + unat m mod 16) # unhex cs"
    by (simp only: hex_byte_def append.simps unhex.simps) (simp add: nibble_of_hex low_nibble high_nibble)
  then show ?thesis by simp
qed

lemma unhex_hexs: "unhex (concat (map hex_byte ms)) = ms"
proof (induction ms)
  case (Cons m ms)
  then show ?case using unhex_hex [of m "concat (map hex_byte ms)"] by simp
qed simp

text \<open>
  The client name is the MAC address as twelve hexadecimal digits, from which the address can be read
  back; the thirteenth character of the array is not touched.
\<close>

theorem client_id_is_mac:
  assumes "length mac = 6" "length cid = 13"
  shows "\<exists>name. SetClientIdNamefromMacAddress mac cid = Some (name @ drop 12 cid)
    \<and> length name = 12 \<and> unhex name = mac"
proof -
  obtain m0 m1 m2 m3 m4 m5 where mac: "mac = [m0, m1, m2, m3, m4, m5]"
    using assms(1) by (auto simp: numeral_eq_Suc length_Suc_conv)
  obtain c0 c1 c2 c3 c4 c5 c6 c7 c8 c9 c10 c11 c12 where
    cid: "cid = [c0, c1, c2, c3, c4, c5, c6, c7, c8, c9, c10, c11, c12]"
    using assms(2) by (auto simp: numeral_eq_Suc length_Suc_conv)
  have "SetClientIdNamefromMacAddress mac cid = Some (concat (map hex_byte mac) @ drop 12 cid)"
    by (simp add: SetClientIdNamefromMacAddress_def SIZE_MAC_ADDR_def upt_rec mac cid hex_byte_def
        rd_def wr_def)
  moreover have "length (concat (map hex_byte mac)) = 12" by (simp add: mac hex_byte_def)
  ultimately show ?thesis using unhex_hexs [of mac] by blast
qed

lemma client_id_is_mac_witness:
  "\<exists>name. SetClientIdNamefromMacAddress [0, 0x1a, 0xff, 3, 4, 5] (replicate 13 NUL)
      = Some (name @ [NUL]) \<and> unhex name = [0, 0x1a, 0xff, 3, 4, 5]"
  using client_id_is_mac [of "[0, 0x1a, 0xff, 3, 4, 5]" "replicate 13 NUL"] by auto

end
