(* ===== verification/Threads.thy ===== *)
theory Threads
  imports Wifi_Props Mqtt_App_Props Downsampling "HOL-Library.Signed_Division"
begin

text \<open>
  The periodic threads: \<open>softtimer\<close> of \<open>empty.c\<close>, which a timer wakes every second to report the signal strength and to
  fetch the time, with \<open>sntp_get_time\<close>; and \<open>test_wifi\<close> of \<open>test_wifi_user.c\<close>, which watches the link, reconnects, and
  tells the data thread when to send. The softtimer thread is composed with the downsampling thread, to which it hands
  the time.
\<close>

section \<open>The softtimer thread\<close>

definition SECONDS_TO_NTP_SYNC :: int where "SECONDS_TO_NTP_SYNC = 1800"
definition SECONDS_TO_SEND_RSSI :: int where "SECONDS_TO_SEND_RSSI = 4"

lemmas softtimer_periods = SECONDS_TO_NTP_SYNC_def SECONDS_TO_SEND_RSSI_def

text \<open>
  The thread's counter, the shared objects it writes, the posts of its semaphore and the number of times the real-time
  clock was set to zero.
\<close>

record softtimer_state =
  cnt_softtimer_thread :: "64 word"
  ntp_time :: u64
  time_sync_status :: u64
  softtimer_semaphore :: nat
  rtc_resets :: nat

text \<open>
  What one second finds: the state of the network, the answer of the time server (its code, and the time stamp if the
  call wrote one), the statistics of the driver, the unset bytes of the message, the device number and the result of
  the publication.
\<close>

record second =
  sec_wifi :: wifi
  sec_sntp_ret :: int
  sec_sntp :: "u64 option"
  sec_stat :: SlDeviceGetStat_t
  sec_junk :: "u8 list"
  sec_dev :: u16
  sec_publish_ret :: int

definition sntp_get_time :: "second \<Rightarrow> softtimer_state \<Rightarrow> softtimer_state \<times> u64" where
  "sntp_get_time e s =
     (let ntp_time_stamp = (case sec_sntp e of None \<Rightarrow> 0 | Some t \<Rightarrow> t)
      in (s\<lparr>rtc_resets := rtc_resets s + 1\<rparr>, ntp_time_stamp))"

definition softtimer_callback :: "softtimer_state \<Rightarrow> softtimer_state" where
  "softtimer_callback s = s\<lparr>softtimer_semaphore := softtimer_semaphore s + 1\<rparr>"

text \<open>
  One turn after the semaphore wait. The flag is copied with the size of a pointer, four bytes of its eight. The
  counter is signed: \<open>smod\<close> is the remainder of C.
\<close>

definition softtimer_body ::
    "nat \<Rightarrow> second \<Rightarrow> softtimer_state \<times> mqttContext \<Rightarrow> (softtimer_state \<times> mqttContext) option" where
  "softtimer_body slack e x =
     (case x of (s, m) \<Rightarrow>
       do { m1 \<leftarrow> (if sint (cnt_softtimer_thread s) smod SECONDS_TO_SEND_RSSI = 0 \<and> test_wifi_connection (sec_wifi e) = 0
                   then map_option fst (send_rssi slack (sec_dev e) (sec_publish_ret e) (sec_stat e) (sec_junk e) m)
                   else Some m);
            let s1 = (if sint (cnt_softtimer_thread s) smod SECONDS_TO_NTP_SYNC = 0
                      then (let (s', synchro_time) = sntp_get_time e s
                            in s'\<lparr>ntp_time := synchro_time,
                                  time_sync_status := (time_sync_status s' AND NOT 0xFFFFFFFF) OR 1\<rparr>)
                      else s);
            Some (s1\<lparr>cnt_softtimer_thread := cnt_softtimer_thread s1 + 1\<rparr>, m1) })"

definition softtimer_init :: "u64 \<Rightarrow> u64 \<Rightarrow> softtimer_state" where
  "softtimer_init t st = \<lparr>cnt_softtimer_thread = 0, ntp_time = t, time_sync_status = st, softtimer_semaphore = 0,
     rtc_resets = 0\<rparr>"

text \<open>The counter after \<open>k\<close> turns; it overflows after \<open>2 ^ 63\<close> seconds.\<close>

lemma softtimer_period:
  assumes "k < 2 ^ 63" "p = 4 \<or> p = 1800"
  shows "sint (word_of_nat k :: 64 word) smod p = 0 \<longleftrightarrow> nat p dvd k"
proof -
  have "sint (word_of_nat k :: 64 word) = int k"
    using assms(1) by (simp add: signed_of_nat signed_take_bit_int_eq_self)
  moreover have "int k smod p = 0 \<longleftrightarrow> int k mod p = 0"
    using assms(2) by (cases "k = 0") (auto simp: smod_int_alt_def)
  moreover have "int k mod p = 0 \<longleftrightarrow> nat p dvd k"
    using assms(2) by (auto simp: mod_eq_0_iff_dvd simp flip: int_dvd_int_iff)
  ultimately show ?thesis by simp
qed

text \<open>The report of a second, if it makes one.\<close>

definition reports :: "nat \<Rightarrow> second \<Rightarrow> (string \<times> u8 list) list" where
  "reports k e =
     (if 4 dvd k \<and> \<not> IS_CONNECTED (g_ulStatus (sec_wifi e))
      then [(publish_topic TYPE_CMD (sec_dev e), enc_msg_cmd (rssi_message (sec_dev e) (sec_stat e) (sec_junk e)))]
      else [])"

definition fetched :: "second \<Rightarrow> u64" where
  "fetched e = (case sec_sntp e of None \<Rightarrow> 0 | Some t \<Rightarrow> t)"

lemma softtimer_turn:
  assumes "if_ok m as" "moduleState m = MQTT_STATE_CONNECTED" "5 \<le> slack"
    and "cnt_softtimer_thread s = word_of_nat k" "k < 2 ^ 63"
  shows "softtimer_body slack e (s, m) = Some
    ((if 1800 dvd k
      then s\<lparr>cnt_softtimer_thread := word_of_nat (Suc k), ntp_time := fetched e,
             time_sync_status := (time_sync_status s AND NOT 0xFFFFFFFF) OR 1, rtc_resets := rtc_resets s + 1\<rparr>
      else s\<lparr>cnt_softtimer_thread := word_of_nat (Suc k)\<rparr>),
     m\<lparr>pub_calls := pub_calls m @ reports k e\<rparr>)"
proof -
  have "sint (cnt_softtimer_thread s) smod 4 = 0 \<longleftrightarrow> 4 dvd k" "sint (cnt_softtimer_thread s) smod 1800 = 0 \<longleftrightarrow> 1800 dvd k"
    using softtimer_period [OF assms(5)] by (simp_all add: assms(4))
  moreover have "send_rssi slack (sec_dev e) (sec_publish_ret e) (sec_stat e) (sec_junk e) m
      = Some (m\<lparr>pub_calls := pub_calls m @ [(publish_topic TYPE_CMD (sec_dev e),
          enc_msg_cmd (rssi_message (sec_dev e) (sec_stat e) (sec_junk e)))]\<rparr>, sec_publish_ret e)"
    using if_publish_connected [OF assms(1,2)] assms(3) by (simp add: send_rssi_def publish_topic_of)
  ultimately show ?thesis
    using assms(4)
    by (auto simp: softtimer_body_def softtimer_periods reports_def test_wifi_connection_def sntp_get_time_def
        fetched_def Let_def add.commute)
qed

lemma between_syncs:
  assumes "\<not> (1800 :: nat) dvd n"
  shows "n div 1800 = (n - 1) div 1800" "(n + 1799) div 1800 = Suc (n div 1800)" "n div 1800 * 1800 < n"
proof -
  define q r where "q = n div 1800" and "r = n mod 1800 - 1"
  have "0 < n mod 1800" using assms by (simp add: mod_greater_zero_iff_not_dvd)
  then have n: "n = 1800 * q + (r + 1)"
    by (simp add: q_def r_def)
  have r: "r < 1799"
    using mod_less_divisor [of 1800 n] \<open>0 < n mod 1800\<close> unfolding r_def by linarith
  from n have "n - 1 = 1800 * q + r" "n + 1799 = 1800 * (q + 1) + r" "n div 1800 = q"
    using r by simp_all
  then show "n div 1800 = (n - 1) div 1800" "(n + 1799) div 1800 = Suc (n div 1800)"
    using r by simp_all
  show "n div 1800 * 1800 < n"
    unfolding \<open>n div 1800 = q\<close> using n by simp
qed

text \<open>
  (C27) The softtimer thread, second by second: it sends a signal report in every fourth second in which the device is
  \<^emph>\<open>not\<close> associated with the access point and in no other second, and it fetches the time in every 1800th second,
  the first included; the shared time is what the latest of these requests delivered, zero if it delivered nothing,
  and the real-time clock was reset once for each.
\<close>

theorem softtimer_schedule:
  assumes "if_ok m as" "moduleState m = MQTT_STATE_CONNECTED" "5 \<le> slack" "length es < 2 ^ 63"
  shows "\<exists>s. run (softtimer_body slack) es (softtimer_init t st, m) = Some (s,
        m\<lparr>pub_calls := pub_calls m @ concat (map (\<lambda>k. reports k (es ! k)) [0..<length es])\<rparr>)
    \<and> cnt_softtimer_thread s = word_of_nat (length es)
    \<and> (es \<noteq> [] \<longrightarrow> ntp_time s = fetched (es ! ((length es - 1) div 1800 * 1800)))
    \<and> rtc_resets s = (length es + 1799) div 1800"
  using assms(4)
proof (induction es rule: rev_induct)
  case Nil
  then show ?case by (simp add: softtimer_init_def)
next
  case (snoc e es)
  let ?m = "m\<lparr>pub_calls := pub_calls m @ concat (map (\<lambda>k. reports k (es ! k)) [0..<length es])\<rparr>"
  let ?n = "length es"
  obtain s where s: "run (softtimer_body slack) es (softtimer_init t st, m) = Some (s, ?m)"
    "cnt_softtimer_thread s = word_of_nat ?n"
    "es \<noteq> [] \<longrightarrow> ntp_time s = fetched (es ! ((?n - 1) div 1800 * 1800))"
    "rtc_resets s = (?n + 1799) div 1800"
    using snoc by auto
  have m: "if_ok ?m as" "moduleState ?m = MQTT_STATE_CONNECTED" using assms(1,2) by (simp_all add: if_ok_def)
  have n: "?n < 2 ^ 63" using snoc.prems by simp
  note turn = softtimer_turn [OF m assms(3) s(2) n, of e]
  have "map (\<lambda>k. reports k ((es @ [e]) ! k)) [0..<?n] = map (\<lambda>k. reports k (es ! k)) [0..<?n]"
    by (rule map_cong) (simp_all add: nth_append)
  note map_same = this
  have reps: "concat (map (\<lambda>k. reports k ((es @ [e]) ! k)) [0..<Suc ?n])
      = concat (map (\<lambda>k. reports k (es ! k)) [0..<?n]) @ reports ?n e"
    by (simp only: upt_Suc_append [OF le0] map_append concat_append map_same) simp
  show ?case
  proof (cases "1800 dvd ?n")
    case True
    then obtain q where q: "?n = 1800 * q" ..
    then have q': "?n div 1800 = q" "(?n + 1799) div 1800 = q" "(es @ [e]) ! (q * 1800) = e"
      by (simp_all add: nth_append)
    show ?thesis
      using s turn True by (simp add: run_append reps q' del: upt_Suc)
  next
    case False
    note q = between_syncs [OF False]
    have "es \<noteq> []" using False by auto
    have "(es @ [e]) ! (?n div 1800 * 1800) = es ! (?n div 1800 * 1800)"
      using q(3) by (simp add: nth_append)
    then show ?thesis
      using s turn False \<open>es \<noteq> []\<close> by (simp add: run_append reps q(2) q(1) [unfolded One_nat_def, symmetric] del: upt_Suc)
  qed
qed

text \<open>Two seconds with the example network, not associated, and a time server that answers.\<close>

definition second_example :: second where
  "second_example = \<lparr>sec_wifi = wifi_example, sec_sntp_ret = 0, sec_sntp = Some 7,
     sec_stat = \<lparr>AvarageDataCtrlRssi = 1, AvarageMgMntRssi = 2, ReceivedFcsErrorPacketsNumber = 3,
       ReceivedValidPacketsNumber = 4\<rparr>,
     sec_junk = replicate 16 0, sec_dev = 9, sec_publish_ret = 0\<rparr>"

theorem softtimer_schedule_witness:
  "\<exists>s m. run (softtimer_body 5) [second_example, second_example] (softtimer_init 0 0, two_topics) = Some (s, m)
     \<and> ntp_time s = 7 \<and> rtc_resets s = 1 \<and> length (pub_calls m) = length (pub_calls two_topics) + 1"
  using softtimer_schedule [OF two_topics_ok, of 5 "[second_example, second_example]" 0 0]
  by (auto simp: reports_def fetched_def second_example_def wifi_example_def IS_CONNECTED_bit)

section \<open>From the time server to the messages\<close>

lemma synced_status:
  assumes "unat st < 65536"
  shows "((st AND NOT 0xFFFFFFFF) OR 1 :: u64) = 1"
proof -
  have "st = take_bit 16 st"
    using assms by (simp add: word_unat_eq_iff unsigned_take_bit_eq take_bit_nat_eq_self)
  then have "st AND NOT (mask 32) = take_bit 16 st AND NOT (mask 32)" by simp
  also have "\<dots> = 0"
    by (rule bit_word_eqI) (auto simp: bit_simps)
  finally show ?thesis by (simp add: mask_eq_exp_minus_1)
qed

lemma no_time:
  assumes "unat sec < 2208988800" "unat nsec < 10 ^ 9"
  shows "unat (time_synchro_ns 0 sec nsec) = 2 ^ 64 - (2208988800 - unat sec) * 10 ^ 9 + unat nsec"
proof -
  have "fraction_ns 0 = 0"
    by (simp add: fraction_ns_def dbl_div_def dbl_mul_trunc_def round_half_even_def)
  moreover have "ntp_seconds 0 = 0" "ntp_fraction 0 = 0"
    by (simp_all add: ntp_seconds_def ntp_fraction_def)
  ultimately have eq: "time_synchro_ns 0 sec nsec = (sec - 2208988800) * 1000000000 + nsec"
    by (simp add: time_synchro_ns_def time_consts)
  let ?v = "2 ^ 64 - (2208988800 - unat sec) * 10 ^ 9 + unat nsec"
  have le: "(2208988800 - unat sec) * 10 ^ 9 \<le> (2 :: nat) ^ 64"
    by (rule order_trans [of _ "2208988800 * 10 ^ 9"]) simp_all
  have "(word_of_nat ?v :: u64) = 0 - (2208988800 - sec) * 1000000000 + nsec"
    using assms(1) le by (simp add: of_nat_diff word_of_nat_eq_0_iff)
  then have "word_of_nat ?v = time_synchro_ns 0 sec nsec"
    by (simp add: eq algebra_simps)
  moreover have "?v < 2 ^ 64"
  proof -
    have "10 ^ 9 \<le> (2208988800 - unat sec) * 10 ^ 9" using assms(1) by simp
    then show ?thesis using assms(2) le by linarith
  qed
  ultimately show ?thesis
    using unat_word_of_nat_small [of ?v, where ?'a = 64] by simp
qed

text \<open>
  (C28) A time request that fails is not noticed: the softtimer thread still raises the synchronisation flag, with a time
  of zero, and the next iteration of the downsampling thread stamps its message with a time that wraps around: zero
  seconds of 1900 less the offset of 1970, that is 2 ^ 64 nanoseconds less about 2208988800 seconds.
\<close>

theorem failed_sync_reaches_messages:
  assumes "if_ok m as" "moduleState m = MQTT_STATE_CONNECTED" "5 \<le> slack"
    and "cnt_softtimer_thread s = word_of_nat j" "j < 2 ^ 63" "1800 dvd j" "unat (time_sync_status s) < 65536"
    and "sec_sntp e = None"
    and "dws_pos k d" "dws_env_ok w" "unat (rtc_tv_sec w) < 2208988800" "unat (rtc_tv_nsec w) < 10 ^ 9"
  shows "\<exists>s' m' d'. softtimer_body slack e (s, m) = Some (s', m')
    \<and> dws_body dws_arg_thread (w\<lparr>ptr_sntp_time := ntp_time s'\<rparr>) (d\<lparr>status_time_sync := time_sync_status s'\<rparr>) = Some d'
    \<and> unat (rtc_value (data_h (msg_data d' ! (k div 78 mod 10))))
        = 2 ^ 64 - (2208988800 - unat (rtc_tv_sec w)) * 10 ^ 9 + unat (rtc_tv_nsec w)"
proof -
  obtain s' m' where s': "softtimer_body slack e (s, m) = Some (s', m')" "ntp_time s' = 0" "time_sync_status s' = 1"
    using softtimer_turn [OF assms(1-5), of e] assms(6,8) synced_status [OF assms(7)] by (simp add: fetched_def)
  have "dws_pos k (d\<lparr>status_time_sync := 1\<rparr>)" "dws_env_ok (w\<lparr>ptr_sntp_time := 0\<rparr>)"
    using assms(9,10) by (simp_all add: dws_pos_def dws_env_ok_def)
  from dws_body_stamps [OF this] obtain d' where
    "dws_body dws_arg_thread (w\<lparr>ptr_sntp_time := 0\<rparr>) (d\<lparr>status_time_sync := 1\<rparr>) = Some d'"
    "rtc_value (data_h (msg_data d' ! (k div 78 mod 10))) = time_synchro_ns 0 (rtc_tv_sec w) (rtc_tv_nsec w)"
    by (auto simp: Let_def)
  then show ?thesis
    using s' no_time [OF assms(11,12)] by auto
qed

theorem failed_sync_reaches_messages_witness:
  "\<exists>s' m' d'. softtimer_body 5 (second_example\<lparr>sec_sntp := None\<rparr>) (softtimer_init 0 0, two_topics) = Some (s', m')
    \<and> dws_body dws_arg_thread (dws_env_flat\<lparr>ptr_sntp_time := ntp_time s'\<rparr>)
        ((dws_init (replicate 10 msg_data_zero) 0)\<lparr>status_time_sync := time_sync_status s'\<rparr>) = Some d'
    \<and> unat (rtc_value (data_h (msg_data d' ! 0))) = 2 ^ 64 - (2208988800 - 5) * 10 ^ 9 + 7"
  using failed_sync_reaches_messages [OF two_topics_ok, of 5 "softtimer_init 0 0" 0
      "second_example\<lparr>sec_sntp := None\<rparr>" 0 "dws_init (replicate 10 msg_data_zero) 0" dws_env_flat,
      OF _ _ _ _ _ _ dws_init_pos [OF msgs_zero_ok(2,1)] dws_env_flat_ok]
  by (simp add: softtimer_init_def dws_env_flat_def two_topics_def)

section \<open>The thread that watches the link\<close>

definition stop :: int where "stop = 0"
definition start :: int where "start = 1"

text \<open>The inner loop: pause, reconnect, look.\<close>

partial_function (option) reconnect :: "wifi_env \<Rightarrow> wifi \<Rightarrow> wifi option" where
  "reconnect env s =
     Option.bind (sl env C_usleep s) (\<lambda>r. Option.bind (wifi_connect env (fst r)) (\<lambda>r2.
       if test_wifi_connection (fst r2) = 0 then reconnect env (fst r2) else Some (fst r2)))"

declare reconnect.simps [code]

text \<open>One turn of \<open>test_wifi\<close>; the second component is the status that the data thread polls.\<close>

definition test_wifi :: "wifi_env \<Rightarrow> wifi \<times> int \<Rightarrow> (wifi \<times> int) option" where
  "test_wifi env x =
     (case x of (s, send_data) \<Rightarrow>
       do { (s1, r) \<leftarrow> sl env C_usleep s;
            let wifi_status = test_wifi_connection s1;
            if wifi_status = 1 then Some (s1, start)
            else if wifi_status = 0 then do { s2 \<leftarrow> reconnect env s1; Some (s2, stop) }
            else Some (s1, send_data) })"

lemma reconnect_connected:
  assumes "reconnect env s = Some s'"
  shows "IS_CONNECTED (g_ulStatus s')"
  by (rule reconnect.raw_induct [where P = "\<lambda>env s s'. IS_CONNECTED (g_ulStatus s')", OF _ assms])
    (auto simp: test_wifi_connection_def split: bind_splits if_splits)

lemma sl_calls: "sl env c s = Some (s', r) \<Longrightarrow> calls s' = c # calls s"
  by (auto simp: sl_def Let_def split: bind_splits dest!: events_kept simp: kept_def)

lemma wifi_connect_last: "wifi_connect env s = Some (s', r) \<Longrightarrow> hd (calls s') = C_DeviceStatStart"
  by (auto simp: wifi_connect_def split: bind_splits dest!: sl_calls)

lemma reconnect_last:
  assumes "reconnect env s = Some s'"
  shows "hd (calls s') = C_DeviceStatStart"
proof (rule reconnect.raw_induct [where P = "\<lambda>env s s'. hd (calls s') = C_DeviceStatStart", OF _ assms])
  fix f env s s'
  assume IH: "\<And>env s s'. f env s = Some s' \<Longrightarrow> hd (calls s') = C_DeviceStatStart"
    and step: "Option.bind (sl env C_usleep s) (\<lambda>r. Option.bind (wifi_connect env (fst r)) (\<lambda>r2.
       if test_wifi_connection (fst r2) = 0 then f env (fst r2) else Some (fst r2))) = Some s'"
  from step obtain r r2 where "wifi_connect env (fst r) = Some r2"
    "(if test_wifi_connection (fst r2) = 0 then f env (fst r2) else Some (fst r2)) = Some s'"
    by (auto split: bind_splits)
  then show "hd (calls s') = C_DeviceStatStart"
    using IH wifi_connect_last [of env "fst r" "fst r2" "snd r2"] by (auto split: if_splits)
qed

text \<open>
  Every turn of the watching thread that ends, ends with the device associated. It lets the data thread send when
  it found the device associated, having done nothing but pause; otherwise it has told the data thread to stop and has
  left its loop only after a reconnection, and the data thread stays stopped until a later turn.
\<close>

theorem test_wifi_turn:
  assumes "test_wifi env (s, sd) = Some (s', sd')"
  shows "IS_CONNECTED (g_ulStatus s') \<and>
    (sd' = start \<and> calls s' = C_usleep # calls s \<or> sd' = stop \<and> hd (calls s') = C_DeviceStatStart)"
proof -
  obtain s1 r where s1: "sl env C_usleep s = Some (s1, r)"
    using assms by (auto simp: test_wifi_def split: bind_splits)
  show ?thesis
  proof (cases "IS_CONNECTED (g_ulStatus s1)")
    case True
    then show ?thesis
      using assms s1 sl_calls [OF s1] by (auto simp: test_wifi_def test_wifi_connection_def Let_def)
  next
    case False
    then obtain s2 where "reconnect env s1 = Some s2" "s' = s2" "sd' = stop"
      using assms s1 by (auto simp: test_wifi_def test_wifi_connection_def Let_def split: bind_splits)
    then show ?thesis
      using reconnect_connected reconnect_last by metis
  qed
qed

theorem test_wifi_turn_witness:
  "\<exists>s'. test_wifi wifi_env_example (wifi_example\<lparr>g_ulStatus := 2\<rparr>, stop) = Some (s', start)
     \<and> IS_CONNECTED (g_ulStatus s')"
proof -
  have "sl wifi_env_example C_usleep (wifi_example\<lparr>g_ulStatus := 2\<rparr>)
      = Some (wifi_example\<lparr>g_ulStatus := 2, calls := [C_usleep]\<rparr>, 0)"
    by (simp add: sl_def wifi_env_example_def wifi_example_def)
  then have "test_wifi wifi_env_example (wifi_example\<lparr>g_ulStatus := 2\<rparr>, stop)
      = Some (wifi_example\<lparr>g_ulStatus := 2, calls := [C_usleep]\<rparr>, start)"
    by (simp add: test_wifi_def test_wifi_connection_def IS_CONNECTED_bit bit_2_iff)
  with test_wifi_turn [OF this] show ?thesis by blast
qed

end
