(* ===== verification/Peripherals.thy ===== *)
theory Peripherals
  imports Prelude
begin

text \<open>
  \<open>adc_user.c\<close>, \<open>gpio_user.c\<close>, \<open>timer_user.c\<close>, \<open>udma_user.c\<close> and \<open>interrupt_user.c\<close>: thin layers
  over the drivers of the SDK. An operation yields the calls it issues, in order, as a list of
  \<open>drv\<close>, and its return code; what a driver returns is an argument. The flags and base
  addresses of the SDK are symbols, a DMA destination is the index of a buffer.

  The meaning of the DMA calls for the control table of the controller is \<open>dma_exec\<close>. A channel number that is
  passed without a selector, as only the basic mode does, is the selector \<open>UDMA_NO_SELECT\<close>; its only caller is the branch of the
  interrupt routine for \<open>DMA_STOP_MODE_BASIC\<close>, a value that \<open>dma_stop_mode_get\<close> never yields.
\<close>

section \<open>Driver calls\<close>

datatype adc_flag = ADC_DMA_DONE | ADC_FIFO_OVERFLOW | ADC_FIFO_UNDERFLOW | ADC_FIFO_EMPTY | ADC_FIFO_FULL

datatype udma_select = UDMA_PRI_SELECT | UDMA_ALT_SELECT | UDMA_NO_SELECT

datatype udma_mode = UDMA_MODE_STOP | UDMA_MODE_BASIC | UDMA_MODE_PINGPONG

datatype udma_control = UDMA_SIZE_16 | UDMA_SRC_INC_NONE | UDMA_DST_INC_16 | UDMA_ARB_1

datatype led_level = LED_LOW | LED_OFF

datatype drv =
    ADC_init_call
  | ADC_open_call
  | ADCDMAEnable u32
  | ADCDMADisable u32
  | ADCIntRegister u32
  | ADCIntEnable u32 "adc_flag list"
  | ADCIntDisable u32 "adc_flag list"
  | ADCIntStatus u32
  | ADCIntClear u32 "adc_flag list"
  | ADCChannelEnable u32
  | ADCChannelDisable u32
  | ADCEnable
  | ADCDisable
  | GPIO_init
  | GPIO_setConfig led_level
  | GPIO_write led_level
  | Timer_init_call
  | UDMACC32XX_init
  | UDMACC32XX_open
  | uDMAEnable
  | uDMAIntStatus
  | uDMAIntClear
  | uDMAChannelAssign udma_select
  | uDMAChannelControlSet udma_select "udma_control list"
  | uDMAChannelTransferSet udma_select udma_mode u32 "nat option" nat
  | uDMAChannelEnable udma_select
  | HwiP_Params_init
  | HwiP_create int
  | HwiP_disableInterrupt int
  | HwiP_delete nat

text \<open>All these layers return a code that is zero.\<close>

type_synonym drv_result = "drv list \<times> int"

definition ADC_NO_ERROR :: int where "ADC_NO_ERROR = 0"
definition GPIO_NO_ERROR :: int where "GPIO_NO_ERROR = 0"
definition TIMER_NO_ERROR :: int where "TIMER_NO_ERROR = 0"
definition UDMA_NO_ERROR :: int where "UDMA_NO_ERROR = 0"

section \<open>ADC\<close>

definition adc_dma_enable :: "u32 \<Rightarrow> drv_result" where
  "adc_dma_enable channel_id = ([ADCDMAEnable channel_id], ADC_NO_ERROR)"

definition adc_dma_disable :: "u32 \<Rightarrow> drv_result" where
  "adc_dma_disable channel_id = ([ADCDMADisable channel_id], ADC_NO_ERROR)"

definition adc_int_register :: "u32 \<Rightarrow> drv_result" where
  "adc_int_register channel_id = ([ADCIntRegister channel_id], ADC_NO_ERROR)"

definition adc_int_enable :: "u32 \<Rightarrow> drv_result" where
  "adc_int_enable channel_id =
     ([ADCIntDisable channel_id [ADC_FIFO_OVERFLOW, ADC_FIFO_UNDERFLOW, ADC_FIFO_EMPTY, ADC_FIFO_FULL]],
      ADC_NO_ERROR)"

definition adc_int_clear :: "u32 \<Rightarrow> drv_result" where
  "adc_int_clear channel_id =
     ([ADCIntStatus channel_id, ADCIntClear channel_id [ADC_DMA_DONE]], ADC_NO_ERROR)"

definition adc_start :: "u32 \<Rightarrow> drv_result" where
  "adc_start channel_id = ([ADCChannelEnable channel_id, ADCEnable], ADC_NO_ERROR)"

definition adc_stop :: "u32 \<Rightarrow> drv_result" where
  "adc_stop channel_id = ([ADCDisable], ADC_NO_ERROR)"

definition adc_open :: drv_result where
  "adc_open = ([ADC_init_call, ADC_open_call], ADC_NO_ERROR)"

definition adc_config :: "u32 \<Rightarrow> drv_result" where
  "adc_config channel_id =
     ([ADCChannelDisable channel_id, ADCDMAEnable channel_id, ADCIntEnable channel_id [ADC_DMA_DONE],
       ADCChannelEnable channel_id], ADC_NO_ERROR)"

definition adc_init :: drv_result where
  "adc_init = ([ADC_init_call], ADC_NO_ERROR)"

section \<open>GPIO and timer\<close>

definition gpio_open :: drv_result where
  "gpio_open = ([GPIO_init, GPIO_setConfig LED_LOW, GPIO_write LED_OFF], GPIO_NO_ERROR)"

definition timer_open :: drv_result where
  "timer_open = ([Timer_init_call], TIMER_NO_ERROR)"

definition timer_start :: drv_result where
  "timer_start = ([], TIMER_NO_ERROR)"

definition timer_config :: drv_result where
  "timer_config = ([], TIMER_NO_ERROR)"

section \<open>DMA\<close>

datatype dma_stop_mode_t = DMA_STOP_MODE_PRI | DMA_STOP_MODE_ALT | DMA_STOP_MODE_BASIC | DMA_STOP_NONE

datatype dma_set_mode_t = DMA_SET_MODE_PRI | DMA_SET_MODE_ALT | DMA_SET_MODE_BASIC | DMA_SET_NONE

definition ADC_BASE_FIFO_DATA :: u32 where "ADC_BASE_FIFO_DATA = 0x4402E874"

definition udma_init :: drv_result where
  "udma_init = ([UDMACC32XX_init], UDMA_NO_ERROR)"

definition udma_open :: drv_result where
  "udma_open = ([UDMACC32XX_open], UDMA_NO_ERROR)"

definition udma_enable :: drv_result where
  "udma_enable = ([uDMAEnable], UDMA_NO_ERROR)"

text \<open>Assign, configure, set the transfer, enable: the four calls for one structure.\<close>

definition dma_program :: "udma_select \<Rightarrow> udma_mode \<Rightarrow> u32 \<Rightarrow> nat \<Rightarrow> nat \<Rightarrow> drv list" where
  "dma_program sel mode channel_id buffer sz =
     [uDMAChannelAssign sel,
      uDMAChannelControlSet sel [UDMA_SIZE_16, UDMA_SRC_INC_NONE, UDMA_DST_INC_16, UDMA_ARB_1],
      uDMAChannelTransferSet sel mode (ADC_BASE_FIFO_DATA + channel_id) (Some buffer) sz,
      uDMAChannelEnable sel]"

fun dma_transfer_set :: "dma_set_mode_t \<Rightarrow> u32 \<Rightarrow> nat \<Rightarrow> nat \<Rightarrow> drv_result" where
  "dma_transfer_set DMA_SET_MODE_PRI channel_id buffer sz =
     (dma_program UDMA_PRI_SELECT UDMA_MODE_PINGPONG channel_id buffer sz, UDMA_NO_ERROR)"
| "dma_transfer_set DMA_SET_MODE_ALT channel_id buffer sz =
     (dma_program UDMA_ALT_SELECT UDMA_MODE_PINGPONG channel_id buffer sz, UDMA_NO_ERROR)"
| "dma_transfer_set DMA_SET_MODE_BASIC channel_id buffer sz =
     (dma_program UDMA_NO_SELECT UDMA_MODE_BASIC channel_id buffer sz, UDMA_NO_ERROR)"
| "dma_transfer_set DMA_SET_NONE channel_id buffer sz = ([], UDMA_NO_ERROR)"

definition udma_setup_transfer_pri :: "nat \<Rightarrow> u32 \<Rightarrow> nat \<Rightarrow> drv_result" where
  "udma_setup_transfer_pri buffer_pri channel_id sz =
     (fst (dma_transfer_set DMA_SET_MODE_PRI channel_id buffer_pri sz), UDMA_NO_ERROR)"

definition udma_setup_transfer_alt :: "nat \<Rightarrow> u32 \<Rightarrow> nat \<Rightarrow> drv_result" where
  "udma_setup_transfer_alt buffer_alt channel_id sz =
     (fst (dma_transfer_set DMA_SET_MODE_ALT channel_id buffer_alt sz), UDMA_NO_ERROR)"

definition udma_disable :: "u32 \<Rightarrow> drv_result" where
  "udma_disable channel_id =
     ([uDMAChannelTransferSet UDMA_PRI_SELECT UDMA_MODE_STOP (ADC_BASE_FIFO_DATA + channel_id) None 0,
       uDMAChannelTransferSet UDMA_ALT_SELECT UDMA_MODE_STOP (ADC_BASE_FIFO_DATA + channel_id) None 0],
      UDMA_NO_ERROR)"

text \<open>The fault handler clears the interrupt and never returns.\<close>

definition udma_irq_fault_handler :: "drv list \<times> int option" where
  "udma_irq_fault_handler = ([uDMAIntStatus, uDMAIntClear], None)"

definition udma_irq_sw_handler :: "drv list" where
  "udma_irq_sw_handler = [uDMAIntStatus, uDMAIntClear]"

definition dma_int_clear :: drv_result where
  "dma_int_clear = ([], UDMA_NO_ERROR)"

text \<open>The arguments are the modes that \<open>uDMAChannelModeGet\<close> returns for the two structures.\<close>

definition dma_stop_mode_get :: "udma_mode \<Rightarrow> udma_mode \<Rightarrow> dma_stop_mode_t" where
  "dma_stop_mode_get pri alt =
     (if pri = UDMA_MODE_STOP then DMA_STOP_MODE_PRI
      else if alt = UDMA_MODE_STOP then DMA_STOP_MODE_ALT
      else DMA_STOP_NONE)"

section \<open>The control table\<close>

text \<open>
  What the calls leave in the control table of the controller: for each structure its
  mode, source, destination and size, and whether it was enabled after being set.
\<close>

record dma_struct =
  ds_mode :: udma_mode
  ds_src :: u32
  ds_dst :: "nat option"
  ds_size :: nat
  ds_enabled :: bool

type_synonym dma_table = "udma_select \<Rightarrow> dma_struct"

fun dma_exec1 :: "drv \<Rightarrow> dma_table \<Rightarrow> dma_table" where
  "dma_exec1 (uDMAChannelTransferSet sel mode src dst sz) t =
     t(sel := \<lparr>ds_mode = mode, ds_src = src, ds_dst = dst, ds_size = sz, ds_enabled = False\<rparr>)"
| "dma_exec1 (uDMAChannelEnable sel) t = t(sel := (t sel)\<lparr>ds_enabled := True\<rparr>)"
| "dma_exec1 _ t = t"

definition dma_exec :: "drv list \<Rightarrow> dma_table \<Rightarrow> dma_table" where
  "dma_exec calls t = fold dma_exec1 calls t"

lemma dma_exec_Nil [simp]: "dma_exec [] t = t"
  by (simp add: dma_exec_def)

lemma dma_exec_append [simp]: "dma_exec (xs @ ys) t = dma_exec ys (dma_exec xs t)"
  by (simp add: dma_exec_def)

text \<open>The structure a mode programs.\<close>

fun select_of :: "dma_set_mode_t \<Rightarrow> udma_select option" where
  "select_of DMA_SET_MODE_PRI = Some UDMA_PRI_SELECT"
| "select_of DMA_SET_MODE_ALT = Some UDMA_ALT_SELECT"
| "select_of DMA_SET_MODE_BASIC = Some UDMA_NO_SELECT"
| "select_of DMA_SET_NONE = None"

definition armed :: "udma_mode \<Rightarrow> u32 \<Rightarrow> nat \<Rightarrow> nat \<Rightarrow> dma_struct" where
  "armed mode channel_id buffer sz =
     \<lparr>ds_mode = mode, ds_src = ADC_BASE_FIFO_DATA + channel_id, ds_dst = Some buffer,
      ds_size = sz, ds_enabled = True\<rparr>"

lemma dma_program_exec:
  "dma_exec (dma_program sel mode ch buffer sz) t = t(sel := armed mode ch buffer sz)"
  by (simp add: dma_exec_def dma_program_def armed_def)

fun_cases select_of_SomeE: "select_of mode = Some sel"

text \<open>A transfer that names a structure arms exactly that one, with the mode ping-pong unless it is the basic one.\<close>

lemma dma_transfer_set_exec:
  assumes "select_of mode = Some sel"
  shows "dma_exec (fst (dma_transfer_set mode ch buffer sz)) t
    = t(sel := armed (if sel = UDMA_NO_SELECT then UDMA_MODE_BASIC else UDMA_MODE_PINGPONG) ch buffer sz)"
  using assms by (elim select_of_SomeE) (simp_all add: dma_program_exec)

section \<open>Interrupts\<close>

definition MAX_NUM_INT :: nat where "MAX_NUM_INT = 1"

definition INTERRUPT_NO_ERROR :: int where "INTERRUPT_NO_ERROR = 0"
definition INTERRUPT_NOT_CREATED :: int where "INTERRUPT_NOT_CREATED = - 1"
definition INTERRUPT_NOT_INTERRUPT_SIZE :: int where "INTERRUPT_NOT_INTERRUPT_SIZE = - 2"
definition INTERRUPT_HAS_NOT_BEEN_CREATED :: int where "INTERRUPT_HAS_NOT_BEEN_CREATED = - 3"

lemmas interrupt_codes =
  INTERRUPT_NO_ERROR_def INTERRUPT_NOT_CREATED_def INTERRUPT_NOT_INTERRUPT_SIZE_def
  INTERRUPT_HAS_NOT_BEEN_CREATED_def

record int_handler_t =
  interrupt_num :: int
  hwiHandle :: nat

definition interrupt_config :: "int_handler_t list \<Rightarrow> int_handler_t list \<times> drv_result" where
  "interrupt_config slots =
     (map (\<lambda>s. s\<lparr>interrupt_num := 0\<rparr>) slots, [HwiP_Params_init], INTERRUPT_NO_ERROR)"

text \<open>The first slot with a given number, searched from \<open>i\<close> on; the size if there is none.\<close>

fun find_slot :: "int \<Rightarrow> int_handler_t list \<Rightarrow> nat" where
  "find_slot n [] = 0"
| "find_slot n (s # ss) = (if interrupt_num s = n then 0 else Suc (find_slot n ss))"

text \<open>\<open>created\<close> is the result of \<open>HwiP_create\<close>.\<close>

definition udma_interrupt_start ::
    "int \<Rightarrow> nat option \<Rightarrow> int_handler_t list \<Rightarrow> int_handler_t list \<times> drv_result" where
  "udma_interrupt_start num created slots =
     (case created of
        None \<Rightarrow> (slots, [HwiP_create num], INTERRUPT_NOT_CREATED)
      | Some h \<Rightarrow>
          (let i = find_slot 0 slots in
           if i = length slots
           then (slots, [HwiP_create num], INTERRUPT_NOT_INTERRUPT_SIZE)
           else (slots[i := \<lparr>interrupt_num = num, hwiHandle = h\<rparr>], [HwiP_create num], INTERRUPT_NO_ERROR)))"

definition interrupt_user_disable ::
    "int \<Rightarrow> int_handler_t list \<Rightarrow> int_handler_t list \<times> drv_result" where
  "interrupt_user_disable num slots =
     (let i = find_slot num slots in
      if i = length slots then (slots, [], INTERRUPT_HAS_NOT_BEEN_CREATED)
      else (slots, [HwiP_disableInterrupt (interrupt_num (slots ! i)), HwiP_delete (hwiHandle (slots ! i))],
            INTERRUPT_NO_ERROR))"

lemma find_slot_le: "find_slot n ss \<le> length ss"
  by (induction ss) auto

lemma find_slot_found: "find_slot n ss < length ss \<Longrightarrow> interrupt_num (ss ! find_slot n ss) = n"
  by (induction ss) auto

lemma find_slot_none: "find_slot n ss = length ss \<longleftrightarrow> (\<forall>s\<in>set ss. interrupt_num s \<noteq> n)"
  by (induction ss) auto

text \<open>The table of the firmware has one slot.\<close>

lemma one_slot: "length ss = MAX_NUM_INT \<Longrightarrow> \<exists>s. ss = [s]"
  by (simp add: MAX_NUM_INT_def length_Suc_conv)

text \<open>
  The life of the interrupt slot: after the configuration the first start occupies the only
  slot, disabling it deletes the handle but keeps the slot, so that the next start creates a Hwi
  which no slot holds and fails, and a second disable deletes the first handle again.
\<close>

theorem interrupt_slot_life:
  assumes "length slots = MAX_NUM_INT" "num \<noteq> 0"
    and "interrupt_config slots = (s0, r0)"
    and "udma_interrupt_start num (Some h) s0 = (s1, r1)"
    and "interrupt_user_disable num s1 = (s2, r2)"
    and "udma_interrupt_start num (Some h') s2 = (s3, r3)"
    and "interrupt_user_disable num s3 = (s4, r4)"
  shows "s1 = [\<lparr>interrupt_num = num, hwiHandle = h\<rparr>] \<and> snd r1 = INTERRUPT_NO_ERROR
    \<and> s2 = s1 \<and> r2 = ([HwiP_disableInterrupt num, HwiP_delete h], INTERRUPT_NO_ERROR)
    \<and> s3 = s2 \<and> r3 = ([HwiP_create num], INTERRUPT_NOT_INTERRUPT_SIZE)
    \<and> r4 = ([HwiP_disableInterrupt num, HwiP_delete h], INTERRUPT_NO_ERROR)"
proof -
  obtain s where s: "slots = [s]" using one_slot [OF assms(1)] by blast
  have "s0 = [s\<lparr>interrupt_num := 0\<rparr>]" using assms(3) s by (auto simp: interrupt_config_def)
  with assms(4) have 1: "s1 = [\<lparr>interrupt_num = num, hwiHandle = h\<rparr>]" "snd r1 = INTERRUPT_NO_ERROR"
    by (auto simp: udma_interrupt_start_def)
  with assms(5) have 2: "s2 = s1" "r2 = ([HwiP_disableInterrupt num, HwiP_delete h], INTERRUPT_NO_ERROR)"
    by (auto simp: interrupt_user_disable_def)
  with 1 assms(2,6) have 3: "s3 = s2" "r3 = ([HwiP_create num], INTERRUPT_NOT_INTERRUPT_SIZE)"
    by (auto simp: udma_interrupt_start_def)
  with 1 2 assms(7) have "r4 = ([HwiP_disableInterrupt num, HwiP_delete h], INTERRUPT_NO_ERROR)"
    by (auto simp: interrupt_user_disable_def)
  with 1 2 3 show ?thesis by simp
qed

lemma interrupt_slot_life_witness:
  "\<exists>s1 s2 s3 s4 r1 r2 r3 r4.
     udma_interrupt_start 31 (Some 7) (fst (interrupt_config [\<lparr>interrupt_num = 5, hwiHandle = 0\<rparr>])) = (s1, r1)
     \<and> interrupt_user_disable 31 s1 = (s2, r2) \<and> udma_interrupt_start 31 (Some 8) s2 = (s3, r3)
     \<and> interrupt_user_disable 31 s3 = (s4, r4)
     \<and> s3 = [\<lparr>interrupt_num = 31, hwiHandle = 7\<rparr>] \<and> snd r3 = INTERRUPT_NOT_INTERRUPT_SIZE
     \<and> r4 = ([HwiP_disableInterrupt 31, HwiP_delete 7], INTERRUPT_NO_ERROR)"
proof -
  let ?slots = "[\<lparr>interrupt_num = 5, hwiHandle = 0\<rparr>]"
  obtain s0 r0 where 0: "interrupt_config ?slots = (s0, r0)" by (metis surj_pair)
  obtain s1 r1 where 1: "udma_interrupt_start 31 (Some 7) s0 = (s1, r1)" by (metis surj_pair)
  obtain s2 r2 where 2: "interrupt_user_disable 31 s1 = (s2, r2)" by (metis surj_pair)
  obtain s3 r3 where 3: "udma_interrupt_start 31 (Some 8) s2 = (s3, r3)" by (metis surj_pair)
  obtain s4 r4 where 4: "interrupt_user_disable 31 s3 = (s4, r4)" by (metis surj_pair)
  have "length ?slots = MAX_NUM_INT" by (simp add: MAX_NUM_INT_def)
  from interrupt_slot_life [OF this _ 0 1 2 3 4] show ?thesis using 0 1 2 3 4 by auto
qed

end
