(* ===== verification/Dma_Ring.thy ===== *)
theory Dma_Ring
  imports Peripherals Downsampling
begin

text \<open>
  \<open>empty.c\<close>: the interrupt routine \<open>isr_dma_done\<close>, which recharges the ping-pong transfer that has
  just stopped, and the set-up of the first two transfers in \<open>mainThread\<close>. The routine is composed
  with the ping-pong behaviour of the controller: the active structure fills its destination and
  stops, the controller goes on with the other one, and the interrupt runs.

  The reader of the ring is the downsampling thread, whose \<open>k\<close>-th iteration reads the buffer
  \<open>k mod 30\<close> (\<open>Downsampling\<close>). The lemmas relate the block it finds there to the block the
  ADC produced.
\<close>

section \<open>The interrupt routine\<close>

record isr_state =
  dma_cnt_interrupts :: u32
  dma_finished :: bool
  cnt_dma_write :: u16
  dma_stop_mode :: dma_stop_mode_t
  dws_semaphore :: nat

definition isr_recharge :: "dma_set_mode_t \<Rightarrow> u32 \<Rightarrow> isr_state \<Rightarrow> drv list" where
  "isr_recharge mode ch s =
     fst (dma_transfer_set mode ch (unat (cnt_dma_write s) mod DMA_NUM_BUFFERS) DMA_BUFF_SIZE)"

text \<open>\<open>ch\<close> is \<open>ADC_CHANNEL_ID\<close>; \<open>pri\<close> and \<open>alt\<close> are the modes the controller reports.\<close>

definition isr_dma_done ::
    "u32 \<Rightarrow> udma_mode \<Rightarrow> udma_mode \<Rightarrow> isr_state \<Rightarrow> isr_state \<times> drv list" where
  "isr_dma_done ch pri alt s =
     (let s1 = s\<lparr>dma_stop_mode := dma_stop_mode_get pri alt\<rparr>;
          clear = fst (adc_int_clear ch)
      in if dma_finished s1 then (s1, clear)
         else
           (let s2 = s1\<lparr>dma_cnt_interrupts := dma_cnt_interrupts s1 + 1\<rparr>;
                s3 = s2\<lparr>cnt_dma_write := cnt_dma_write s2 + 1\<rparr>;
                post = s3\<lparr>dws_semaphore := dws_semaphore s3 + 1\<rparr>
            in case dma_stop_mode s1 of
                 DMA_STOP_MODE_PRI \<Rightarrow> (post, clear @ isr_recharge DMA_SET_MODE_PRI ch s3)
               | DMA_STOP_MODE_ALT \<Rightarrow> (post, clear @ isr_recharge DMA_SET_MODE_ALT ch s3)
               | DMA_STOP_MODE_BASIC \<Rightarrow> (s2, clear @ isr_recharge DMA_SET_MODE_BASIC ch s2)
               | DMA_STOP_NONE \<Rightarrow> (s2, clear)))"

text \<open>The two transfers prepared before the interrupt is started.\<close>

definition dma_setup :: "u32 \<Rightarrow> isr_state \<Rightarrow> isr_state \<times> drv list" where
  "dma_setup ch s =
     (let s0 = s\<lparr>cnt_dma_write := 0\<rparr>;
          pri = fst (udma_setup_transfer_pri (unat (cnt_dma_write s0)) ch DMA_BUFF_SIZE);
          s1 = s0\<lparr>cnt_dma_write := 1\<rparr>;
          alt = fst (udma_setup_transfer_alt (unat (cnt_dma_write s1)) ch DMA_BUFF_SIZE)
      in (s1\<lparr>cnt_dma_write := word_of_nat ((unat (cnt_dma_write s1) + 1) mod DMA_NUM_BUFFERS)\<rparr>,
          pri @ alt))"

section \<open>With the controller\<close>

record dma_world =
  isr :: isr_state
  table :: dma_table
  active :: udma_select
  buffers :: "u16 list list"

fun other :: "udma_select \<Rightarrow> udma_select" where
  "other UDMA_PRI_SELECT = UDMA_ALT_SELECT"
| "other _ = UDMA_PRI_SELECT"

definition dma_start :: "u32 \<Rightarrow> isr_state \<Rightarrow> dma_table \<Rightarrow> u16 list list \<Rightarrow> dma_world" where
  "dma_start ch s t bufs =
     (let (s', calls) = dma_setup ch s in
      \<lparr>isr = s', table = dma_exec calls t, active = UDMA_PRI_SELECT, buffers = bufs\<rparr>)"

text \<open>
  One block: it lands in the destination of the active structure, which stops, and the controller goes on with the other one; a
  structure that is not armed loses the block (\<open>None\<close>). Then the interrupt routine runs.
\<close>

definition dma_fill :: "u16 list \<Rightarrow> dma_world \<Rightarrow> dma_world option" where
  "dma_fill blk w =
     (let d = table w (active w) in
      if ds_mode d = UDMA_MODE_PINGPONG \<and> ds_enabled d then
        Option.bind (ds_dst d) (\<lambda>i. map_option (\<lambda>bufs.
          w\<lparr>table := (table w)(active w := d\<lparr>ds_mode := UDMA_MODE_STOP, ds_enabled := False\<rparr>),
            active := other (active w), buffers := bufs\<rparr>) (wr (buffers w) i blk))
      else None)"

definition dma_interrupt :: "u32 \<Rightarrow> dma_world \<Rightarrow> dma_world" where
  "dma_interrupt ch w =
     (let (s, calls) = isr_dma_done ch (ds_mode (table w UDMA_PRI_SELECT)) (ds_mode (table w UDMA_ALT_SELECT)) (isr w)
      in w\<lparr>isr := s, table := dma_exec calls (table w)\<rparr>)"

definition dma_block :: "u32 \<Rightarrow> u16 list \<Rightarrow> dma_world \<Rightarrow> dma_world option" where
  "dma_block ch blk w = map_option (dma_interrupt ch) (dma_fill blk w)"

lemma dma_block_eq:
  "dma_block ch blk w =
     (let d = table w (active w) in
      if ds_mode d = UDMA_MODE_PINGPONG \<and> ds_enabled d then
        Option.bind (ds_dst d) (\<lambda>i. Option.bind (wr (buffers w) i blk) (\<lambda>bufs.
          (let t = (table w)(active w := d\<lparr>ds_mode := UDMA_MODE_STOP, ds_enabled := False\<rparr>);
               (s, calls) = isr_dma_done ch (ds_mode (t UDMA_PRI_SELECT)) (ds_mode (t UDMA_ALT_SELECT)) (isr w)
           in Some \<lparr>isr = s, table = dma_exec calls t, active = other (active w), buffers = bufs\<rparr>)))
      else None)"
  by (cases w; cases "ds_dst (table w (active w))")
    (auto simp: dma_block_def dma_fill_def dma_interrupt_def Let_def wr_def split: prod.splits)

text \<open>Without the routine both structures stop after one block each.\<close>

lemma fills_stop:
  assumes "table w (active w) = armed UDMA_MODE_PINGPONG ch i sz" "table w (other (active w)) = armed UDMA_MODE_PINGPONG ch j sz"
    and "active w \<noteq> UDMA_NO_SELECT" "i < length (buffers w)" "j < length (buffers w)"
  shows "\<exists>w1 w2. dma_fill a w = Some w1 \<and> dma_fill b w1 = Some w2 \<and> dma_fill c w2 = None
    \<and> isr w1 = isr w \<and> isr w2 = isr w"
  using assms by (cases "active w") (auto simp: dma_fill_def Let_def armed_def wr_def)

section \<open>The buffer of a block\<close>

text \<open>Where the \<open>n\<close>-th block lands, and the contents of the buffers after \<open>n\<close> blocks.\<close>

definition fill :: "nat \<Rightarrow> nat" where
  "fill n = (if n < 2 then n else (n + 1) mod 65536 mod 30)"

primrec filled_buffers :: "(nat \<Rightarrow> u16 list) \<Rightarrow> u16 list list \<Rightarrow> nat \<Rightarrow> u16 list list" where
  "filled_buffers blk bufs 0 = bufs"
| "filled_buffers blk bufs (Suc n) = (filled_buffers blk bufs n)[fill n := blk n]"

lemma fill_lt: "fill n < 30"
  by (simp add: fill_def)

lemma fill_late: "fill (Suc (Suc n)) = (n + 3) mod 65536 mod 30"
proof -
  have "Suc (Suc n) + 1 = n + 3" by simp
  then show ?thesis unfolding fill_def by (simp only:) simp
qed

lemma filled_buffers_length [simp]: "length (filled_buffers blk bufs n) = length bufs"
  by (induction n) simp_all

lemma filled_buffers_keep:
  "m \<le> n \<Longrightarrow> (\<And>j. m \<le> j \<Longrightarrow> j < n \<Longrightarrow> fill j \<noteq> b) \<Longrightarrow>
   filled_buffers blk bufs n ! b = filled_buffers blk bufs m ! b"
  by (induction n rule: dec_induct) simp_all

lemma filled_buffers_last:
  assumes "length bufs = 30" "m < n" "fill m = b" "\<And>j. m < j \<Longrightarrow> j < n \<Longrightarrow> fill j \<noteq> b"
  shows "filled_buffers blk bufs n ! b = blk m"
proof -
  have "filled_buffers blk bufs n ! b = filled_buffers blk bufs (Suc m) ! b"
    using assms by (intro filled_buffers_keep) auto
  then show ?thesis using assms fill_lt [of m] by auto
qed

section \<open>The state after n blocks\<close>

definition sel_at :: "nat \<Rightarrow> udma_select" where
  "sel_at n = (if even n then UDMA_PRI_SELECT else UDMA_ALT_SELECT)"

lemma sel_at_Suc [simp]: "other (sel_at n) = sel_at (Suc n)"
  by (simp add: sel_at_def)

lemma sel_at_neq: "sel_at (Suc n) \<noteq> sel_at n"
  by (simp add: sel_at_def)

definition dma_after :: "u32 \<Rightarrow> (nat \<Rightarrow> u16 list) \<Rightarrow> u16 list list \<Rightarrow> nat \<Rightarrow> dma_world \<Rightarrow> bool" where
  "dma_after ch blk bufs n w \<longleftrightarrow>
     \<not> dma_finished (isr w) \<and> cnt_dma_write (isr w) = word_of_nat (n + 2)
     \<and> dws_semaphore (isr w) = n \<and> dma_cnt_interrupts (isr w) = word_of_nat n
     \<and> active w = sel_at n
     \<and> table w (sel_at n) = armed UDMA_MODE_PINGPONG ch (fill n) DMA_BUFF_SIZE
     \<and> table w (sel_at (Suc n)) = armed UDMA_MODE_PINGPONG ch (fill (Suc n)) DMA_BUFF_SIZE
     \<and> buffers w = filled_buffers blk bufs n"

text \<open>The state in which the set-up finds the routine's variables.\<close>

definition isr_reset :: isr_state where
  "isr_reset = \<lparr>dma_cnt_interrupts = 0, dma_finished = False, cnt_dma_write = 0,
                dma_stop_mode = DMA_STOP_MODE_PRI, dws_semaphore = 0\<rparr>"

lemma dma_start_after: "dma_after ch blk bufs 0 (dma_start ch isr_reset t bufs)"
  by (simp add: dma_after_def dma_start_def dma_setup_def isr_reset_def sel_at_def fill_def
      udma_setup_transfer_pri_def udma_setup_transfer_alt_def dma_program_exec DMA_NUM_BUFFERS_def)

lemma armed_sel [simp]:
  "ds_mode (armed m ch b sz) = m" "ds_enabled (armed m ch b sz)" "ds_dst (armed m ch b sz) = Some b"
  by (simp_all add: armed_def)

text \<open>With the structure \<open>sel_at n\<close> stopped and the other one running, the routine recharges \<open>sel_at n\<close>.\<close>

lemma clear_exec [simp]: "dma_exec (fst (adc_int_clear ch)) t = t"
  by (simp add: adc_int_clear_def dma_exec_def)

lemma isr_recharges:
  assumes "\<not> dma_finished s" "ds_mode (t (sel_at n)) = UDMA_MODE_STOP"
    "ds_mode (t (sel_at (Suc n))) = UDMA_MODE_PINGPONG"
    and "isr_dma_done ch (ds_mode (t UDMA_PRI_SELECT)) (ds_mode (t UDMA_ALT_SELECT)) s = (s', calls)"
  shows "\<not> dma_finished s' \<and> cnt_dma_write s' = cnt_dma_write s + 1
    \<and> dws_semaphore s' = dws_semaphore s + 1 \<and> dma_cnt_interrupts s' = dma_cnt_interrupts s + 1
    \<and> dma_exec calls t = t(sel_at n := armed UDMA_MODE_PINGPONG ch
        (unat (cnt_dma_write s + 1) mod 30) DMA_BUFF_SIZE)"
  using assms
  by (cases "even n")
    (auto simp: isr_dma_done_def Let_def sel_at_def dma_stop_mode_get_def isr_recharge_def
      dma_program_exec DMA_NUM_BUFFERS_def)

lemma dma_block_after:
  assumes "dma_after ch blk bufs n w" "length bufs = 30"
  shows "\<exists>w'. dma_block ch (blk n) w = Some w' \<and> dma_after ch blk bufs (Suc n) w'"
proof -
  let ?t = "(table w)(sel_at n := (table w (sel_at n))\<lparr>ds_mode := UDMA_MODE_STOP, ds_enabled := False\<rparr>)"
  obtain s calls where i: "isr_dma_done ch (ds_mode (?t UDMA_PRI_SELECT)) (ds_mode (?t UDMA_ALT_SELECT)) (isr w)
      = (s, calls)" by (metis surj_pair)
  note a = assms(1) [unfolded dma_after_def]
  have w': "dma_block ch (blk n) w = Some \<lparr>isr = s, table = dma_exec calls ?t,
      active = sel_at (Suc n), buffers = (filled_buffers blk bufs n)[fill n := blk n]\<rparr>"
    using a assms(2) fill_lt [of n] i by (simp add: dma_block_eq Let_def)
  have r: "\<not> dma_finished s \<and> cnt_dma_write s = cnt_dma_write (isr w) + 1
    \<and> dws_semaphore s = dws_semaphore (isr w) + 1 \<and> dma_cnt_interrupts s = dma_cnt_interrupts (isr w) + 1
    \<and> dma_exec calls ?t = ?t(sel_at n := armed UDMA_MODE_PINGPONG ch
        (unat (cnt_dma_write (isr w) + 1) mod 30) DMA_BUFF_SIZE)"
    by (rule isr_recharges [OF _ _ _ i]) (use a sel_at_neq [of n] in auto)
  have c: "cnt_dma_write (isr w) + 1 = word_of_nat (n + 3)" using a by simp
  have "unat (word_of_nat (n + 3) :: u16) mod 30 = fill (Suc (Suc n))"
    using unat_word_of_nat_mod [of "n + 3", where ?'a = 16] by (simp add: fill_late del: of_nat_add)
  then have "unat (3 + word_of_nat n :: u16) mod 30 = fill (Suc (Suc n))"
    by (simp add: add.commute)
  moreover have "sel_at (Suc (Suc n)) = sel_at n" by (simp add: sel_at_def)
  ultimately show ?thesis
    using a r sel_at_neq [of n] by (simp add: w' dma_after_def c) 
qed

lemma dma_run_after:
  assumes "length bufs = 30"
  shows "\<exists>w. run (dma_block ch) (map blk [0..<n]) (dma_start ch isr_reset t bufs) = Some w
           \<and> dma_after ch blk bufs n w"
proof (induction n)
  case 0
  then show ?case using dma_start_after by simp
next
  case (Suc n)
  then obtain w where "run (dma_block ch) (map blk [0..<n]) (dma_start ch isr_reset t bufs) = Some w"
    "dma_after ch blk bufs n w" by blast
  with dma_block_after [OF this(2) assms] show ?case by (auto simp: run_append)
qed

lemma filled_buffers_cong:
  "(\<And>j. j < n \<Longrightarrow> blk j = blk' j) \<Longrightarrow> filled_buffers blk bufs n = filled_buffers blk' bufs n"
  by (induction n) simp_all

text \<open>Every block finds an armed structure: the ping-pong never stalls.\<close>

interpretation dma: safe_machine "dma_block ch"
  "\<lambda>w. \<exists>blk bufs n. length bufs = 30 \<and> dma_after ch blk bufs n w" "\<lambda>_. True"
proof
  fix w and b :: "u16 list"
  assume "\<exists>blk bufs n. length bufs = 30 \<and> dma_after ch blk bufs n w"
  then obtain blk bufs n where l: "length bufs = 30" and a: "dma_after ch blk bufs n w" by blast
  have "filled_buffers (blk(n := b)) bufs n = filled_buffers blk bufs n"
    by (rule filled_buffers_cong) simp
  then have "dma_after ch (blk(n := b)) bufs n w" using a by (simp add: dma_after_def)
  from dma_block_after [OF this l] l
  show "\<exists>w'. dma_block ch b w = Some w' \<and> (\<exists>blk bufs n. length bufs = 30 \<and> dma_after ch blk bufs n w')"
    by auto
qed

section \<open>What the reader finds\<close>

lemma mod_30_neq: "k < (j::nat) \<Longrightarrow> j < k + 30 \<Longrightarrow> j mod 30 \<noteq> k mod 30"
proof
  assume a: "k < j" "j < k + 30" and "j mod 30 = k mod 30"
  then have "30 dvd j - k" by (simp add: mod_eq_dvd_iff_nat)
  then have "30 \<le> j - k" using a by (intro dvd_imp_le) simp_all
  with a show False by simp
qed

lemma fill_small: "2 \<le> n \<Longrightarrow> n < 65535 \<Longrightarrow> fill n = (n + 1) mod 30"
  by (simp add: fill_def)

lemma fill_wrapped: "65535 \<le> n \<Longrightarrow> n < 131071 \<Longrightarrow> fill n = (n + 1 - 65536) mod 30"
  by (simp add: fill_def mod_if [of "Suc n" 65536])

text \<open>
  The interrupt routine and the controller never stall: after any number of blocks both
  structures are armed for the next two fills, each block has posted the semaphore of the
  downsampling thread once and incremented the two counters once.
\<close>

theorem dma_never_stalls:
  assumes "length bufs = 30"
  shows "\<exists>w. run (dma_block ch) (map blk [0..<n]) (dma_start ch isr_reset t bufs) = Some w
    \<and> dws_semaphore (isr w) = n \<and> dma_cnt_interrupts (isr w) = word_of_nat n
    \<and> cnt_dma_write (isr w) = word_of_nat (n + 2)
    \<and> table w (active w) = armed UDMA_MODE_PINGPONG ch (fill n) DMA_BUFF_SIZE
    \<and> table w (other (active w)) = armed UDMA_MODE_PINGPONG ch (fill (n + 1)) DMA_BUFF_SIZE"
  using dma_run_after [OF assms, of ch blk n t] by (auto simp: dma_after_def)

lemma dma_never_stalls_witness:
  "\<exists>w. run (dma_block 16) (map (\<lambda>n. [word_of_nat n]) [0..<100])
      (dma_start 16 isr_reset (\<lambda>_. armed UDMA_MODE_STOP 0 0 0) (replicate 30 [])) = Some w
    \<and> dws_semaphore (isr w) = 100"
  using dma_never_stalls [of "replicate 30 []" 16 "\<lambda>n. [word_of_nat n]" 100
      "\<lambda>_. armed UDMA_MODE_STOP 0 0 0"] by auto

text \<open>What the reader finds in its buffer.\<close>

lemma reader_block:
  assumes "length bufs = 30" "3 \<le> k" "k \<le> n" "n \<le> k + 28" "n < 65535"
  shows "\<exists>w. run (dma_block ch) (map blk [0..<n]) (dma_start ch isr_reset t bufs) = Some w
    \<and> buffers w ! (k mod 30) = blk (k - 1)
    \<and> ds_dst (table w (active w)) \<noteq> Some (k mod 30)"
proof -
  obtain w where w: "run (dma_block ch) (map blk [0..<n]) (dma_start ch isr_reset t bufs) = Some w"
    and a: "dma_after ch blk bufs n w"
    using dma_run_after [OF assms(1)] by blast
  have "filled_buffers blk bufs n ! (k mod 30) = blk (k - 1)"
    using assms mod_30_neq [of k] by (intro filled_buffers_last) (simp_all add: fill_small)
  moreover have "fill n \<noteq> k mod 30"
    using assms mod_30_neq [of k "n + 1"] by (simp add: fill_small)
  ultimately show ?thesis using w a by (simp add: dma_after_def)
qed

text \<open>
  The start of the stream: buffers 0 and 1 hold the first two blocks, while buffer 2, which the
  third iteration of the downsampling thread reads, is skipped in the first turn of the ring and
  still holds its initial contents.
\<close>

theorem dma_third_buffer_skipped:
  assumes "length bufs = 30" "2 \<le> n" "n \<le> 29"
  shows "\<exists>w. run (dma_block ch) (map blk [0..<n]) (dma_start ch isr_reset t bufs) = Some w
    \<and> buffers w ! 0 = blk 0 \<and> buffers w ! 1 = blk 1 \<and> buffers w ! 2 = bufs ! 2"
proof -
  obtain w where w: "run (dma_block ch) (map blk [0..<n]) (dma_start ch isr_reset t bufs) = Some w"
    and a: "dma_after ch blk bufs n w"
    using dma_run_after [OF assms(1)] by blast
  have "filled_buffers blk bufs n ! 0 = blk 0"
    using assms by (intro filled_buffers_last) (auto simp: fill_def)
  moreover have "filled_buffers blk bufs n ! 1 = blk 1"
    using assms by (intro filled_buffers_last) (auto simp: fill_def)
  moreover have "filled_buffers blk bufs n ! 2 = filled_buffers blk bufs 0 ! 2"
    using assms by (intro filled_buffers_keep) (auto simp: fill_def)
  ultimately show ?thesis using w a by (simp add: dma_after_def)
qed

lemma dma_third_buffer_skipped_witness:
  "\<exists>w. run (dma_block 16) (map (\<lambda>n. [word_of_nat n]) [0..<3])
      (dma_start 16 isr_reset (\<lambda>_. armed UDMA_MODE_STOP 0 0 0) (replicate 30 [77])) = Some w
    \<and> buffers w ! 2 = [77]"
  using dma_third_buffer_skipped [of "replicate 30 [77]" 3 16 "\<lambda>n. [word_of_nat n]"
      "\<lambda>_. armed UDMA_MODE_STOP 0 0 0"] by auto

lemma wrapped_buffer:
  assumes "length bufs = 30" "65550 \<le> k" "k \<le> n" "n \<le> k + 14" "n < 131071"
  shows "filled_buffers blk bufs n ! (k mod 30) = blk (k - 15)"
proof (rule filled_buffers_last [OF assms(1)])
  let ?m = "k - 65550"
  have "k = ?m + 2185 * 30" using assms(2) by simp
  then have k: "k mod 30 = ?m mod 30" by (metis mod_mult_self1)
  show "k - 15 < n" using assms by simp
  have "fill (k - 15) = (k - 15 + 1 - 65536) mod 30"
    by (rule fill_wrapped) (use assms in simp_all)
  then show "fill (k - 15) = k mod 30" using assms(2) by (simp only: k) simp
  fix j assume j: "k - 15 < j" "j < n"
  then have "fill j = (j + 1 - 65536) mod 30"
    by (intro fill_wrapped) (use assms in simp_all)
  then show "fill j \<noteq> k mod 30"
    using mod_30_neq [of ?m "j + 1 - 65536"] j assms by (simp add: k)
qed

text \<open>
  The 16-bit counter wraps at 65536, which 30 does not divide: from then on the writer and the
  reader are out of phase, and iteration \<open>k\<close> of the downsampling thread finds block \<open>k - 15\<close>.
\<close>

theorem dma_reader_after_wrap:
  assumes "length bufs = 30" "65550 \<le> k" "k \<le> n" "n \<le> k + 14" "n < 131071"
  shows "\<exists>w. run (dma_block ch) (map blk [0..<n]) (dma_start ch isr_reset t bufs) = Some w
    \<and> buffers w ! (k mod 30) = blk (k - 15)"
  using dma_run_after [OF assms(1), of ch blk n t] wrapped_buffer [OF assms, of blk] by (auto simp: dma_after_def)

lemma dma_reader_after_wrap_witness:
  "\<exists>w. run (dma_block 16) (map (\<lambda>n. [word_of_nat n]) [0..<70001])
      (dma_start 16 isr_reset (\<lambda>_. armed UDMA_MODE_STOP 0 0 0) (replicate 30 [])) = Some w
    \<and> buffers w ! (70000 mod 30) = [word_of_nat 69985]"
  using dma_reader_after_wrap [of "replicate 30 []" 70000 70001 16 "\<lambda>n. [word_of_nat n]"
      "\<lambda>_. armed UDMA_MODE_STOP 0 0 0"] by auto

text \<open>
  (C17) What the reader finds when iteration \<open>k\<close> of the downsampling thread looks at its buffer \<open>k mod 30\<close> after \<open>n\<close> blocks have been
  captured. As the routine increments its counter before it recharges a transfer, the reader is one block late: while fewer
  than 65535 blocks have been captured, about fourteen minutes, the buffer of iteration \<open>k \<ge> 3\<close> holds block \<open>k - 1\<close>, and it
  stays there, not to be written next, until 28 more blocks have been captured. The first two iterations find blocks 0 and 1, the third
  finds what the buffer held before the start. After the 16-bit counter has wrapped, up to its second wrap, the reader finds block
  \<open>k - 15\<close>, for fourteen more blocks.
\<close>

theorem dma_reader_one_block_late:
  assumes "length bufs = 30"
  shows "\<exists>w. run (dma_block ch) (map blk [0..<n]) (dma_start ch isr_reset t bufs) = Some w
    \<and> (3 \<le> k \<and> k \<le> n \<and> n \<le> k + 28 \<and> n < 65535 \<longrightarrow>
         buffers w ! (k mod 30) = blk (k - 1) \<and> ds_dst (table w (active w)) \<noteq> Some (k mod 30))
    \<and> (2 \<le> n \<and> n \<le> 29 \<longrightarrow> buffers w ! 0 = blk 0 \<and> buffers w ! 1 = blk 1 \<and> buffers w ! 2 = bufs ! 2)
    \<and> (65550 \<le> k \<and> k \<le> n \<and> n \<le> k + 14 \<and> n < 131071 \<longrightarrow> buffers w ! (k mod 30) = blk (k - 15))"
proof -
  obtain w where "run (dma_block ch) (map blk [0..<n]) (dma_start ch isr_reset t bufs) = Some w"
    using dma_run_after [OF assms] by blast
  then show ?thesis
    using reader_block [OF assms, of k n ch blk t] dma_third_buffer_skipped [OF assms, of n ch blk t]
      dma_reader_after_wrap [OF assms, of k n ch blk t]
    by (intro exI [of _ w]) fastforce
qed

lemma dma_reader_one_block_late_witness:
  "\<exists>w. run (dma_block 16) (map (\<lambda>n. [word_of_nat n]) [0..<50])
      (dma_start 16 isr_reset (\<lambda>_. armed UDMA_MODE_STOP 0 0 0) (replicate 30 [])) = Some w
    \<and> buffers w ! (40 mod 30) = [39]"
  using dma_reader_one_block_late [of "replicate 30 []" 16 "\<lambda>n. [word_of_nat n]" 50
      "\<lambda>_. armed UDMA_MODE_STOP 0 0 0" 40] by auto

end
