(* ===== verification/Main_Thread.thy ===== *)
theory Main_Thread
  imports Threads Dma_Ring
begin

text \<open>
  \<open>mainThread\<close> of \<open>empty.c\<close>: it creates the semaphores, brings up the network and the MQTT module, asks the server for
  the number of the device, starts the acquisition, creates the threads, and then loops. Every phase is composed of the
  operations of the components, in the order of the code; a failed phase prints its error and goes on. The interrupt
  routine runs between the turns of the final loop.
\<close>

section \<open>State\<close>

datatype thread_entry =
  T_send_data | T_thread_downsampling dws_arg | T_softtimer | T_test_wifi

record main_state =
  m_wifi :: wifi
  m_client_id :: string
  m_mqtt :: mqttContext
  m_id_device :: u16
  m_mac :: "u8 list"
  m_drv :: "drv list"
  m_slots :: "int_handler_t list"
  m_isr :: isr_state
  m_timer :: "nat option"
  m_threads :: "(thread_entry \<times> nat \<times> nat) list"

text \<open>
  What the phases find: the WiFi driver, the MAC address, the results of the allocations, of the client library and of
  the operating system, the results of the requests for a number with the payloads that \<open>cmd_zero\<close> receives after each, and the ADC
  channel, interrupt number and handle of the SDK.
\<close>

record main_env =
  me_wifi :: wifi_env
  me_mac :: "u8 list"
  me_init :: "bool \<times> int \<times> int \<times> int"
  me_sub :: "nat option \<times> bool \<times> int"
  me_con :: "int option \<times> int \<times> int \<times> bool list"
  me_junk :: "u8 list"
  me_polls :: "(int \<times> u8 list list) list"
  me_channel :: u32
  me_int_adc :: int
  me_hwi :: "nat option"
  me_thread_ok :: "thread_entry \<Rightarrow> bool"

definition USECONDS_TO_SOFTTIMER_CB :: nat where "USECONDS_TO_SOFTTIMER_CB = 1000000"
definition DWS_STACK_SIZE :: nat where "DWS_STACK_SIZE = 1024"
definition SOFTTIMER_STACK_SIZE :: nat where "SOFTTIMER_STACK_SIZE = 1024"
definition TEST_WIFI_STACK_SIZE :: nat where "TEST_WIFI_STACK_SIZE = 1024"
definition SEND_DATA_STACK_SIZE :: nat where "SEND_DATA_STACK_SIZE = 1024 * 5"
definition SOFTTIMER_THREAD_PRIORITY :: nat where "SOFTTIMER_THREAD_PRIORITY = 5"
definition TEST_WIFI_THREAD_PRIORITY :: nat where "TEST_WIFI_THREAD_PRIORITY = 5"
definition SEND_CMD_THREAD_PRIORITY :: nat where "SEND_CMD_THREAD_PRIORITY = 5"

section \<open>The start of the main thread\<close>

text \<open>
  \<open>main\<close> of \<open>main_tirtos.c\<close>: the results of setting the priority, the detached state and the stack size are combined,
  and the main thread is created before the scheduler is started. \<open>None\<close>: one of the endless loops after a failure.
\<close>

definition THREADSTACKSIZE :: nat where "THREADSTACKSIZE = 1024 * 4"

record thread_attrs =
  sched_priority :: nat
  detached :: bool
  stack_size :: nat

definition tirtos_main :: "int \<Rightarrow> int \<Rightarrow> int \<Rightarrow> int \<Rightarrow> thread_attrs option" where
  "tirtos_main param_ret detach_ret stack_ret create_ret =
     (let retc = (param_ret OR detach_ret) OR stack_ret in
      if retc \<noteq> 0 then None
      else if create_ret \<noteq> 0 then None
      else Some \<lparr>sched_priority = 1, detached = True, stack_size = THREADSTACKSIZE\<rparr>)"

text \<open>The scheduler starts, with the main thread below all other threads, if and only if every call succeeded.\<close>

lemma tirtos_main_starts:
  "(\<exists>a. tirtos_main p d k c = Some a \<and> sched_priority a < SEND_CMD_THREAD_PRIORITY) \<longleftrightarrow> p = 0 \<and> d = 0 \<and> k = 0 \<and> c = 0"
  by (auto simp: tirtos_main_def SEND_CMD_THREAD_PRIORITY_def or_eq_0_iff)

section \<open>Phases\<close>

text \<open>Start of the drivers and the semaphores; the count of the downsampling semaphore is part of \<open>isr_state\<close>.\<close>

definition main_device_init :: "main_state \<Rightarrow> main_state" where
  "main_device_init w =
     w\<lparr>m_drv := m_drv w @ fst gpio_open @ fst adc_init @ fst udma_init,
       m_isr := (m_isr w)\<lparr>dws_semaphore := 0\<rparr>\<rparr>"

definition main_network :: "nat \<Rightarrow> main_env \<Rightarrow> main_state \<Rightarrow> main_state option" where
  "main_network slack e w =
     (let (malloc_ok, mutex_ret, mq, thr) = me_init e; (node_addr, topic_ok, sub_ret) = me_sub e;
          (created, cthr, connect_ret, polls) = me_con e
      in do { (s1, client, r1) \<leftarrow> wifi_init (me_wifi e) (me_mac e) (m_client_id w) (m_wifi w);
              (s2, r2) \<leftarrow> wifi_connect (me_wifi e) s1;
              (q1, r3) \<leftarrow> mqtt_init malloc_ok mutex_ret mq thr (m_mqtt w);
              (q2, r4) \<leftarrow> mqtt_subscribe node_addr topic_ok sub_ret q1;
              (q3, r5) \<leftarrow> mqtt_connect created cthr connect_ret polls q2;
              (s3, r6) \<leftarrow> sl (me_wifi e) C_NetCfgGet s2;
              (q4, dev, r7) \<leftarrow> ask_for_id slack (me_mac e) (me_junk e) (me_polls e) q3;
              Some (w\<lparr>m_wifi := s3, m_client_id := client, m_mqtt := q4, m_mac := me_mac e, m_id_device := dev\<rparr>) })"

text \<open>Interrupts, ADC, the two transfers, and the interrupt handler.\<close>

definition main_acquisition :: "main_env \<Rightarrow> main_state \<Rightarrow> main_state" where
  "main_acquisition e w =
     (let ch = me_channel e;
          (slots1, d1, r1) = interrupt_config (m_slots w);
          d2 = fst adc_open @ fst udma_open @ fst (adc_config ch) @ fst (adc_int_clear ch) @ fst (adc_start ch);
          (isr1, d3) = dma_setup ch (m_isr w);
          (slots2, d4, r2) = udma_interrupt_start (me_int_adc e) (me_hwi e) slots1
      in w\<lparr>m_drv := m_drv w @ d1 @ d2 @ d3 @ d4, m_slots := slots2, m_isr := isr1\<rparr>)"

definition spawn :: "main_env \<Rightarrow> thread_entry \<Rightarrow> nat \<Rightarrow> nat \<Rightarrow> main_state \<Rightarrow> main_state" where
  "spawn e entry stack prio w =
     (if me_thread_ok e entry then w\<lparr>m_threads := m_threads w @ [(entry, stack, prio)]\<rparr> else w)"

definition main_threads :: "main_env \<Rightarrow> main_state \<Rightarrow> main_state" where
  "main_threads e w =
     (let w1 = spawn e T_send_data SEND_DATA_STACK_SIZE SEND_CMD_THREAD_PRIORITY w;
          w2 = spawn e (T_thread_downsampling dws_arg_thread) DWS_STACK_SIZE SEND_CMD_THREAD_PRIORITY w1;
          w3 = w2\<lparr>m_timer := Some USECONDS_TO_SOFTTIMER_CB\<rparr>;
          w4 = spawn e T_softtimer SOFTTIMER_STACK_SIZE SOFTTIMER_THREAD_PRIORITY w3
      in spawn e T_test_wifi TEST_WIFI_STACK_SIZE TEST_WIFI_THREAD_PRIORITY w4)"

text \<open>The assignments before the final loop, and one turn of it.\<close>

definition main_loop_init :: "main_state \<Rightarrow> main_state" where
  "main_loop_init w = w\<lparr>m_isr := (m_isr w)\<lparr>dma_cnt_interrupts := 0, dma_finished := False\<rparr>\<rparr>"

definition main_loop_turn :: "main_env \<Rightarrow> main_state \<Rightarrow> main_state" where
  "main_loop_turn e w =
     (if \<not> dma_finished (m_isr w) then w
      else let (slots, d, r) = udma_interrupt_start (me_int_adc e) (me_hwi e) (m_slots w)
           in w\<lparr>m_isr := (m_isr w)\<lparr>dma_finished := False\<rparr>,
                m_drv := m_drv w @ fst (adc_int_clear (me_channel e)) @ d, m_slots := slots\<rparr>)"

definition main_start :: "nat \<Rightarrow> main_env \<Rightarrow> main_state \<Rightarrow> main_state option" where
  "main_start slack e w =
     do { w1 \<leftarrow> main_network slack e (main_device_init w);
          Some (main_loop_init (main_threads e (main_acquisition e w1))) }"

section \<open>The loop and the interrupt\<close>

text \<open>What happens after the start: a turn of the loop, or an interrupt with the modes the controller reports.\<close>

datatype main_event = Main_turn | Adc_interrupt udma_mode udma_mode

fun main_step :: "main_env \<Rightarrow> main_event \<Rightarrow> main_state \<Rightarrow> main_state" where
  "main_step e Main_turn w = main_loop_turn e w"
| "main_step e (Adc_interrupt pri alt) w =
     (let (isr', d) = isr_dma_done (me_channel e) pri alt (m_isr w)
      in w\<lparr>m_isr := isr', m_drv := m_drv w @ d\<rparr>)"

text \<open>The restart branch of the loop is not taken, and the slots stay as they are.\<close>

definition loop_inv :: "int_handler_t list \<Rightarrow> main_state \<Rightarrow> bool" where
  "loop_inv slots w \<longleftrightarrow> \<not> dma_finished (m_isr w) \<and> m_slots w = slots"

lemma isr_keeps_running:
  "\<not> dma_finished s \<Longrightarrow> isr_dma_done ch pri alt s = (s', d) \<Longrightarrow> \<not> dma_finished s'"
  by (auto simp: isr_dma_done_def Let_def split: dma_stop_mode_t.splits)

lemma main_step_inv: "loop_inv slots w \<Longrightarrow> loop_inv slots (main_step e ev w)"
  by (cases ev) (auto simp: loop_inv_def main_loop_turn_def split: prod.splits dest: isr_keeps_running)

interpretation main_loop: machine "main_step e" "loop_inv slots" for e slots
  by unfold_locales (rule main_step_inv)

text \<open>The interrupts of a history, and the driver calls they make.\<close>

fun isr_drv :: "u32 \<Rightarrow> main_event list \<Rightarrow> isr_state \<Rightarrow> drv list" where
  "isr_drv ch [] s = []"
| "isr_drv ch (Main_turn # es) s = isr_drv ch es s"
| "isr_drv ch (Adc_interrupt pri alt # es) s =
     (let (s', d) = isr_dma_done ch pri alt s in d @ isr_drv ch es s')"

lemma main_loop_drv:
  "\<not> dma_finished (m_isr w) \<Longrightarrow>
   m_drv (fold (main_step e) es w) = m_drv w @ isr_drv (me_channel e) es (m_isr w)"
proof (induction es arbitrary: w)
  case (Cons ev es)
  have "\<not> dma_finished (m_isr (main_step e ev w))"
    using main_step_inv [of "m_slots w" w e ev] Cons.prems by (simp add: loop_inv_def)
  then have "m_drv (fold (main_step e) es (main_step e ev w))
      = m_drv (main_step e ev w) @ isr_drv (me_channel e) es (m_isr (main_step e ev w))"
    by (rule Cons.IH)
  then show ?case
    using Cons.prems by (cases ev) (auto simp: main_loop_turn_def split: prod.splits)
qed simp

text \<open>
  The restart branch of the main loop is dead: after the start, in every interleaving of turns of the loop with
  interrupts, the flag it waits for is never raised, no new interrupt handler is created, and every driver call is one
  of the interrupt routine's.
\<close>

theorem main_loop_never_restarts:
  "\<not> dma_finished (m_isr (fold (main_step e) es (main_loop_init w)))
   \<and> m_slots (fold (main_step e) es (main_loop_init w)) = m_slots w
   \<and> m_drv (fold (main_step e) es (main_loop_init w))
       = m_drv w @ isr_drv (me_channel e) es (m_isr (main_loop_init w))"
proof -
  have "loop_inv (m_slots w) (main_loop_init w)" by (simp add: loop_inv_def main_loop_init_def)
  from main_loop.inv_fold [OF this, of e es] main_loop_drv [of "main_loop_init w" e es] show ?thesis
    by (simp add: loop_inv_def main_loop_init_def)
qed

section \<open>From the start to the acquisition\<close>

text \<open>The world of the controller after the start.\<close>

definition world_of :: "dma_table \<Rightarrow> u16 list list \<Rightarrow> main_state \<Rightarrow> dma_world" where
  "world_of t bufs w = \<lparr>isr = m_isr w, table = dma_exec (m_drv w) t, active = UDMA_PRI_SELECT, buffers = bufs\<rparr>"

lemma dma_exec_other:
  "dma_exec (fst adc_open) t = t" "dma_exec (fst udma_open) t = t" "dma_exec (fst (adc_config ch)) t = t"
  "dma_exec (fst (adc_int_clear ch)) t = t" "dma_exec (fst (adc_start ch)) t = t"
  "dma_exec (HwiP_Params_init # ds) t = dma_exec ds t" "dma_exec [HwiP_create n] t = t"
  by (simp_all add: dma_exec_def adc_open_def udma_open_def adc_config_def adc_int_clear_def adc_start_def)

lemma acquisition_world:
  assumes "m_isr w = isr_reset" "m_drv w = pre"
  shows "world_of t bufs (main_loop_init (main_threads e (main_acquisition e w)))
    = dma_start (me_channel e) isr_reset (dma_exec pre t) bufs"
proof -
  obtain isr1 d3 where d: "dma_setup (me_channel e) isr_reset = (isr1, d3)" by (metis surj_pair)
  have isr1: "isr1\<lparr>dma_cnt_interrupts := 0, dma_finished := False\<rparr> = isr1"
    using d by (auto simp: dma_setup_def isr_reset_def Let_def)
  have threads: "m_isr (main_threads e x) = m_isr x" "m_drv (main_threads e x) = m_drv x" for x
    by (simp_all add: main_threads_def spawn_def Let_def)
  obtain slots2 d4 r2 where s: "udma_interrupt_start (me_int_adc e) (me_hwi e) (fst (interrupt_config (m_slots w)))
      = (slots2, d4, r2)" by (metis surj_pair)
  then have "d4 = [HwiP_create (me_int_adc e)]"
    by (auto simp: udma_interrupt_start_def Let_def split: option.splits if_splits)
  then show ?thesis
    using assms d s isr1
    by (simp add: world_of_def main_loop_init_def threads main_acquisition_def interrupt_config_def Let_def
        dma_exec_other dma_start_def)
qed

text \<open>The driver calls of the phases before the acquisition leave the control table alone.\<close>

lemma device_init_drv:
  "dma_exec (m_drv (main_device_init w)) t = dma_exec (m_drv w) t"
  by (simp add: main_device_init_def) (simp add: dma_exec_def gpio_open_def adc_init_def udma_init_def)

text \<open>
  What the calls leave in the ADC and in the interrupt controller: whether the ADC converts, whether the channel does, whether its
  samples go to the DMA controller, and whether the end of a transfer raises its interrupt. At reset all of it is off.
\<close>

record adc_unit =
  adc_enabled :: bool
  chan_enabled :: bool
  chan_dma :: bool
  chan_done :: bool

fun adc_exec1 :: "u32 \<Rightarrow> drv \<Rightarrow> adc_unit \<Rightarrow> adc_unit" where
  "adc_exec1 ch ADCEnable a = a\<lparr>adc_enabled := True\<rparr>"
| "adc_exec1 ch ADCDisable a = a\<lparr>adc_enabled := False\<rparr>"
| "adc_exec1 ch (ADCChannelEnable c) a = (if c = ch then a\<lparr>chan_enabled := True\<rparr> else a)"
| "adc_exec1 ch (ADCChannelDisable c) a = (if c = ch then a\<lparr>chan_enabled := False\<rparr> else a)"
| "adc_exec1 ch (ADCDMAEnable c) a = (if c = ch then a\<lparr>chan_dma := True\<rparr> else a)"
| "adc_exec1 ch (ADCDMADisable c) a = (if c = ch then a\<lparr>chan_dma := False\<rparr> else a)"
| "adc_exec1 ch (ADCIntEnable c fs) a = (if c = ch \<and> ADC_DMA_DONE \<in> set fs then a\<lparr>chan_done := True\<rparr> else a)"
| "adc_exec1 ch (ADCIntDisable c fs) a = (if c = ch \<and> ADC_DMA_DONE \<in> set fs then a\<lparr>chan_done := False\<rparr> else a)"
| "adc_exec1 ch _ a = a"

definition adc_after :: "u32 \<Rightarrow> drv list \<Rightarrow> adc_unit" where
  "adc_after ch ds = fold (adc_exec1 ch) ds \<lparr>adc_enabled = False, chan_enabled = False, chan_dma = False, chan_done = False\<rparr>"

text \<open>The interrupt routine is called when its interrupt is enabled and the creation of its handler has succeeded.\<close>

definition routine_called :: "main_env \<Rightarrow> main_state \<Rightarrow> bool" where
  "routine_called e w \<longleftrightarrow>
     chan_done (adc_after (me_channel e) (m_drv w)) \<and> HwiP_create (me_int_adc e) \<in> set (m_drv w) \<and> me_hwi e \<noteq> None"

text \<open>A block of samples in the state \<open>w\<close> of the program; \<open>None\<close>: there is none, or it is lost.\<close>

definition acq_block :: "main_env \<Rightarrow> main_state \<Rightarrow> u16 list \<Rightarrow> dma_world \<Rightarrow> dma_world option" where
  "acq_block e w blk d =
     (let a = adc_after (me_channel e) (m_drv w) in
      if \<not> (adc_enabled a \<and> chan_enabled a \<and> chan_dma a) then None
      else if routine_called e w then dma_block (me_channel e) blk d
      else dma_fill blk d)"

abbreviation after_start :: "main_env \<Rightarrow> main_state \<Rightarrow> main_state" where
  "after_start e w \<equiv> main_loop_init (main_threads e (main_acquisition e w))"

lemma interrupt_start_drv: "fst (snd (udma_interrupt_start num h slots)) = [HwiP_create num]"
  by (simp add: udma_interrupt_start_def Let_def split: option.splits)

lemma acquisition_drv:
  "m_drv (after_start e w) = m_drv w @ [HwiP_Params_init, ADC_init_call, ADC_open_call, UDMACC32XX_open]
     @ fst (adc_config (me_channel e)) @ fst (adc_int_clear (me_channel e)) @ fst (adc_start (me_channel e))
     @ snd (dma_setup (me_channel e) (m_isr w)) @ [HwiP_create (me_int_adc e)]"
proof -
  have t: "m_drv (main_loop_init (main_threads e x)) = m_drv x" for x
    by (simp add: main_loop_init_def main_threads_def spawn_def Let_def)
  obtain slots d r where "udma_interrupt_start (me_int_adc e) (me_hwi e) (fst (interrupt_config (m_slots w))) = (slots, d, r)"
    by (metis surj_pair)
  moreover from this have "d = [HwiP_create (me_int_adc e)]"
    using interrupt_start_drv [of "me_int_adc e" "me_hwi e" "fst (interrupt_config (m_slots w))"] by simp
  ultimately show ?thesis
    by (cases "dma_setup (me_channel e) (m_isr w)")
      (simp add: t main_acquisition_def interrupt_config_def adc_open_def udma_open_def Let_def)
qed

lemma after_start_samples:
  "adc_after (me_channel e) (m_drv (after_start e w))
    = \<lparr>adc_enabled = True, chan_enabled = True, chan_dma = True, chan_done = True\<rparr>"
proof -
  have "fold (adc_exec1 ch) (snd (dma_setup ch s)) a = a" for ch s a
    by (simp add: dma_setup_def udma_setup_transfer_pri_def udma_setup_transfer_alt_def dma_program_def Let_def)
  then show ?thesis
    unfolding acquisition_drv
    by (simp add: adc_after_def adc_config_def adc_int_clear_def adc_start_def)
qed

lemma after_start_called: "routine_called e (after_start e w) \<longleftrightarrow> me_hwi e \<noteq> None"
proof -
  have "HwiP_create (me_int_adc e) \<in> set (m_drv (after_start e w))" unfolding acquisition_drv by simp
  then show ?thesis by (simp add: routine_called_def after_start_samples)
qed

lemma acq_served: "me_hwi e \<noteq> None \<Longrightarrow> acq_block e (after_start e w) = dma_block (me_channel e)"
  and acq_unserved: "me_hwi e = None \<Longrightarrow> acq_block e (after_start e w) = dma_fill"
  by (rule ext, rule ext, simp only: acq_block_def Let_def after_start_samples after_start_called, simp)+

text \<open>
  (C16) The acquisition runs after the start: the phases of \<open>mainThread\<close> that follow the network leave the ADC converting into
  the DMA controller with its interrupt enabled, whatever calls were made before. If the interrupt handler could be created,
  the controller captures any number of blocks without stalling, each block wakes the downsampling thread once, and both
  transfers are armed for the next two buffers. If it could not, which the code only logs, the two prepared transfers take two
  blocks, no thread is woken, and every further block is lost.
\<close>

theorem start_runs_acquisition:
  assumes "m_isr w = isr_reset" "length bufs = 30"
  shows "(me_hwi e \<noteq> None \<longrightarrow> (\<exists>d. run (acq_block e (after_start e w)) (map blk [0..<n]) (world_of t bufs (after_start e w)) = Some d
      \<and> dws_semaphore (isr d) = n
      \<and> table d (active d) = armed UDMA_MODE_PINGPONG (me_channel e) (fill n) DMA_BUFF_SIZE
      \<and> table d (other (active d)) = armed UDMA_MODE_PINGPONG (me_channel e) (fill (n + 1)) DMA_BUFF_SIZE))
    \<and> (me_hwi e = None \<longrightarrow>
        (\<exists>d. run (acq_block e (after_start e w)) [blk 0, blk 1] (world_of t bufs (after_start e w)) = Some d
           \<and> dws_semaphore (isr d) = 0 \<and> acq_block e (after_start e w) (blk 2) d = None))"
proof -
  let ?d0 = "world_of t bufs (after_start e w)"
  have d0: "?d0 = dma_start (me_channel e) isr_reset (dma_exec (m_drv w) t) bufs"
    by (rule acquisition_world [OF assms(1) refl])
  have start: "dma_after (me_channel e) blk bufs 0 ?d0" unfolding d0 by (rule dma_start_after)
  have "\<exists>w1 w2. dma_fill (blk 0) ?d0 = Some w1 \<and> dma_fill (blk 1) w1 = Some w2 \<and> dma_fill (blk 2) w2 = None
    \<and> isr w1 = isr ?d0 \<and> isr w2 = isr ?d0"
    by (rule fills_stop) (use start assms(2) in \<open>auto simp: dma_after_def sel_at_def fill_def\<close>)
  moreover have "dws_semaphore (isr ?d0) = 0" using start by (simp add: dma_after_def)
  ultimately show ?thesis
    using dma_run_after [OF assms(2), of "me_channel e" blk n "dma_exec (m_drv w) t"]
    by (auto simp: acq_served acq_unserved d0 dma_after_def)
qed

definition number_example :: "u8 list" where
  "number_example = resp_id_message 0 CMD 14 CMD_RESP_ID \<lparr>rsp_mac_addr = [1, 2, 3, 4, 5, 6], cmd_resp_id = 9\<rparr> @ [0]"

definition main_env_example :: main_env where
  "main_env_example = \<lparr>me_wifi = wifi_env_example\<lparr>sl_events := \<lambda>h. case h of
       C_sleep # h' \<Rightarrow> [Wlan (SL_WLAN_EVENT_CONNECT [80, 76] [1, 2, 3, 4, 5, 6]), NetApp SL_NETAPP_EVENT_IPV4_ACQUIRED]
     | _ \<Rightarrow> []\<rparr>,
     me_mac = [1, 2, 3, 4, 5, 6], me_init = (True, 0, 1, 0), me_sub = (Some 8, True, 0),
     me_con = (Some 1, 0, 0, [True]), me_junk = replicate 16 0, me_polls = [(0, []), (0, [number_example])],
     me_channel = 16, me_int_adc = 30, me_hwi = Some 4, me_thread_ok = (\<lambda>t. True)\<rparr>"

definition main_state_example :: main_state where
  "main_state_example = \<lparr>m_wifi = wifi_example, m_client_id = replicate 14 CHR ''x'', m_mqtt = mMQTTContext_init,
     m_id_device = 255, m_mac = replicate 6 0, m_drv = [], m_slots = [\<lparr>interrupt_num = 0, hwiHandle = 0\<rparr>],
     m_isr = isr_reset, m_timer = None, m_threads = []\<rparr>"

theorem start_runs_acquisition_witness:
  "\<exists>d. run (acq_block main_env_example (after_start main_env_example main_state_example)) (map (\<lambda>n. [word_of_nat n]) [0..<40])
        (world_of (\<lambda>_. armed UDMA_MODE_STOP 0 0 0) (replicate 30 []) (after_start main_env_example main_state_example)) = Some d
     \<and> dws_semaphore (isr d) = 40"
proof -
  have "m_isr main_state_example = isr_reset" "length (replicate 30 [] :: u16 list list) = 30" "me_hwi main_env_example \<noteq> None"
    by (simp_all add: main_state_example_def main_env_example_def)
  from start_runs_acquisition [OF this(1,2), of main_env_example "\<lambda>n. [word_of_nat n]" 40] this(3) show ?thesis by blast
qed

section \<open>From the start to the identification\<close>

text \<open>
  (C24) The network phase, when everything it depends on cooperates: the association, the allocations, the connection and the access
  to the network succeed, the flag of the connection is set, and five bytes behind the arrays of \<open>mqtt_publish\<close> are
  unused. In the pauses between the requests the command handler receives messages, among which the first that answers with the MAC
  address of this device gives it a number; all others are for other devices, come from other senders or are other
  commands. Then the phase ends: the module is connected with the command topic as its only subscription, the device has
  the number that was sent to its address, and the only publications so far are the requests, one for each pause.
\<close>

theorem network_phase_identifies:
  assumes "m_mqtt w = mMQTTContext_init" "5 \<le> slack"
    and "wifi_init (me_wifi e) (me_mac e) (m_client_id w) (m_wifi w) = Some (s1, client, r1)"
    and "wifi_connect (me_wifi e) s1 = Some (s2, r2)" "sl (me_wifi e) C_NetCfgGet s2 = Some (s3, r3)"
    and "me_init e = (True, 0, mq, 0)" "0 < mq" "me_sub e = (Some a, True, sub_ret)"
    and "me_con e = (Some cl, 0, 0, True # rest)" "length (me_mac e) = 6"
    and "me_polls e = ps @ (pr, ms @ [resp_id_message 0 CMD sz CMD_RESP_ID
          \<lparr>rsp_mac_addr = me_mac e, cmd_resp_id = dev\<rparr> @ final]) # later"
    and "\<forall>p \<in> set ps. \<forall>m \<in> set (snd p). other_message (me_mac e) m" "\<forall>m \<in> set ms. other_message (me_mac e) m" "dev \<noteq> 255"
  shows "\<exists>w'. main_network slack e w = Some w' \<and> m_id_device w' = dev \<and> m_wifi w' = s3 \<and> m_client_id w' = client
    \<and> if_ok (m_mqtt w') [a] \<and> moduleState (m_mqtt w') = MQTT_STATE_CONNECTED
    \<and> nodes (m_mqtt w') = [a \<mapsto> \<lparr>n_topic = topic_1, n_qos = 0, topicCB = 0, n_next = None\<rparr>]
    \<and> pub_calls (m_mqtt w') = replicate (Suc (length ps))
        (''CC32xx/cmd/d2s/255'', take ready_cmd_len (enc_msg_cmd (ready_message (me_mac e) (me_junk e))))"
proof -
  let ?n = "\<lparr>n_topic = topic_1, n_qos = 0, topicCB = 0, n_next = None\<rparr>"
  obtain q1 where q1: "mqtt_init True 0 mq 0 mMQTTContext_init = Some (q1, 0)"
    "q1 = mMQTTContext_init\<lparr>moduleMutex := True, locked := False, moduleState := MQTT_STATE_INITIALIZED\<rparr>"
    using assms(7) by (simp add: mqtt_init_def MQTT_IF_Init_def lock_def unlock_def mMQTTContext_init_def)
  obtain q2 where q2: "mqtt_subscribe (Some a) True sub_ret q1 = Some (q2, 0)"
    "q2 = q1\<lparr>nodes := [a \<mapsto> ?n], head := Some a\<rparr>"
    using q1(2) by (simp add: mqtt_subscribe_def MQTT_IF_Subscribe_def lock_def unlock_def mMQTTContext_init_def)
  obtain q3 where q3: "mqtt_connect (Some cl) 0 0 (True # rest) q2 = Some (q3, 0)"
    "q3 = q2\<lparr>eventCB := True, mqttClient := Some cl, moduleState := MQTT_STATE_CONNECTED\<rparr>"
    using q1(2) q2(2) by (simp add: mqtt_connect_def MQTT_IF_Connect_def lock_def unlock_def mMQTTContext_init_def)
  have ok: "if_ok q3 [a]" "moduleState q3 = MQTT_STATE_CONNECTED"
    using q1(2) q2(2) q3(2) by (simp_all add: if_ok_def mMQTTContext_init_def)
  have "\<forall>p \<in> set ps. run (cmd_zero (me_mac e)) (snd p) 255 = Some 255" using assms(12) other_messages_kept by blast
  note ask = ask_loop_polls [OF ok assms(2) this number_received [OF assms(13,10)] assms(14),
      of "enc_msg_cmd (ready_message (me_mac e) (me_junk e))" pr sz final later 0]
  show ?thesis
    using assms(1,3-6,8,9,11) q1(1) q2(1) q3(1) ask ok q1(2) q2(2) q3(2)
    by (simp add: main_network_def ask_for_id_def if_ok_def mMQTTContext_init_def)
qed

lemma example_sl:
  "c \<noteq> C_sleep \<Longrightarrow> sl (me_wifi main_env_example) c s = Some (s\<lparr>calls := c # calls s\<rparr>, 0)"
  by (cases c) (simp_all add: sl_def main_env_example_def wifi_env_example_def)

lemma example_sleeps:
  assumes "arrays_are 33 6 s"
  shows "\<exists>t. wait_associated (me_wifi main_env_example) s = Some t"
proof -
  have fits: "fitting 33 6 (me_wifi main_env_example)"
    by (auto simp: fitting_def main_env_example_def event_fits_def split: list.splits wifi_call.splits)
  have "link_up (link_at (me_wifi main_env_example) (calls s) (link_of (g_ulStatus s)) (Suc 0))"
    by (simp add: main_env_example_def link_up_def link_of_def)
  then show ?thesis using wait_associated_first [OF fits assms, of 0] by auto
qed

lemma example_network:
  "\<exists>s1 client r1 s2 r2 s3 r3.
     wifi_init (me_wifi main_env_example) (me_mac main_env_example) (m_client_id main_state_example)
       (m_wifi main_state_example) = Some (s1, client, r1)
     \<and> wifi_connect (me_wifi main_env_example) s1 = Some (s2, r2)
     \<and> sl (me_wifi main_env_example) C_NetCfgGet s2 = Some (s3, r3)"
proof -
  have "SetClientIdNamefromMacAddress [1, 2, 3, 4, 5, 6] (replicate 14 CHR ''x'') \<noteq> None"
    by (simp add: SetClientIdNamefromMacAddress_def SIZE_MAC_ADDR_def upt_conv_Cons)
  then obtain client where client:
    "SetClientIdNamefromMacAddress (me_mac main_env_example) (m_client_id main_state_example) = Some client"
    by (auto simp: main_env_example_def main_state_example_def)
  have roles: "ROLE_STA (me_wifi main_env_example) = 0" "ROLE_AP (me_wifi main_env_example) = 2"
    by (simp_all add: main_env_example_def wifi_env_example_def)
  obtain s1 where s1: "wifi_init (me_wifi main_env_example) (me_mac main_env_example) (m_client_id main_state_example)
       (m_wifi main_state_example) = Some (s1, client, 0)" "arrays_are 33 6 s1" "g_ulStatus s1 = 0"
    by (simp add: wifi_init_def Network_IF_DeInitDriver_def Network_IF_DisconnectFromAP_def Network_IF_InitDriver_def
        Network_IF_ResetMCUStateMachine_def InitializeAppVariables_def example_sl client roles arrays_are_def)
      (simp add: main_state_example_def wifi_example_def)
  define s3 where "s3 = s1\<lparr>g_usConnectIndex := 0,
    g_ulStatus := CLR_STATUS_BIT (CLR_STATUS_BIT 0 STATUS_BIT_CONNECTION) STATUS_BIT_IP_ACQUIRED,
    calls := C_WlanConnect SSID_NAME # C_WlanSet # C_ProfileDel # calls s1, led := True\<rparr>"
  have "arrays_are 33 6 s3" using s1(2) by (simp add: s3_def arrays_are_def)
  from example_sleeps [OF this] obtain t where t: "wait_associated (me_wifi main_env_example) s3 = Some t" ..
  have "\<exists>s2 r2. wifi_connect (me_wifi main_env_example) s1 = Some (s2, r2)"
    using t s1(3) by (simp add: wifi_connect_def Network_IF_ConnectAP_def Network_IF_DisconnectFromAP_def
        Network_IF_IpConfigGet_def example_sl Let_def s3_def)
  then show ?thesis using s1(1) example_sl by blast
qed

theorem network_phase_identifies_witness:
  "\<exists>w'. main_network 5 main_env_example main_state_example = Some w' \<and> m_id_device w' = 9
     \<and> length (pub_calls (m_mqtt w')) = 2 \<and> moduleState (m_mqtt w') = MQTT_STATE_CONNECTED"
proof -
  obtain s1 client r1 s2 r2 s3 r3 where n:
    "wifi_init (me_wifi main_env_example) (me_mac main_env_example) (m_client_id main_state_example)
       (m_wifi main_state_example) = Some (s1, client, r1)"
    "wifi_connect (me_wifi main_env_example) s1 = Some (s2, r2)"
    "sl (me_wifi main_env_example) C_NetCfgGet s2 = Some (s3, r3)"
    using example_network by blast
  have ex: "m_mqtt main_state_example = mMQTTContext_init" "me_init main_env_example = (True, 0, 1, 0)"
    "me_sub main_env_example = (Some 8, True, 0)" "me_con main_env_example = (Some 1, 0, 0, True # [])"
    "length (me_mac main_env_example) = 6"
    "me_polls main_env_example = [(0, [])] @ (0, [] @ [resp_id_message 0 CMD 14 CMD_RESP_ID
      \<lparr>rsp_mac_addr = me_mac main_env_example, cmd_resp_id = 9\<rparr> @ [0]]) # []"
    by (simp_all add: main_env_example_def main_state_example_def number_example_def)
  have "\<exists>w'. main_network 5 main_env_example main_state_example = Some w' \<and> m_id_device w' = 9 \<and> m_wifi w' = s3
    \<and> m_client_id w' = client
    \<and> if_ok (m_mqtt w') [8] \<and> moduleState (m_mqtt w') = MQTT_STATE_CONNECTED
    \<and> nodes (m_mqtt w') = [8 \<mapsto> \<lparr>n_topic = topic_1, n_qos = 0, topicCB = 0, n_next = None\<rparr>]
    \<and> pub_calls (m_mqtt w') = replicate (Suc (length [(0 :: int, [] :: u8 list list)]))
        (''CC32xx/cmd/d2s/255'', take ready_cmd_len (enc_msg_cmd
          (ready_message (me_mac main_env_example) (me_junk main_env_example))))"
    by (rule network_phase_identifies [OF ex(1) _ n ex(2) _ ex(3-6)]) simp_all
  then show ?thesis by auto
qed

end
