(* ===== verification/Pipeline.thy ===== *)
theory Pipeline
  imports Main_Thread
begin

text \<open>
  The way of a sample: from the ADC blocks that the controller writes into the ring (\<open>Dma_Ring\<close>), through the iterations
  of the downsampling thread (\<open>Downsampling\<close>), to the bytes that the data thread publishes (\<open>Mqtt_App\<close>).
\<close>

section \<open>Buffers in memory\<close>

text \<open>The buffers are one array in memory; a block of it is downsampled as if it stood alone.\<close>

lemma pair_bytes_take: "16 \<le> m \<Longrightarrow> pair_bytes (take m xs) = pair_bytes xs"
  by (simp add: pair_bytes_def drop_take)

lemma concat_block:
  assumes "\<And>x. x \<in> set xss \<Longrightarrow> length x = n" "i < length xss"
  shows "take n (drop (i * n) (concat xss)) = xss ! i"
  using assms
proof (induction xss arbitrary: i)
  case (Cons x xss)
  then show ?case by (cases i) auto
qed simp

lemma downsample_block:
  assumes "take 800 (drop base mem) = xs"
  shows "downsample mem base 50 = downsample xs 0 50"
proof -
  have "pair_bytes (drop (base + i * 16) mem) = pair_bytes (drop (i * 16) xs)" if "i < 50" for i
  proof -
    have "drop (i * 16) xs = take (800 - i * 16) (drop (base + i * 16) mem)"
      by (simp add: assms [symmetric] drop_take add.commute)
    moreover have "16 \<le> 800 - i * 16" using that by simp
    ultimately show ?thesis by (simp add: pair_bytes_take)
  qed
  then show ?thesis
    unfolding downsample_def by (intro arg_cong [where f = concat] map_cong) simp_all
qed

lemma filled_buffers_blocks:
  assumes "\<And>b. b \<in> set bufs \<Longrightarrow> length b = N" "\<And>n. length (blk n) = N"
  shows "b \<in> set (filled_buffers blk bufs n) \<Longrightarrow> length b = N"
proof (induction n arbitrary: b)
  case (Suc n)
  then show ?case using assms(2) set_update_subset_insert [of "filled_buffers blk bufs n" "fill n" "blk n"] by auto
qed (use assms(1) in simp)

section \<open>What an iteration reads\<close>

text \<open>
  The environments of the iterations: iteration \<open>j\<close> runs after more than \<open>j\<close> blocks and before block \<open>j + 28\<close> is
  complete, and finds the buffers of the controller in its memory.
\<close>

definition fed_by ::
    "u32 \<Rightarrow> (nat \<Rightarrow> u16 list) \<Rightarrow> dma_table \<Rightarrow> u16 list list \<Rightarrow> dws_env list \<Rightarrow> bool" where
  "fed_by ch blk t bufs es \<longleftrightarrow>
     (\<forall>j < length es. \<exists>n w. j < n \<and> n \<le> j + 28 \<and> n < 65535
        \<and> run (dma_block ch) (map blk [0..<n]) (dma_start ch isr_reset t bufs) = Some w
        \<and> dma_mem (es ! j) = concat (buffers w))"

text \<open>Thirty buffers, and blocks, of 800 samples.\<close>

definition blocks_of_800 :: "(nat \<Rightarrow> u16 list) \<Rightarrow> u16 list list \<Rightarrow> bool" where
  "blocks_of_800 blk bufs \<longleftrightarrow> length bufs = 30 \<and> (\<forall>b \<in> set bufs. length b = 800) \<and> (\<forall>n. length (blk n) = 800)"

lemma world_buffers:
  assumes "blocks_of_800 blk bufs"
    and "run (dma_block ch) (map blk [0..<n]) (dma_start ch isr_reset t bufs) = Some w"
  shows "length (buffers w) = 30" "\<And>b. b \<in> set (buffers w) \<Longrightarrow> length b = 800"
proof -
  have b: "length bufs = 30" using assms(1) by (simp add: blocks_of_800_def)
  have w: "buffers w = filled_buffers blk bufs n"
    using dma_run_after [OF b, of ch blk n t] assms(2) by (auto simp: dma_after_def)
  show "length (buffers w) = 30" using b by (simp add: w)
  show "\<And>b. b \<in> set (buffers w) \<Longrightarrow> length b = 800"
    using filled_buffers_blocks [of bufs 800 blk] assms(1) by (auto simp: w blocks_of_800_def)
qed

lemma fed_env_ok:
  assumes "blocks_of_800 blk bufs" "fed_by ch blk t bufs es"
  shows "list_all dws_env_ok es"
  unfolding list_all_length
proof (intro allI impI)
  fix j assume "j < length es"
  then obtain n w where w: "run (dma_block ch) (map blk [0..<n]) (dma_start ch isr_reset t bufs) = Some w"
    "dma_mem (es ! j) = concat (buffers w)"
    using assms(2) by (auto simp: fed_by_def)
  show "dws_env_ok (es ! j)"
    using world_buffers [OF assms(1) w(1)] length_concat_uniform [of "buffers w" 800]
    by (simp add: dws_env_ok_def w(2) DMA_NUM_BUFFERS_def DMA_BUFF_SIZE_def)
qed

lemma fed_block:
  assumes "blocks_of_800 blk bufs" "fed_by ch blk t bufs es" "j < length es" "3 \<le> j"
  shows "downsample (dma_mem (es ! j)) ((j mod 30) * 800) 50 = downsample (blk (j - 1)) 0 50"
proof -
  have b: "length bufs = 30" "length (blk (j - 1)) = 800" using assms(1) by (simp_all add: blocks_of_800_def)
  obtain n w where w: "j < n" "n \<le> j + 28" "n < 65535"
    "run (dma_block ch) (map blk [0..<n]) (dma_start ch isr_reset t bufs) = Some w"
    "dma_mem (es ! j) = concat (buffers w)"
    using assms(2,3) by (auto simp: fed_by_def)
  have "buffers w ! (j mod 30) = blk (j - 1)"
    using reader_block [OF b(1) assms(4) _ w(2,3), of ch blk t] w(1,4) by auto
  moreover have "take 800 (drop ((j mod 30) * 800) (concat (buffers w))) = buffers w ! (j mod 30)"
    by (rule concat_block) (use world_buffers [OF assms(1) w(4)] in auto)
  ultimately show ?thesis
    using downsample_block [of "(j mod 30) * 800" "dma_mem (es ! j)" "blk (j - 1)"] w(5) by simp
qed

section \<open>What is published\<close>

text \<open>
  From the ADC to the broker: when the data thread publishes message \<open>k\<close> while the downsampling thread is at most
  nine messages further, the payload carries the identifier \<open>k\<close> and, in each of its 78 buffers, the number \<open>78 k + i\<close> of
  the buffer with the packed averages of the ADC block \<open>78 k + i - 1\<close>: no block is lost, repeated or mixed with
  another, and every number is one ahead of its block.
\<close>

theorem adc_block_to_payload:
  assumes "blocks_of_800 blk bufs" "fed_by ch blk t bufs es"
    and "length msgs = N_MSG_DATA" "list_all msg_data_ok msgs"
    and "run (dws_body dws_arg_thread) es (dws_init msgs st0) = Some d"
    and "1 \<le> k" "78 * (k + 1) \<le> length es" "length es \<le> 78 * k + 780"
    and "if_ok s as" "moduleState s = MQTT_STATE_CONNECTED" "5 \<le> slack"
    and "se_messages e = msg_data d" "\<exists>x \<in> set (se_polls e). x \<noteq> 0"
    and "st = \<lparr>send_n_msg_data = k mod N_MSG_DATA, msg_data_id = word_of_nat k, watchdog_clears = w\<rparr>"
  shows "\<exists>st' m. send_data_body slack e (st, s) = Some (st', s\<lparr>pub_calls := pub_calls s
        @ [(publish_topic TYPE_DATA (se_dev e), enc_msg_data m)]\<rparr>)
    \<and> data_id (data_h m) = word_of_nat k
    \<and> (\<forall>i < 78. data_p m ! i = \<lparr>buffer_id = word_of_nat (78 * k + i), buf_p = downsample (blk (78 * k + i - 1)) 0 50\<rparr>)"
proof -
  obtain d' where d': "run (dws_body dws_arg_thread) es (dws_init msgs st0) = Some d'"
    "dws_pos (length es) d'" "dws_history es d'"
    using dws_run_state [OF fed_env_ok [OF assms(1,2)] assms(3,4)] by blast
  then have d: "dws_pos (length es) d" "dws_history es d" using assms(5) by simp_all
  let ?m = "stamp_message (se_dev e) (word_of_nat k) (msg_data d ! (k mod N_MSG_DATA))"
  have "data_p ?m ! i = \<lparr>buffer_id = word_of_nat (78 * k + i), buf_p = downsample (blk (78 * k + i - 1)) 0 50\<rparr>"
    if "i < 78" for i
  proof -
    let ?j = "78 * k + i"
    have j: "?j < length es" "length es \<le> ?j + 780" "3 \<le> ?j" "?j div 78 = k" "?j mod 78 = i"
      using assms(6-8) that by simp_all
    then have "slot d ?j = \<lparr>buffer_id = word_of_nat ?j, buf_p = block_of ?j (es ! ?j)\<rparr>"
      using d(2) unfolding dws_history_def by blast
    moreover have "block_of ?j (es ! ?j) = downsample (blk (?j - 1)) 0 50"
      unfolding block_of_def by (rule fed_block [OF assms(1,2) j(1,3)])
    moreover have "slot d ?j = data_p (msg_data d ! (k mod 10)) ! i"
      by (simp only: slot_def j(4,5))
    ultimately show ?thesis by (simp add: N_MSG_DATA_def stamp_message_def)
  qed
  moreover have "send_env_ok e"
    using assms(12,13) d(1) by (simp add: send_env_ok_def dws_pos_def)
  from send_data_step [OF assms(9-11) this assms(14)] assms(12)
  have "\<exists>st'. send_data_body slack e (st, s) = Some (st', s\<lparr>pub_calls := pub_calls s
        @ [(publish_topic TYPE_DATA (se_dev e), enc_msg_data ?m)]\<rparr>)"
    by (simp add: published_stamp)
  moreover have "data_id (data_h ?m) = word_of_nat k" by (simp add: stamp_message_def)
  ultimately show ?thesis by blast
qed

definition adc_example :: "nat \<Rightarrow> u16 list" where
  "adc_example n = replicate 800 (word_of_nat n)"

definition world_example :: "nat \<Rightarrow> dma_world" where
  "world_example n = the (run (dma_block 16) (map adc_example [0..<n])
     (dma_start 16 isr_reset (\<lambda>_. armed UDMA_MODE_STOP 0 0 0) (replicate 30 (replicate 800 0))))"

definition envs_example :: "dws_env list" where
  "envs_example = map (\<lambda>j. dws_env_flat\<lparr>dma_mem := concat (buffers (world_example (Suc j)))\<rparr>) [0..<156]"

lemma envs_example_fed:
  "fed_by 16 adc_example (\<lambda>_. armed UDMA_MODE_STOP 0 0 0) (replicate 30 (replicate 800 0)) envs_example"
  unfolding fed_by_def
proof (intro allI impI)
  fix j assume j: "j < length envs_example"
  have "run (dma_block 16) (map adc_example [0..<Suc j])
      (dma_start 16 isr_reset (\<lambda>_. armed UDMA_MODE_STOP 0 0 0) (replicate 30 (replicate 800 0)))
      = Some (world_example (Suc j))"
    using dma_run_after [of "replicate 30 (replicate 800 0)" 16 adc_example "Suc j"
        "\<lambda>_. armed UDMA_MODE_STOP 0 0 0"] unfolding world_example_def by auto
  then show "\<exists>n w. j < n \<and> n \<le> j + 28 \<and> n < 65535
      \<and> run (dma_block 16) (map adc_example [0..<n]) (dma_start 16 isr_reset
           (\<lambda>_. armed UDMA_MODE_STOP 0 0 0) (replicate 30 (replicate 800 0))) = Some w
      \<and> dma_mem (envs_example ! j) = concat (buffers w)"
    using j by (intro exI [of _ "Suc j"] exI [of _ "world_example (Suc j)"])
      (simp add: envs_example_def del: upt_Suc)
qed

theorem adc_block_to_payload_witness:
  "\<exists>d st' m. run (dws_body dws_arg_thread) envs_example (dws_init (replicate 10 msg_data_zero) 0) = Some d
    \<and> send_data_body 5 \<lparr>se_messages = msg_data d, se_dev = 3, se_polls = [0, 2], se_publish_ret = 0\<rparr>
        (\<lparr>send_n_msg_data = 1, msg_data_id = 1, watchdog_clears = 1\<rparr>, two_topics)
      = Some (st', two_topics\<lparr>pub_calls := [(publish_topic TYPE_DATA 3, enc_msg_data m)]\<rparr>)
    \<and> data_id (data_h m) = 1
    \<and> data_p m ! 0 = \<lparr>buffer_id = 78, buf_p = downsample (replicate 800 77) 0 50\<rparr>"
proof -
  let ?blk = adc_example and ?bufs = "replicate 30 (replicate 800 0) :: u16 list list"
  have b: "blocks_of_800 ?blk ?bufs" by (simp add: blocks_of_800_def adc_example_def)
  obtain d where d: "run (dws_body dws_arg_thread) envs_example (dws_init (replicate 10 msg_data_zero) 0) = Some d"
    using dws_run_state [OF fed_env_ok [OF b envs_example_fed] msgs_zero_ok(2,1), of 0] by blast
  let ?e = "\<lparr>se_messages = msg_data d, se_dev = 3, se_polls = [0, 2], se_publish_ret = 0\<rparr>"
  let ?st = "\<lparr>send_n_msg_data = 1, msg_data_id = 1, watchdog_clears = 1\<rparr>"
  have l: "78 * (1 + 1) \<le> length envs_example" "length envs_example \<le> 78 * 1 + 780"
    by (simp_all add: envs_example_def)
  have e: "se_messages ?e = msg_data d" "\<exists>x \<in> set (se_polls ?e). x \<noteq> 0"
    "?st = \<lparr>send_n_msg_data = 1 mod N_MSG_DATA, msg_data_id = word_of_nat 1, watchdog_clears = 1\<rparr>"
    by (simp_all add: N_MSG_DATA_def)
  obtain st' m where m: "send_data_body 5 ?e (?st, two_topics) = Some (st', two_topics\<lparr>pub_calls :=
        pub_calls two_topics @ [(publish_topic TYPE_DATA (se_dev ?e), enc_msg_data m)]\<rparr>)"
      "data_id (data_h m) = word_of_nat 1"
      "\<forall>i < 78. data_p m ! i = \<lparr>buffer_id = word_of_nat (78 * 1 + i), buf_p = downsample (?blk (78 * 1 + i - 1)) 0 50\<rparr>"
    using adc_block_to_payload [OF b envs_example_fed msgs_zero_ok(2,1) d order_refl l two_topics_ok order_refl e]
    by blast
  have "pub_calls two_topics = []" by (simp add: two_topics_def mMQTTContext_init_def)
  then show ?thesis
    using d m(1,2) spec [OF m(3), of 0] by (intro exI [of _ d] exI [of _ st'] exI [of _ m]) (simp add: adc_example_def)
qed

end
