(* ===== verification/System.thy ===== *)
theory System
  imports Pipeline
begin

text \<open>
  The running system: the controller with its interrupt routine, the downsampling thread, the data thread, the softtimer
  thread with its timer, the thread that watches the link, and the threads of the MQTT module, interleaved in any order.
  They share the DMA buffers, the ring of messages, the time and its flag, the status that holds the data thread, the
  device number, the MQTT context and the semaphores.

  A step is what a thread does between two places where it can be suspended: the waits for a semaphore, the pauses, and
  for the data thread also the moment between its last look at the status and the publication, where the pause of the
  polling loop still runs. All four threads of the program have the same priority. A semaphore is the number of its
  posts, of which a thread has taken as many as it has made turns. The blocks are those of an acquisition whose interrupt
  handler was created; without it the ping-pong stops after two blocks (\<open>start_runs_acquisition\<close>) and there are no steps
  \<open>Ev_block\<close> to consider.
\<close>

section \<open>State\<close>

text \<open>The data thread waits for the semaphore, polls the status, or is about to publish; the watching thread looks or reconnects.\<close>

datatype snd_pc = Snd_pend | Snd_poll | Snd_send
datatype watch_pc = Watch_look | Watch_lost

record sys =
  y_hw :: dma_world
  y_dws :: dws_state
  y_dws_turns :: nat
  y_snd :: send_state
  y_snd_pc :: snd_pc
  y_snd_turns :: nat
  y_soft :: softtimer_state
  y_soft_turns :: nat
  y_mq :: mqttContext
  y_wifi :: wifi
  y_status :: int
  y_watch :: watch_pc
  y_dev :: u16
  y_mac :: "u8 list"
  y_rtc :: nat

text \<open>\<open>y_rtc\<close> is the real-time clock in nanoseconds since it was set to zero.\<close>

section \<open>The acquisition and the downsampling thread\<close>

definition sys_block :: "u32 \<Rightarrow> u16 list \<Rightarrow> sys \<Rightarrow> sys option" where
  "sys_block ch b s = map_option (\<lambda>w. s\<lparr>y_hw := w\<rparr>) (dma_block ch b (y_hw s))"

definition sys_dws_env :: "sys \<Rightarrow> dws_env" where
  "sys_dws_env s = \<lparr>dma_mem = concat (buffers (y_hw s)), ptr_sntp_time = ntp_time (y_soft s),
     rtc_tv_sec = word_of_nat (y_rtc s div 10 ^ 9), rtc_tv_nsec = word_of_nat (y_rtc s mod 10 ^ 9)\<rparr>"

definition sys_downsample :: "sys \<Rightarrow> sys option" where
  "sys_downsample s =
     map_option (\<lambda>d. s\<lparr>y_dws := d, y_dws_turns := Suc (y_dws_turns s)\<rparr>)
       (dws_body dws_arg_thread (sys_dws_env s) (y_dws s))"

section \<open>The data thread\<close>

text \<open>The header is written into the message in the ring; the message is read again when it is published.\<close>

definition snd_wake :: "u16 \<Rightarrow> send_state \<Rightarrow> msg_data_t list \<Rightarrow> msg_data_t list option" where
  "snd_wake dev st msgs =
     do { m \<leftarrow> rd msgs (send_n_msg_data st);
          wr msgs (send_n_msg_data st) (stamp_message dev (msg_data_id st) m) }"

definition snd_poll :: "int \<Rightarrow> snd_pc" where
  "snd_poll status = (if status = stop then Snd_poll else Snd_send)"

definition snd_publish ::
    "nat \<Rightarrow> u16 \<Rightarrow> int \<Rightarrow> msg_data_t list \<Rightarrow> send_state \<times> mqttContext \<Rightarrow> (send_state \<times> mqttContext) option" where
  "snd_publish slack dev publish_ret msgs x =
     (case x of (st, q) \<Rightarrow>
       do { m \<leftarrow> rd msgs (send_n_msg_data st);
            (q', ret) \<leftarrow> mqtt_publish slack dev publish_ret TYPE_DATA (enc_msg_data m) q;
            Some (\<lparr>send_n_msg_data = (send_n_msg_data st + 1) mod N_MSG_DATA, msg_data_id = msg_data_id st + 1,
                   watchdog_clears = watchdog_clears st + (if ret < 0 then 0 else 1)\<rparr>, q') })"

definition sys_wake :: "sys \<Rightarrow> sys option" where
  "sys_wake s =
     map_option (\<lambda>ms. s\<lparr>y_dws := (y_dws s)\<lparr>msg_data := ms\<rparr>, y_snd_pc := Snd_poll, y_snd_turns := Suc (y_snd_turns s)\<rparr>)
       (snd_wake (y_dev s) (y_snd s) (msg_data (y_dws s)))"

definition sys_poll :: "sys \<Rightarrow> sys" where
  "sys_poll s = s\<lparr>y_snd_pc := snd_poll (y_status s)\<rparr>"

definition sys_send :: "nat \<Rightarrow> int \<Rightarrow> sys \<Rightarrow> sys option" where
  "sys_send slack ret s =
     map_option (\<lambda>(st, q). s\<lparr>y_snd := st, y_mq := q, y_snd_pc := Snd_pend\<rparr>)
       (snd_publish slack (y_dev s) ret (msg_data (y_dws s)) (y_snd s, y_mq s))"

text \<open>Undisturbed, the three steps are the turn of the data thread.\<close>

lemma send_data_phases:
  assumes "length (se_messages e) = N_MSG_DATA" "send_n_msg_data st < N_MSG_DATA" "\<exists>x \<in> set (se_polls e). x \<noteq> 0"
  shows "Option.bind (snd_wake (se_dev e) st (se_messages e))
      (\<lambda>ms. snd_publish slack (se_dev e) (se_publish_ret e) ms (st, q)) = send_data_body slack e (st, q)"
proof -
  obtain ys where "wait_start (se_polls e) = Some ys" using wait_start_ok [OF assms(3)] ..
  then show ?thesis
    using assms(1,2) by (simp add: snd_wake_def snd_publish_def send_data_body_def)
qed

section \<open>The softtimer thread\<close>

definition sys_tick :: "sys \<Rightarrow> sys" where
  "sys_tick s = s\<lparr>y_soft := softtimer_callback (y_soft s)\<rparr>"

text \<open>A turn uses the shared flag, network state and device number; fetching the time sets the clock to zero.\<close>

definition sys_second :: "nat \<Rightarrow> second \<Rightarrow> sys \<Rightarrow> sys option" where
  "sys_second slack e s =
     map_option (\<lambda>(f, q). s\<lparr>y_soft := f, y_mq := q, y_dws := (y_dws s)\<lparr>status_time_sync := time_sync_status f\<rparr>,
         y_rtc := (if rtc_resets f = rtc_resets (y_soft s) then y_rtc s else 0), y_soft_turns := Suc (y_soft_turns s)\<rparr>)
       (softtimer_body slack (e\<lparr>sec_wifi := y_wifi s, sec_dev := y_dev s\<rparr>)
          ((y_soft s)\<lparr>time_sync_status := status_time_sync (y_dws s)\<rparr>, y_mq s))"

section \<open>The network\<close>

text \<open>
  The watching thread: after its pause it looks; once it has found the link lost, it pauses and associates until the
  link is back. Events of the network also arrive while other threads run.
\<close>

definition sys_look :: "wifi_env \<Rightarrow> sys \<Rightarrow> sys option" where
  "sys_look env s =
     do { (w, r) \<leftarrow> sl env C_usleep (y_wifi s);
          let c = test_wifi_connection w;
          Some (if c = 1 then s\<lparr>y_wifi := w, y_status := start\<rparr>
                else if c = 0 then s\<lparr>y_wifi := w, y_status := stop, y_watch := Watch_lost\<rparr>
                else s\<lparr>y_wifi := w\<rparr>) }"

definition sys_reconnect :: "wifi_env \<Rightarrow> sys \<Rightarrow> sys option" where
  "sys_reconnect env s =
     do { (w1, r1) \<leftarrow> sl env C_usleep (y_wifi s);
          (w2, r2) \<leftarrow> wifi_connect env w1;
          Some (s\<lparr>y_wifi := w2, y_watch := (if test_wifi_connection w2 = 0 then Watch_lost else Watch_look)\<rparr>) }"

definition sys_wifi :: "sl_event \<Rightarrow> sys \<Rightarrow> sys option" where
  "sys_wifi e s = map_option (\<lambda>w. s\<lparr>y_wifi := w\<rparr>) (sl_event_handler e (y_wifi s))"

definition sys_app :: "int list \<Rightarrow> sys \<Rightarrow> sys option" where
  "sys_app rets s =
     do { (q, finished) \<leftarrow> MQTTAppThread rets (y_mq s);
          dev \<leftarrow> dev_after (y_mac s) (drop (length (cb_calls (y_mq s))) (cb_calls q)) (y_dev s);
          Some (s\<lparr>y_mq := q, y_dev := dev\<rparr>) }"

definition sys_client :: "op_codes \<Rightarrow> app_event \<Rightarrow> sys \<Rightarrow> sys option" where
  "sys_client P e s = map_option (\<lambda>q. s\<lparr>y_mq := q\<rparr>) (MQTTClientCallback P e (y_mq s))"

definition sys_context :: "sys \<Rightarrow> sys option" where
  "sys_context s = map_option (\<lambda>q. s\<lparr>y_mq := q\<rparr>) (MQTTContextThread_end (y_mq s))"

section \<open>The system\<close>

datatype sys_event =
  Ev_block "u16 list"
| Ev_downsample
| Ev_wake
| Ev_poll
| Ev_send int
| Ev_tick
| Ev_second second
| Ev_look wifi_env
| Ev_reconnect wifi_env
| Ev_wifi sl_event
| Ev_app "int list"
| Ev_client op_codes app_event
| Ev_context
| Ev_clock nat

text \<open>Whether the thread that makes the step is at its start and need not wait for a semaphore.\<close>

fun sys_enabled :: "sys_event \<Rightarrow> sys \<Rightarrow> bool" where
  "sys_enabled Ev_downsample s = (y_dws_turns s < dws_semaphore (isr (y_hw s)))"
| "sys_enabled Ev_wake s = (y_snd_pc s = Snd_pend \<and> y_snd_turns s < semaphore_mqtt (y_dws s))"
| "sys_enabled Ev_poll s = (y_snd_pc s = Snd_poll)"
| "sys_enabled (Ev_send r) s = (y_snd_pc s = Snd_send)"
| "sys_enabled (Ev_second e) s = (y_soft_turns s < softtimer_semaphore (y_soft s))"
| "sys_enabled (Ev_look env) s = (y_watch s = Watch_look)"
| "sys_enabled (Ev_reconnect env) s = (y_watch s = Watch_lost)"
| "sys_enabled _ s = True"

text \<open>\<open>None\<close>: undefined behaviour, or a call that never returns.\<close>

fun sys_step :: "nat \<Rightarrow> u32 \<Rightarrow> sys_event \<Rightarrow> sys \<Rightarrow> sys option" where
  "sys_step slack ch (Ev_block b) s = sys_block ch b s"
| "sys_step slack ch Ev_downsample s = sys_downsample s"
| "sys_step slack ch Ev_wake s = sys_wake s"
| "sys_step slack ch Ev_poll s = Some (sys_poll s)"
| "sys_step slack ch (Ev_send r) s = sys_send slack r s"
| "sys_step slack ch Ev_tick s = Some (sys_tick s)"
| "sys_step slack ch (Ev_second e) s = sys_second slack e s"
| "sys_step slack ch (Ev_look env) s = sys_look env s"
| "sys_step slack ch (Ev_reconnect env) s = sys_reconnect env s"
| "sys_step slack ch (Ev_wifi e) s = sys_wifi e s"
| "sys_step slack ch (Ev_app rets) s = sys_app rets s"
| "sys_step slack ch (Ev_client P e) s = sys_client P e s"
| "sys_step slack ch Ev_context s = sys_context s"
| "sys_step slack ch (Ev_clock n) s = Some (s\<lparr>y_rtc := y_rtc s + n\<rparr>)"

text \<open>
  The runs from a state, with the sequence of their steps; \<open>ok\<close> restricts what the environment and the scheduler do.
\<close>

inductive sys_run :: "nat \<Rightarrow> u32 \<Rightarrow> (sys_event \<Rightarrow> sys \<Rightarrow> bool) \<Rightarrow> sys \<Rightarrow> sys_event list \<Rightarrow> sys \<Rightarrow> bool"
  for slack ch ok s0 where
  run_nil: "sys_run slack ch ok s0 [] s0"
| run_snoc: "sys_run slack ch ok s0 evs s \<Longrightarrow> ok ev s \<Longrightarrow> sys_enabled ev s \<Longrightarrow> sys_step slack ch ev s = Some s' \<Longrightarrow>
    sys_run slack ch ok s0 (evs @ [ev]) s'"

text \<open>The state in which \<open>mainThread\<close> enters its final loop; the arrays are static and start as zeros.\<close>

definition zero_buffers :: "u16 list list" where
  "zero_buffers = replicate DMA_NUM_BUFFERS (replicate DMA_BUFF_SIZE 0)"

definition sys_boot :: "dma_table \<Rightarrow> main_state \<Rightarrow> sys" where
  "sys_boot t w =
     \<lparr>y_hw = world_of t zero_buffers w, y_dws = dws_init (replicate N_MSG_DATA msg_data_zero) 0, y_dws_turns = 0,
      y_snd = send_init, y_snd_pc = Snd_pend, y_snd_turns = 0, y_soft = softtimer_init 0 0, y_soft_turns = 0,
      y_mq = m_mqtt w, y_wifi = m_wifi w, y_status = stop, y_watch = Watch_look, y_dev = m_id_device w,
      y_mac = m_mac w, y_rtc = 0\<rparr>"

text \<open>The system after the start: the phases of \<open>mainThread\<close> that follow the network, from a state \<open>w\<close>.\<close>

definition sys_started :: "dma_table \<Rightarrow> main_env \<Rightarrow> main_state \<Rightarrow> sys" where
  "sys_started t e w = sys_boot t (main_loop_init (main_threads e (main_acquisition e w)))"

end
