(* ===== verification/System_Inv.thy ===== *)
theory System_Inv
  imports System
begin

text \<open>
  The invariant of the running system: what each step leaves alone, the background of the MQTT module, one lemma of
  preservation for each kind of step, and the runs from the start of the main loop.
\<close>

section \<open>What the steps leave alone\<close>

lemmas sys_defs = sys_block_def sys_downsample_def sys_wake_def sys_poll_def sys_send_def sys_tick_def sys_second_def
  sys_look_def sys_reconnect_def sys_wifi_def sys_app_def sys_client_def sys_context_def

lemma hw_frame:
  "sys_step slack ch ev s = Some s' \<Longrightarrow> (\<And>b. ev \<noteq> Ev_block b) \<Longrightarrow> y_hw s' = y_hw s"
  by (cases ev) (auto simp: sys_defs Let_def split: bind_splits prod.splits)

lemma turns_frame:
  assumes "sys_step slack ch ev s = Some s'"
  shows "y_dws_turns s' = (if ev = Ev_downsample then Suc (y_dws_turns s) else y_dws_turns s)"
    "y_snd_turns s' = (if ev = Ev_wake then Suc (y_snd_turns s) else y_snd_turns s)"
    "y_mac s' = y_mac s"
  using assms by (cases ev; auto simp: sys_defs Let_def split: bind_splits prod.splits)+

lemma snd_frame:
  "sys_step slack ch ev s = Some s' \<Longrightarrow> (\<And>r. ev \<noteq> Ev_send r) \<Longrightarrow> y_snd s' = y_snd s"
  by (cases ev) (auto simp: sys_defs Let_def split: bind_splits prod.splits)

lemma snd_pc_frame:
  "sys_step slack ch ev s = Some s' \<Longrightarrow> (\<And>r. ev \<noteq> Ev_send r) \<Longrightarrow> ev \<noteq> Ev_wake \<Longrightarrow> ev \<noteq> Ev_poll \<Longrightarrow>
   y_snd_pc s' = y_snd_pc s"
  by (cases ev) (auto simp: sys_defs Let_def split: bind_splits prod.splits)

lemma status_frame:
  "sys_step slack ch ev s = Some s' \<Longrightarrow> (\<And>env. ev \<noteq> Ev_look env) \<Longrightarrow> y_status s' = y_status s"
  by (cases ev) (auto simp: sys_defs Let_def split: bind_splits prod.splits)

lemma dws_frame:
  "sys_step slack ch ev s = Some s' \<Longrightarrow> ev \<noteq> Ev_downsample \<Longrightarrow> ev \<noteq> Ev_wake \<Longrightarrow> (\<And>e. ev \<noteq> Ev_second e) \<Longrightarrow>
   y_dws s' = y_dws s"
  by (cases ev) (auto simp: sys_defs Let_def split: bind_splits prod.splits)

lemma soft_frame:
  "sys_step slack ch ev s = Some s' \<Longrightarrow> (\<And>e. ev \<noteq> Ev_second e) \<Longrightarrow>
   y_soft_turns s' = y_soft_turns s \<and> ntp_time (y_soft s') = ntp_time (y_soft s)
   \<and> cnt_softtimer_thread (y_soft s') = cnt_softtimer_thread (y_soft s)"
  by (cases ev) (auto simp: sys_defs softtimer_callback_def Let_def split: bind_splits prod.splits)

section \<open>The MQTT module in the background\<close>

definition mq_live :: "mqttContext \<Rightarrow> bool" where
  "mq_live q \<longleftrightarrow> if_inv q \<and> moduleState q \<noteq> MQTT_STATE_IDLE"

lemma publish_live:
  assumes "mq_live q"
  shows "MQTT_IF_Publish r topic payload q = Some
    (if moduleState q = MQTT_STATE_CONNECTED then (q\<lparr>pub_calls := pub_calls q @ [(topic, payload)]\<rparr>, r) else (q, - 1))"
proof -
  obtain as where as: "if_ok q as" using assms by (auto simp: mq_live_def if_inv_def)
  have "q\<lparr>locked := False\<rparr> = q" using as by (cases q) (simp add: if_ok_def)
  then show ?thesis
    using if_publish_connected [OF as] assms as
    by (auto simp: mq_live_def MQTT_IF_Publish_def lock_def unlock_def if_ok_def)
qed

lemma node_frame:
  "set_next p x s = Some s' \<Longrightarrow> moduleState s' = moduleState s \<and> pub_calls s' = pub_calls s"
  "free_node p s = Some s' \<Longrightarrow> moduleState s' = moduleState s \<and> pub_calls s' = pub_calls s"
  by (auto simp: set_next_def free_node_def)

lemma resub_remove_frame:
  "resub_remove node n prev s = Some (s', x) \<Longrightarrow> moduleState s' = moduleState s \<and> pub_calls s' = pub_calls s"
  by (auto simp: resub_remove_def split: Option.bind_splits if_splits option.splits dest!: node_frame)

lemma resubscribe_frame:
  "resubscribe rets node prev s = Some s' \<Longrightarrow> moduleState s' = moduleState s \<and> pub_calls s' = pub_calls s"
proof (induction rets arbitrary: node prev s)
  case Nil
  then show ?case by (cases node) simp_all
next
  case (Cons r rets)
  show ?case
  proof (cases node)
    case (Some a)
    then obtain n where n: "nodes s a = Some n" using Cons.prems by (auto split: Option.bind_splits)
    show ?thesis
    proof (cases "r < 0")
      case True
      then obtain s1 x s2 where "resub_remove a n prev s = Some (s1, x)" "free_node a s1 = Some s2"
        "resubscribe rets x prev s2 = Some s'"
        using Cons.prems Some n by (auto split: Option.bind_splits prod.splits)
      then show ?thesis using Cons.IH resub_remove_frame node_frame(2) by metis
    next
      case False
      then show ?thesis using Cons.prems Some n Cons.IH [of "n_next n" "Some a" s] by simp
    qed
  qed (use Cons.prems in simp)
qed

lemma app_search_frame:
  "app_search q c s = Some s' \<Longrightarrow> moduleState s' = moduleState s \<and> pub_calls s' = pub_calls s"
  using app_search_keeps by force

lemma call_event_frame:
  "call_event e s = Some s' \<Longrightarrow> moduleState s' = moduleState s \<and> pub_calls s' = pub_calls s"
  by (auto simp: call_event_def split: if_splits)

lemma lock_frame:
  "lock s = Some s' \<Longrightarrow> moduleState s' = moduleState s \<and> pub_calls s' = pub_calls s"
  "unlock s = Some s' \<Longrightarrow> moduleState s' = moduleState s \<and> pub_calls s' = pub_calls s"
  by (auto simp: lock_def unlock_def split: if_splits)

lemma app_handle_frame:
  assumes "app_handle rets q s = Some (s', b)"
  shows "moduleState s' = moduleState s \<and> pub_calls s' = pub_calls s"
proof (cases "q_event q")
  case MQTT_EVENT_RECV
  then obtain s1 s2 where "lock s = Some s1"
    "(case head s1 of None \<Rightarrow> Some s1 | Some a \<Rightarrow> app_search q a s1) = Some s2" "unlock s2 = Some s'"
    using assms by (auto simp: app_handle_def split: Option.bind_splits)
  then show ?thesis
    using lock_frame [of s s1] lock_frame [of s2 s'] app_search_frame [of q _ s1 s2] by (auto split: option.splits)
next
  case MQTT_EVENT_CONNACK
  then obtain s1 s2 s3 where "lock s = Some s1" "resubscribe rets (head s1) None s1 = Some s2"
    "unlock s2 = Some s3" "call_event MQTT_EVENT_CONNACK s3 = Some s'"
    using assms by (auto simp: app_handle_def split: Option.bind_splits)
  then show ?thesis
    using lock_frame(1) [of s s1] lock_frame(2) [of s2 s3] resubscribe_frame [of rets "head s1" None s1 s2]
      call_event_frame [of MQTT_EVENT_CONNACK s3 s'] by simp
next
  case MQTT_EVENT_SERVER_DISCONNECT
  then obtain s1 s2 e where "lock s = Some s1" "unlock (s1\<lparr>clientDisconnectFlag := False\<rparr>) = Some s2"
    "call_event e s2 = Some s'"
    using assms by (auto simp: app_handle_def split: Option.bind_splits)
  then show ?thesis
    using lock_frame [of s s1] lock_frame [of "s1\<lparr>clientDisconnectFlag := False\<rparr>" s2] call_event_frame [of e s2 s'] by simp
qed (use assms in \<open>auto simp: app_handle_def split: Option.bind_splits dest!: call_event_frame\<close>)

lemma app_thread_frame:
  "MQTTAppThread rets s = Some (s', b) \<Longrightarrow> moduleState s' = moduleState s \<and> pub_calls s' = pub_calls s"
  by (auto simp: MQTTAppThread_def split: list.splits dest!: app_handle_frame)

lemma callback_frame:
  "MQTTClientCallback P e s = Some s' \<Longrightarrow> moduleState s' = moduleState s \<and> pub_calls s' = pub_calls s"
  by (cases e) (auto simp: mq_send_def split: if_splits Option.bind_splits)

lemma context_frame:
  "MQTTContextThread_end s = Some s' \<Longrightarrow> moduleState s' = MQTT_STATE_INITIALIZED \<and> pub_calls s' = pub_calls s"
  by (auto simp: MQTTContextThread_end_def lock_def unlock_def split: if_splits)

lemma live_step:
  "if_step q q' \<Longrightarrow> moduleState q' \<noteq> MQTT_STATE_IDLE \<Longrightarrow> mq_live q \<Longrightarrow> mq_live q'"
  by (simp add: mq_live_def if_step_inv)

lemma live_app: "mq_live q \<Longrightarrow> MQTTAppThread rets q = Some (q', b) \<Longrightarrow> mq_live q'"
  using live_step [OF if_move.app_thread] app_thread_frame by (metis mq_live_def)

lemma live_callback: "mq_live q \<Longrightarrow> MQTTClientCallback P e q = Some q' \<Longrightarrow> mq_live q'"
  using live_step [OF if_move.callback] callback_frame by (metis mq_live_def)

lemma live_context: "mq_live q \<Longrightarrow> MQTTContextThread_end q = Some q' \<Longrightarrow> mq_live q'"
  using live_step [OF if_move.context_thread] context_frame by (metis mq_live_def mqtt_state.distinct)

lemma live_pub: "mq_live (q\<lparr>pub_calls := x\<rparr>) = mq_live q"
  by (simp add: mq_live_def if_inv_def if_ok_def)

lemma live_publish: "mq_live q \<Longrightarrow> MQTT_IF_Publish r topic payload q = Some (q', r') \<Longrightarrow> mq_live q'"
  by (auto simp: publish_live live_pub split: if_splits)

lemma mqtt_publish_via:
  "mqtt_publish slack dev r ty payload q = Some (q', ret) \<Longrightarrow>
   (q' = q \<and> ret = 0 \<and> ty \<notin> {TYPE_CMD_DEFAULT_ID, TYPE_DATA_DEFAULT_ID, TYPE_CMD, TYPE_DATA})
   \<or> (\<exists>topic. MQTT_IF_Publish r topic payload q = Some (q', ret))"
  by (auto simp: mqtt_publish_def Let_def split: bind_splits if_splits)

text \<open>A softtimer turn, with the module connected or not.\<close>

lemma live_second:
  assumes "mq_live q" "softtimer_body slack e (f, q) = Some (f', q')"
  shows "mq_live q'"
  using assms live_publish
  by (auto simp: softtimer_body_def send_rssi_def Let_def split: bind_splits if_splits prod.splits
      dest!: mqtt_publish_via)

section \<open>The invariant\<close>

text \<open>The blocks captured in a run.\<close>

fun blocks :: "sys_event list \<Rightarrow> u16 list list" where
  "blocks [] = []"
| "blocks (Ev_block b # evs) = b # blocks evs"
| "blocks (_ # evs) = blocks evs"

lemma blocks_append: "blocks (es @ fs) = blocks es @ blocks fs"
  by (induction es rule: blocks.induct) simp_all

lemma blocks_other: "(\<And>b. ev \<noteq> Ev_block b) \<Longrightarrow> blocks [ev] = []"
  by (cases ev) auto

text \<open>The controller delivers blocks of the size of a buffer.\<close>

fun sized :: "sys_event \<Rightarrow> sys \<Rightarrow> bool" where
  "sized (Ev_block b) s = (length b = DMA_BUFF_SIZE)"
| "sized _ s = True"

text \<open>The publications that the data thread has finished.\<close>

definition sent :: "sys \<Rightarrow> nat" where
  "sent s = (if y_snd_pc s = Snd_pend then y_snd_turns s else y_snd_turns s - 1)"

definition hw_inv :: "u32 \<Rightarrow> u16 list list \<Rightarrow> sys \<Rightarrow> bool" where
  "hw_inv ch bs s \<longleftrightarrow> dma_after ch (\<lambda>n. bs ! n) zero_buffers (length bs) (y_hw s)
     \<and> (\<forall>b \<in> set bs. length b = DMA_BUFF_SIZE)"

definition dws_inv :: "sys \<Rightarrow> bool" where
  "dws_inv s \<longleftrightarrow> dws_pos (y_dws_turns s) (y_dws s) \<and> status_time_sync (y_dws s) \<in> {0, 1}
     \<and> y_dws_turns s \<le> dws_semaphore (isr (y_hw s))"

definition snd_inv :: "sys \<Rightarrow> bool" where
  "snd_inv s \<longleftrightarrow> send_n_msg_data (y_snd s) = sent s mod N_MSG_DATA \<and> msg_data_id (y_snd s) = word_of_nat (sent s)
     \<and> y_snd_turns s \<le> y_dws_turns s div 78
     \<and> (y_snd_pc s \<noteq> Snd_pend \<longrightarrow> 0 < y_snd_turns s
        \<and> data_id (data_h (msg_data (y_dws s) ! (sent s mod N_MSG_DATA))) = word_of_nat (sent s))"

definition soft_inv :: "sys \<Rightarrow> bool" where
  "soft_inv s \<longleftrightarrow> cnt_softtimer_thread (y_soft s) = word_of_nat (y_soft_turns s)"

definition sys_inv :: "u32 \<Rightarrow> u16 list list \<Rightarrow> sys \<Rightarrow> bool" where
  "sys_inv ch bs s \<longleftrightarrow> hw_inv ch bs s \<and> dws_inv s \<and> snd_inv s \<and> soft_inv s \<and> mq_live (y_mq s)"

subsection \<open>The controller\<close>

lemma zero_buffers_length [simp]: "length zero_buffers = 30"
  by (simp add: zero_buffers_def DMA_NUM_BUFFERS_def)

lemma buffers_sized:
  assumes "hw_inv ch bs s"
  shows "length (buffers (y_hw s)) = 30" "b \<in> set (buffers (y_hw s)) \<Longrightarrow> length b = DMA_BUFF_SIZE"
proof -
  have eq: "buffers (y_hw s) = filled_buffers (\<lambda>n. if n < length bs then bs ! n else replicate DMA_BUFF_SIZE 0)
      zero_buffers (length bs)"
    by (rule trans [OF _ filled_buffers_cong [of "length bs" "\<lambda>n. bs ! n"]])
      (use assms in \<open>simp_all add: hw_inv_def dma_after_def\<close>)
  show "length (buffers (y_hw s)) = 30" by (simp add: eq)
  show "length b = DMA_BUFF_SIZE" if "b \<in> set (buffers (y_hw s))"
  proof (rule filled_buffers_blocks)
    show "length b = DMA_BUFF_SIZE" if "b \<in> set zero_buffers" for b :: "u16 list"
      using that by (auto simp: zero_buffers_def)
    show "length (if n < length bs then bs ! n else replicate DMA_BUFF_SIZE 0) = DMA_BUFF_SIZE" for n
      using assms by (simp add: hw_inv_def)
  qed (use that eq in simp)
qed

lemma hw_env_ok: "hw_inv ch bs s \<Longrightarrow> dws_env_ok (sys_dws_env s)"
  using buffers_sized [of ch bs s] length_concat_uniform [of "buffers (y_hw s)" DMA_BUFF_SIZE]
  by (simp add: dws_env_ok_def sys_dws_env_def DMA_NUM_BUFFERS_def)

lemma hw_sem: "hw_inv ch bs s \<Longrightarrow> dws_semaphore (isr (y_hw s)) = length bs"
  by (simp add: hw_inv_def dma_after_def)

lemma hw_block:
  assumes "hw_inv ch bs s" "length b = DMA_BUFF_SIZE"
  shows "\<exists>w. dma_block ch b (y_hw s) = Some w \<and> hw_inv ch (bs @ [b]) (s\<lparr>y_hw := w\<rparr>)"
proof -
  let ?blk = "\<lambda>n. (bs @ [b]) ! n"
  have "filled_buffers ?blk zero_buffers (length bs) = filled_buffers (\<lambda>n. bs ! n) zero_buffers (length bs)"
    by (rule filled_buffers_cong) (simp add: nth_append)
  then have "dma_after ch ?blk zero_buffers (length bs) (y_hw s)"
    using assms(1) by (simp add: hw_inv_def dma_after_def)
  from dma_block_after [OF this] show ?thesis using assms by (auto simp: hw_inv_def)
qed

lemma hw_inv_only: "y_hw s' = y_hw s \<Longrightarrow> hw_inv ch bs s' = hw_inv ch bs s"
  by (simp add: hw_inv_def)

subsection \<open>The ring of messages\<close>

lemma dws_pos_msgs:
  "dws_pos k d \<Longrightarrow> length (msg_data d) = 10" "dws_pos k d \<Longrightarrow> i < 10 \<Longrightarrow> msg_data_ok (msg_data d ! i)"
  by (simp_all add: dws_pos_def msg_consts list_all_length)

lemma dws_pos_status [simp]: "dws_pos k (d\<lparr>status_time_sync := x\<rparr>) = dws_pos k d"
  by (simp add: dws_pos_def)

lemma wake_eq:
  assumes "dws_pos k (y_dws s)" "send_n_msg_data (y_snd s) < 10"
  shows "sys_wake s = Some (s\<lparr>y_dws := (y_dws s)\<lparr>msg_data := (msg_data (y_dws s))[send_n_msg_data (y_snd s) :=
      stamp_message (y_dev s) (msg_data_id (y_snd s)) (msg_data (y_dws s) ! send_n_msg_data (y_snd s))]\<rparr>,
    y_snd_pc := Snd_poll, y_snd_turns := Suc (y_snd_turns s)\<rparr>)"
  using assms dws_pos_msgs(1) [OF assms(1)] by (simp add: sys_wake_def snd_wake_def)

lemma dws_pos_stamp:
  assumes "dws_pos k d" "i < 10"
  shows "dws_pos k (d\<lparr>msg_data := (msg_data d)[i := stamp_message dev n (msg_data d ! i)]\<rparr>)"
  using assms dws_pos_msgs [OF assms(1)]
  by (auto simp: dws_pos_def msg_consts list_all_length nth_list_update)

lemma slot_stamp:
  "slot (d\<lparr>msg_data := (msg_data d)[i := stamp_message dev n (msg_data d ! i)]\<rparr>) j = slot d j"
  by (cases "i < length (msg_data d)") (auto simp: slot_def nth_list_update list_update_beyond stamp_message_header(2))

lemma downsample_eq:
  "hw_inv ch bs s \<Longrightarrow> dws_inv s \<Longrightarrow> sys_downsample s = Some (s\<lparr>y_dws := dws_after (y_dws_turns s) (sys_dws_env s) (y_dws s),
     y_dws_turns := Suc (y_dws_turns s)\<rparr>)"
  using dws_body_eq [of "y_dws_turns s" "y_dws s" "sys_dws_env s"] hw_env_ok
  by (simp add: sys_downsample_def dws_inv_def)

lemma after_status:
  assumes "status_time_sync d \<in> {0, 1}"
  shows "status_time_sync (dws_after k e d) = 0"
proof -
  have "unat (status_time_sync d) < 65536" using assms by auto
  then show ?thesis
    using low16_cleared [of "status_time_sync d"]
    by (simp add: dws_after_def Let_def dws_advance_in_def dws_advance_out_def dws_sync_def)
qed

lemma after_ids:
  "data_id (data_h (msg_data (dws_after k e d) ! i)) = data_id (data_h (msg_data d ! i))"
  by (cases "i = k div 78 mod 10 \<and> i < length (msg_data d)")
    (auto simp: dws_after_msgs filled_def nth_list_update list_update_beyond)

subsection \<open>Preservation, event by event\<close>

lemma inv_block:
  assumes "sys_inv ch bs s" "length b = DMA_BUFF_SIZE"
  shows "\<exists>s'. sys_block ch b s = Some s' \<and> sys_inv ch (bs @ [b]) s'"
proof -
  obtain w where w: "dma_block ch b (y_hw s) = Some w" "hw_inv ch (bs @ [b]) (s\<lparr>y_hw := w\<rparr>)"
    using hw_block [of ch bs s b] assms by (auto simp: sys_inv_def)
  moreover have "length bs \<le> dws_semaphore (isr w)" using hw_sem [OF w(2)] by simp
  moreover have "y_dws_turns s \<le> length bs"
    using assms(1) hw_sem [of ch bs s] by (simp add: sys_inv_def dws_inv_def)
  ultimately show ?thesis
    using assms(1) by (simp add: sys_block_def sys_inv_def dws_inv_def snd_inv_def soft_inv_def sent_def)
qed

lemma inv_downsample:
  assumes "sys_inv ch bs s" "y_dws_turns s < dws_semaphore (isr (y_hw s))"
  shows "\<exists>s'. sys_downsample s = Some s' \<and> sys_inv ch bs s'"
proof -
  have "y_dws_turns s div 78 \<le> Suc (y_dws_turns s) div 78" by (intro div_le_mono) simp
  then show ?thesis
    using assms downsample_eq [of ch bs s] dws_after_pos [of "y_dws_turns s" "y_dws s" "sys_dws_env s"]
      after_status [of "y_dws s" "y_dws_turns s" "sys_dws_env s"]
    by (auto simp: sys_inv_def dws_inv_def snd_inv_def soft_inv_def sent_def hw_inv_def after_ids intro: order_trans)
qed

lemma inv_wake:
  assumes "sys_inv ch bs s" "y_snd_pc s = Snd_pend" "y_snd_turns s < semaphore_mqtt (y_dws s)"
  shows "\<exists>s'. sys_wake s = Some s' \<and> sys_inv ch bs s'"
proof -
  have p: "dws_pos (y_dws_turns s) (y_dws s)" "send_n_msg_data (y_snd s) = y_snd_turns s mod 10"
    "msg_data_id (y_snd s) = word_of_nat (y_snd_turns s)"
    using assms(1,2) by (simp_all add: sys_inv_def dws_inv_def snd_inv_def sent_def N_MSG_DATA_def)
  then have "y_snd_turns s mod 10 < 10" by simp
  note pos = dws_pos_stamp [OF p(1) this] and w = wake_eq [OF p(1)]
  show ?thesis
    using assms pos p dws_pos_msgs(1) [OF p(1)]
    by (simp add: w sys_inv_def dws_inv_def snd_inv_def soft_inv_def sent_def hw_inv_def N_MSG_DATA_def dws_pos_def
        stamp_message_header)
qed

lemma inv_poll:
  assumes "sys_inv ch bs s" "y_snd_pc s = Snd_poll"
  shows "sys_inv ch bs (sys_poll s)"
  using assms
  by (simp add: sys_poll_def snd_poll_def sys_inv_def dws_inv_def snd_inv_def soft_inv_def sent_def hw_inv_def)

text \<open>What a publication does.\<close>

lemma send_eq:
  assumes "sys_inv ch bs s" "5 \<le> slack" "y_snd_pc s = Snd_send"
  shows "sys_send slack ret s = Some (s\<lparr>y_snd := \<lparr>send_n_msg_data = Suc (sent s) mod N_MSG_DATA,
        msg_data_id = word_of_nat (Suc (sent s)), watchdog_clears = watchdog_clears (y_snd s)
          + (if moduleState (y_mq s) = MQTT_STATE_CONNECTED \<and> 0 \<le> ret then 1 else 0)\<rparr>,
      y_mq := (if moduleState (y_mq s) = MQTT_STATE_CONNECTED
        then (y_mq s)\<lparr>pub_calls := pub_calls (y_mq s) @ [(publish_topic TYPE_DATA (y_dev s),
          enc_msg_data (msg_data (y_dws s) ! (sent s mod N_MSG_DATA)))]\<rparr> else y_mq s),
      y_snd_pc := Snd_pend\<rparr>)"
proof -
  have "length (msg_data (y_dws s)) = 10" "mq_live (y_mq s)"
    using assms(1) dws_pos_msgs(1) by (auto simp: sys_inv_def dws_inv_def)
  then show ?thesis
    using assms publish_live [of "y_mq s"]
    by (simp add: sys_send_def snd_publish_def sys_inv_def snd_inv_def publish_topic_of N_MSG_DATA_def mod_Suc_eq
        add.commute not_le split: prod.splits)
qed

lemma inv_send:
  assumes "sys_inv ch bs s" "5 \<le> slack" "y_snd_pc s = Snd_send"
  shows "\<exists>s'. sys_send slack ret s = Some s' \<and> sys_inv ch bs s'"
proof -
  have "Suc (sent s) = y_snd_turns s"
    using assms(1,3) by (simp add: sys_inv_def snd_inv_def sent_def)
  then show ?thesis
    using assms(1,3)
    by (simp add: send_eq [OF assms] sys_inv_def dws_inv_def snd_inv_def soft_inv_def sent_def hw_inv_def live_pub)
qed

text \<open>The same for a publication that finds the bytes it needs.\<close>

lemma inv_sent:
  assumes "sys_inv ch bs s" "y_snd_pc s = Snd_send" "sys_send slack ret s = Some s'"
  shows "sys_inv ch bs s'"
proof -
  obtain m x where m: "rd (msg_data (y_dws s)) (send_n_msg_data (y_snd s)) = Some m"
    "mqtt_publish slack (y_dev s) ret TYPE_DATA (enc_msg_data m) (y_mq s) = Some x"
    using assms(3) by (auto simp: sys_send_def snd_publish_def split: bind_splits)
  have "sys_send (slack + 5) ret s = Some s'"
    using assms(3) m publish_more_spare [OF m(2), of 5] by (simp add: sys_send_def snd_publish_def)
  then show ?thesis using inv_send [OF assms(1) _ assms(2), of "slack + 5" ret] by simp
qed

lemma soft_body_state:
  assumes "softtimer_body slack e (f, q) = Some (f', q')"
  shows "f' = (if sint (cnt_softtimer_thread f) smod 1800 = 0
    then f\<lparr>cnt_softtimer_thread := cnt_softtimer_thread f + 1, ntp_time := fetched e,
           time_sync_status := (time_sync_status f AND NOT 0xFFFFFFFF) OR 1, rtc_resets := rtc_resets f + 1\<rparr>
    else f\<lparr>cnt_softtimer_thread := cnt_softtimer_thread f + 1\<rparr>)"
  using assms by (auto simp: softtimer_body_def softtimer_periods sntp_get_time_def fetched_def Let_def
      split: bind_splits if_splits prod.splits)

lemma synced_flag: "(st :: u64) \<in> {0, 1} \<Longrightarrow> (st AND NOT 0xFFFFFFFF) OR 1 = 1"
  using synced_status [of st] by auto

lemma inv_second:
  assumes "sys_inv ch bs s" "sys_second slack e s = Some s'"
  shows "sys_inv ch bs s'"
proof -
  let ?e = "e\<lparr>sec_wifi := y_wifi s, sec_dev := y_dev s\<rparr>"
    and ?f = "(y_soft s)\<lparr>time_sync_status := status_time_sync (y_dws s)\<rparr>"
  obtain f q where fq: "softtimer_body slack ?e (?f, y_mq s) = Some (f, q)"
    "s' = s\<lparr>y_soft := f, y_mq := q, y_dws := (y_dws s)\<lparr>status_time_sync := time_sync_status f\<rparr>,
         y_rtc := (if rtc_resets f = rtc_resets (y_soft s) then y_rtc s else 0), y_soft_turns := Suc (y_soft_turns s)\<rparr>"
    using assms(2) by (auto simp: sys_second_def)
  have "status_time_sync (y_dws s) \<in> {0, 1}" using assms(1) by (simp add: sys_inv_def dws_inv_def)
  with soft_body_state [OF fq(1)] synced_flag [OF this]
  have "time_sync_status f \<in> {0, 1}" "cnt_softtimer_thread f = cnt_softtimer_thread (y_soft s) + 1"
    by (auto split: if_splits)
  moreover have "mq_live q" using live_second [OF _ fq(1)] assms(1) by (simp add: sys_inv_def)
  ultimately show ?thesis
    using assms(1)
    by (simp add: fq(2) sys_inv_def dws_inv_def snd_inv_def soft_inv_def sent_def hw_inv_def add.commute)
qed

text \<open>The other steps change only the network, the clock, and the counter of the timer.\<close>

lemma inv_other:
  assumes "sys_inv ch bs s" "y_hw s' = y_hw s" "y_dws s' = y_dws s" "y_dws_turns s' = y_dws_turns s"
    "y_snd s' = y_snd s" "y_snd_pc s' = y_snd_pc s" "y_snd_turns s' = y_snd_turns s"
    "cnt_softtimer_thread (y_soft s') = cnt_softtimer_thread (y_soft s)" "y_soft_turns s' = y_soft_turns s"
    "mq_live (y_mq s')"
  shows "sys_inv ch bs s'"
  using assms by (simp add: sys_inv_def dws_inv_def snd_inv_def soft_inv_def sent_def hw_inv_def)

lemma mq_live_step:
  assumes "mq_live (y_mq s)" "sys_step slack ch ev s = Some s'" "\<And>r. ev \<noteq> Ev_send r" "\<And>e. ev \<noteq> Ev_second e"
  shows "mq_live (y_mq s')"
proof (cases ev)
  case (Ev_app rets)
  then obtain q b where "MQTTAppThread rets (y_mq s) = Some (q, b)" "y_mq s' = q"
    using assms(2) by (auto simp: sys_app_def split: bind_splits)
  then show ?thesis using live_app [OF assms(1)] by simp
next
  case (Ev_client P e)
  then obtain q where "MQTTClientCallback P e (y_mq s) = Some q" "y_mq s' = q"
    using assms(2) by (auto simp: sys_client_def)
  then show ?thesis using live_callback [OF assms(1)] by simp
next
  case Ev_context
  then obtain q where "MQTTContextThread_end (y_mq s) = Some q" "y_mq s' = q"
    using assms(2) by (auto simp: sys_context_def)
  then show ?thesis using live_context [OF assms(1)] by simp
qed (use assms in \<open>auto simp: sys_defs Let_def split: bind_splits prod.splits\<close>)

fun acts_on_ring :: "sys_event \<Rightarrow> bool" where
  "acts_on_ring (Ev_block b) = True"
| "acts_on_ring Ev_downsample = True"
| "acts_on_ring Ev_wake = True"
| "acts_on_ring Ev_poll = True"
| "acts_on_ring (Ev_send r) = True"
| "acts_on_ring (Ev_second e) = True"
| "acts_on_ring _ = False"

lemma sys_step_inv:
  assumes inv: "sys_inv ch bs s" and ok: "sized ev s" and en: "sys_enabled ev s"
    and st: "sys_step slack ch ev s = Some s'"
  shows "sys_inv ch (bs @ blocks [ev]) s'"
proof (cases "acts_on_ring ev")
  case True
  then show ?thesis
  proof (cases ev)
    case (Ev_block b)
    then show ?thesis using inv_block [OF inv, of b] ok st by auto
  next
    case Ev_downsample
    then show ?thesis using inv_downsample [OF inv] en st by auto
  next
    case Ev_wake
    then show ?thesis using inv_wake [OF inv] en st by auto
  next
    case Ev_poll
    then show ?thesis using inv_poll [OF inv] en st by auto
  next
    case (Ev_send r)
    then show ?thesis using inv_sent [OF inv, of slack r s'] en st by auto
  next
    case (Ev_second e)
    then show ?thesis using inv_second [OF inv, of slack e] st by auto
  qed simp_all
next
  case False
  then have other: "ev \<noteq> Ev_downsample" "ev \<noteq> Ev_wake" "ev \<noteq> Ev_poll" "\<And>b. ev \<noteq> Ev_block b"
    "\<And>r. ev \<noteq> Ev_send r" "\<And>e. ev \<noteq> Ev_second e"
    by auto
  have "mq_live (y_mq s)" using inv by (simp add: sys_inv_def)
  from mq_live_step [OF this st other(5,6)] have "mq_live (y_mq s')" .
  then have "sys_inv ch bs s'"
    using inv_other [OF inv hw_frame [OF st other(4)] dws_frame [OF st other(1,2,6)]] turns_frame [OF st]
      snd_frame [OF st other(5)] snd_pc_frame [OF st other(5,2,3)] soft_frame [OF st other(6)] other(1,2)
    by simp
  then show ?thesis using blocks_other [OF other(4)] by simp
qed

section \<open>Runs from the start\<close>

lemma started_inv:
  assumes "m_isr w = isr_reset" "mq_live (m_mqtt w)"
  shows "sys_inv (me_channel e) [] (sys_started t e w)"
proof -
  let ?w = "main_loop_init (main_threads e (main_acquisition e w))"
  have mq: "m_mqtt ?w = m_mqtt w"
    by (simp add: main_loop_init_def main_threads_def spawn_def main_acquisition_def Let_def split: prod.splits)
  have "length zero_buffers = 30" by simp
  then have "dma_after (me_channel e) (\<lambda>n. [] ! n) zero_buffers 0 (world_of t zero_buffers ?w)"
    by (simp only: acquisition_world [OF assms(1) refl] dma_start_after)
  moreover have "dws_pos 0 (dws_init (replicate N_MSG_DATA msg_data_zero) 0)"
    using dws_init_pos [of "replicate N_MSG_DATA msg_data_zero" 0] by (simp add: list_all_length)
  ultimately show ?thesis
    using assms(2)
    by (simp add: sys_started_def sys_boot_def sys_inv_def hw_inv_def dws_inv_def snd_inv_def soft_inv_def sent_def
        send_init_def softtimer_init_def mq N_MSG_DATA_def) (simp add: dws_init_def)
qed

text \<open>The state of \<open>mainThread\<close> before its final loop is one of these.\<close>

lemma start_is_started:
  assumes "main_start slack e w = Some w'"
  shows "\<exists>w1. main_network slack e (main_device_init w) = Some w1 \<and> sys_boot t w' = sys_started t e w1
    \<and> m_isr w1 = (m_isr w)\<lparr>dws_semaphore := 0\<rparr>"
proof -
  obtain w1 where w1: "main_network slack e (main_device_init w) = Some w1"
    "w' = main_loop_init (main_threads e (main_acquisition e w1))"
    using assms by (auto simp: main_start_def split: bind_splits)
  then have "m_isr w1 = m_isr (main_device_init w)"
    by (auto simp: main_network_def Let_def split: bind_splits prod.splits)
  then show ?thesis using w1 by (simp add: sys_started_def main_device_init_def)
qed

lemma run_inv_from:
  assumes "sys_run slack ch ok s0 evs s" "sys_inv ch bs s0" "\<And>ev s. ok ev s \<Longrightarrow> sized ev s"
  shows "sys_inv ch (bs @ blocks evs) s"
  using assms(1)
proof induction
  case run_nil
  then show ?case using assms(2) by simp
next
  case (run_snoc evs s ev s')
  then show ?case
    using sys_step_inv [OF run_snoc.IH assms(3)] by (simp add: blocks_append)
qed

lemmas run_inv = run_inv_from [where bs = "[]", simplified]

lemma run_trans:
  assumes "sys_run slack ch ok s1 fs s2" "sys_run slack ch ok s0 es s1"
  shows "sys_run slack ch ok s0 (es @ fs) s2"
  using assms
proof induction
  case (run_snoc fs s ev s')
  then show ?case using sys_run.run_snoc [of slack ch ok s0 "es @ fs" s ev s'] by simp
qed simp

lemma run_one: "ok ev s \<Longrightarrow> sys_enabled ev s \<Longrightarrow> sys_step slack ch ev s = Some s' \<Longrightarrow> sys_run slack ch ok s [ev] s'"
  using run_snoc [OF run_nil, of ok ev s slack ch s'] by simp

section \<open>The watching thread\<close>

text \<open>Undisturbed, a turn of \<open>test_wifi\<close> is a look, followed by reconnections when the link was lost.\<close>

lemma reconnect_phases:
  assumes "reconnect env w = Some w'"
  shows "\<forall>s. y_wifi s = w \<longrightarrow> y_watch s = Watch_lost \<longrightarrow>
    (\<exists>evs. sys_run slack ch (\<lambda>_ _. True) s evs (s\<lparr>y_wifi := w', y_watch := Watch_look\<rparr>))"
proof (rule reconnect.raw_induct [where P = "\<lambda>env w w'. \<forall>s. y_wifi s = w \<longrightarrow> y_watch s = Watch_lost \<longrightarrow>
    (\<exists>evs. sys_run slack ch (\<lambda>_ _. True) s evs (s\<lparr>y_wifi := w', y_watch := Watch_look\<rparr>))", OF _ assms], intro allI impI)
  fix f env w w' and s :: sys
  assume IH: "\<And>env w w'. f env w = Some w' \<Longrightarrow> \<forall>s. y_wifi s = w \<longrightarrow> y_watch s = Watch_lost \<longrightarrow>
      (\<exists>evs. sys_run slack ch (\<lambda>_ _. True) s evs (s\<lparr>y_wifi := w', y_watch := Watch_look\<rparr>))"
    and step: "Option.bind (sl env C_usleep w) (\<lambda>r. Option.bind (wifi_connect env (fst r)) (\<lambda>r2.
       if test_wifi_connection (fst r2) = 0 then f env (fst r2) else Some (fst r2))) = Some w'"
    and s: "y_wifi s = w" "y_watch s = Watch_lost"
  obtain w1 r1 w2 r2 where c: "sl env C_usleep w = Some (w1, r1)" "wifi_connect env w1 = Some (w2, r2)"
    using step by (auto split: bind_splits)
  then have c3: "(if test_wifi_connection w2 = 0 then f env w2 else Some w2) = Some w'" using step by (auto split: if_splits)
  let ?s = "s\<lparr>y_wifi := w2, y_watch := (if test_wifi_connection w2 = 0 then Watch_lost else Watch_look)\<rparr>"
  have one: "sys_run slack ch (\<lambda>_ _. True) s [Ev_reconnect env] ?s"
    by (rule run_one) (use c s in \<open>simp_all add: sys_reconnect_def\<close>)
  show "\<exists>evs. sys_run slack ch (\<lambda>_ _. True) s evs (s\<lparr>y_wifi := w', y_watch := Watch_look\<rparr>)"
  proof (cases "test_wifi_connection w2 = 0")
    case True
    then have "f env w2 = Some w'" using c3 by simp
    from spec [OF IH [OF this], of ?s] True
    obtain evs where "sys_run slack ch (\<lambda>_ _. True) ?s evs (?s\<lparr>y_wifi := w', y_watch := Watch_look\<rparr>)"
      by auto
    from run_trans [OF this one] show ?thesis by (intro exI [of _ "[Ev_reconnect env] @ evs"]) simp
  next
    case False
    then show ?thesis using one c3 by (intro exI [of _ "[Ev_reconnect env]"]) simp
  qed
qed

lemma test_wifi_phases:
  assumes "test_wifi env (y_wifi s, y_status s) = Some (w, st)" "y_watch s = Watch_look"
  shows "\<exists>evs. sys_run slack ch (\<lambda>_ _. True) s evs (s\<lparr>y_wifi := w, y_status := st\<rparr>)"
proof -
  obtain w1 r where w1: "sl env C_usleep (y_wifi s) = Some (w1, r)"
    using assms(1) by (auto simp: test_wifi_def split: bind_splits)
  show ?thesis
  proof (cases "test_wifi_connection w1 = 0")
    case True
    then have r: "reconnect env w1 = Some w" "st = stop" using assms(1) w1 by (auto simp: test_wifi_def Let_def split: bind_splits)
    let ?s = "s\<lparr>y_wifi := w1, y_status := stop, y_watch := Watch_lost\<rparr>"
    have one: "sys_run slack ch (\<lambda>_ _. True) s [Ev_look env] ?s"
      by (rule run_one) (use w1 assms(2) True in \<open>simp_all add: sys_look_def Let_def\<close>)
    obtain evs where "sys_run slack ch (\<lambda>_ _. True) ?s evs (?s\<lparr>y_wifi := w, y_watch := Watch_look\<rparr>)"
      using spec [OF reconnect_phases [OF r(1), of slack ch], of ?s] by auto
    moreover have "?s\<lparr>y_wifi := w, y_watch := Watch_look\<rparr> = s\<lparr>y_wifi := w, y_status := st\<rparr>"
      using r(2) assms(2) by (cases s) simp
    ultimately show ?thesis using run_trans [OF _ one] by metis
  next
    case False
    then have c: "test_wifi_connection w1 = 1" by (simp add: test_wifi_connection_def split: if_splits)
    then have "w = w1" "st = start" using assms(1) w1 by (auto simp: test_wifi_def)
    then have "sys_run slack ch (\<lambda>_ _. True) s [Ev_look env] (s\<lparr>y_wifi := w, y_status := st\<rparr>)"
      by (intro run_one) (use w1 assms(2) c in \<open>simp_all add: sys_look_def Let_def\<close>)
    then show ?thesis by blast
  qed
qed

end
