(* ===== verification/System_Props.thy ===== *)
theory System_Props
  imports System_Inv
begin

text \<open>
  Properties of the running system: its arrays and counters keep their shape in every interleaving, what a publication
  carries whatever the delays, what an outage of the link and the loss of the connection do, and the time stamps.
\<close>

section \<open>Types and progress\<close>

lemma live_rssi:
  assumes "mq_live q" "5 \<le> slack"
  shows "(send_rssi slack dev r st junk q = None) = False"
  using assms publish_live by (simp add: send_rssi_def publish_topic_of)

text \<open>The steps that publish: the data thread's, and a turn of the softtimer thread that reports without the link.\<close>

fun publishing :: "sys_event \<Rightarrow> sys \<Rightarrow> bool" where
  "publishing (Ev_send r) s = True"
| "publishing (Ev_second e) s =
     (sint (cnt_softtimer_thread (y_soft s)) smod SECONDS_TO_SEND_RSSI = 0 \<and> test_wifi_connection (y_wifi s) = 0)"
| "publishing _ s = False"

lemma second_defined:
  assumes "mq_live (y_mq s)" "publishing (Ev_second e) s \<longrightarrow> 5 \<le> slack"
  shows "sys_second slack e s \<noteq> None"
  using assms(2)
  by (auto simp: sys_second_def softtimer_body_def Let_def live_rssi [OF assms(1)] split: bind_splits prod.splits)







section \<open>What a publication carries\<close>

text \<open>The block that iteration \<open>j\<close> of the downsampling thread sees: the first two, an empty buffer, then one block late.\<close>

definition seen :: "(nat \<Rightarrow> u16 list) \<Rightarrow> nat \<Rightarrow> u16 list" where
  "seen blk j = (if j < 2 then blk j else if j = 2 then replicate DMA_BUFF_SIZE 0 else blk (j - 1))"

lemma reader_sees:
  assumes "dma_after ch blk zero_buffers n w" "j < n" "n \<le> j + 28" "n < 65535"
  shows "buffers w ! (j mod 30) = seen blk j"
proof -
  have b: "buffers w = filled_buffers blk zero_buffers n" using assms(1) by (simp add: dma_after_def)
  consider "j < 2" | "j = 2" | "3 \<le> j" by linarith
  then show ?thesis
  proof cases
    case 1
    then have "filled_buffers blk zero_buffers n ! j = blk j"
      using assms(2,3) by (intro filled_buffers_last) (auto simp: fill_def mod_Suc)
    then show ?thesis using 1 b by (simp add: seen_def)
  next
    case 2
    have "filled_buffers blk zero_buffers n ! 2 = filled_buffers blk zero_buffers 0 ! 2"
      using 2 assms(3) by (intro filled_buffers_keep) (auto simp: fill_def mod_Suc)
    then show ?thesis using 2 b by (simp add: seen_def zero_buffers_def DMA_NUM_BUFFERS_def)
  next
    case 3
    have "filled_buffers blk zero_buffers n ! (j mod 30) = blk (j - 1)"
      using 3 assms(2-4) mod_30_neq [of j] by (intro filled_buffers_last) (simp_all add: fill_small)
    then show ?thesis using 3 b by (simp add: seen_def)
  qed
qed

text \<open>After the wrap of the 16-bit counter, up to its second wrap, it sees the block fifteen before.\<close>

lemma reader_sees_wrapped:
  assumes "dma_after ch blk zero_buffers n w" "65550 \<le> j" "j \<le> n" "n \<le> j + 14" "n < 131071"
  shows "buffers w ! (j mod 30) = blk (j - 15)"
  using assms(1) wrapped_buffer [of zero_buffers j n blk] assms(2-5) by (simp add: dma_after_def)

text \<open>
  The blocks captured before iteration \<open>j\<close> of the downsampling thread in a run, and what the iteration finds in its buffer: the
  contents of the ring at this moment, wherever the writer is.
\<close>

fun iterations :: "sys_event list \<Rightarrow> nat" where
  "iterations [] = 0"
| "iterations (Ev_downsample # evs) = Suc (iterations evs)"
| "iterations (_ # evs) = iterations evs"

fun caught :: "sys_event list \<Rightarrow> nat \<Rightarrow> nat" where
  "caught [] j = 0"
| "caught (Ev_block b # evs) j = Suc (caught evs j)"
| "caught (Ev_downsample # evs) j = (case j of 0 \<Rightarrow> 0 | Suc i \<Rightarrow> caught evs i)"
| "caught (_ # evs) j = caught evs j"

definition found :: "sys_event list \<Rightarrow> nat \<Rightarrow> u16 list" where
  "found evs j = filled_buffers (\<lambda>n. blocks evs ! n) zero_buffers (caught evs j) ! (j mod 30)"

lemma iterations_append: "iterations (es @ fs) = iterations es + iterations fs"
  by (induction es rule: iterations.induct) simp_all

lemma caught_append:
  "caught (es @ fs) j =
     (if j < iterations es then caught es j else length (blocks es) + caught fs (j - iterations es))"
  by (induction es j rule: caught.induct) (auto split: nat.splits)

lemma caught_le: "caught evs j \<le> length (blocks evs)"
  by (induction evs j rule: caught.induct) (auto split: nat.splits)

lemma found_append:
  assumes "j < iterations es"
  shows "found (es @ fs) j = found es j"
proof -
  have "filled_buffers (\<lambda>n. blocks (es @ fs) ! n) zero_buffers (caught es j)
      = filled_buffers (\<lambda>n. blocks es ! n) zero_buffers (caught es j)"
    using caught_le [of es j] by (intro filled_buffers_cong) (simp add: blocks_append nth_append)
  then show ?thesis using assms by (simp add: found_def caught_append)
qed

lemma turns_iterations:
  "sys_run slack ch ok s0 evs s \<Longrightarrow> y_dws_turns s = y_dws_turns s0 + iterations evs"
proof (induction rule: sys_run.induct)
  case (run_snoc evs s ev s')
  then show ?case using turns_frame(1) [OF run_snoc.hyps(4)] by (cases ev) (simp_all add: iterations_append)
qed simp

text \<open>What has been found was one of the thirty buffers, after as many blocks as were captured by then.\<close>

lemma found_seen:
  assumes "j < caught evs j"
  shows "caught evs j \<le> j + 28 \<Longrightarrow> caught evs j < 65535 \<Longrightarrow> found evs j = seen (\<lambda>n. blocks evs ! n) j"
    "65550 \<le> j \<Longrightarrow> caught evs j \<le> j + 14 \<Longrightarrow> caught evs j < 131071 \<Longrightarrow> found evs j = blocks evs ! (j - 15)"
proof -
  obtain w where w: "dma_after 0 (\<lambda>n. blocks evs ! n) zero_buffers (caught evs j) w" "buffers w ! (j mod 30) = found evs j"
    using dma_run_after [of zero_buffers 0 "\<lambda>n. blocks evs ! n" "caught evs j" "\<lambda>_. armed UDMA_MODE_STOP 0 0 0"]
    by (auto simp: dma_after_def found_def)
  show "caught evs j \<le> j + 28 \<Longrightarrow> caught evs j < 65535 \<Longrightarrow> found evs j = seen (\<lambda>n. blocks evs ! n) j"
    using reader_sees [OF w(1) assms] w(2) by simp
  show "65550 \<le> j \<Longrightarrow> caught evs j \<le> j + 14 \<Longrightarrow> caught evs j < 131071 \<Longrightarrow> found evs j = blocks evs ! (j - 15)"
    using reader_sees_wrapped [OF w(1)] assms w(2) by simp
qed

text \<open>The ring of messages holds what the last 780 iterations found, whatever the scheduler did.\<close>

definition ring_inv :: "sys_event list \<Rightarrow> sys \<Rightarrow> bool" where
  "ring_inv evs s \<longleftrightarrow> y_dws_turns s = iterations evs \<and> (\<forall>j < y_dws_turns s. j < caught evs j \<and> (y_dws_turns s \<le> j + 780 \<longrightarrow>
     slot (y_dws s) j = \<lparr>buffer_id = word_of_nat j, buf_p = downsample (found evs j) 0 50\<rparr>))"

lemma ring_append:
  "ring_inv evs s \<Longrightarrow> iterations [ev] = 0 \<Longrightarrow> y_dws_turns s' = y_dws_turns s \<Longrightarrow>
   (\<And>j. slot (y_dws s') j = slot (y_dws s) j) \<Longrightarrow> ring_inv (evs @ [ev]) s'"
  by (simp add: ring_inv_def found_append caught_append iterations_append)

lemma ring_downsample:
  assumes "sys_inv ch (blocks evs) s" "ring_inv evs s" "sys_downsample s = Some s'" "y_dws_turns s < length (blocks evs)"
  shows "ring_inv (evs @ [Ev_downsample]) s'"
proof -
  let ?k = "y_dws_turns s" and ?evs = "evs @ [Ev_downsample]"
  have hw: "hw_inv ch (blocks evs) s" and d: "dws_inv s" using assms(1) by (simp_all add: sys_inv_def)
  then have pos: "dws_pos ?k (y_dws s)" by (simp add: dws_inv_def)
  have s': "s' = s\<lparr>y_dws := dws_after ?k (sys_dws_env s) (y_dws s), y_dws_turns := Suc ?k\<rparr>"
    using downsample_eq [OF hw d] assms(3) by simp
  have it: "iterations evs = ?k" using assms(2) by (simp add: ring_inv_def)
  then have c: "caught ?evs ?k = length (blocks evs)" by (simp add: caught_append)
  have "buffers (y_hw s) = filled_buffers (\<lambda>n. blocks evs ! n) zero_buffers (length (blocks evs))"
    using hw by (simp add: hw_inv_def dma_after_def)
  then have "buffers (y_hw s) ! (?k mod 30) = found ?evs ?k" by (simp add: found_def c blocks_append)
  moreover have "take 800 (drop ((?k mod 30) * 800) (concat (buffers (y_hw s)))) = buffers (y_hw s) ! (?k mod 30)"
    using buffers_sized [OF hw] by (intro concat_block) (auto simp: DMA_BUFF_SIZE_def)
  ultimately have block: "block_of ?k (sys_dws_env s) = downsample (found ?evs ?k) 0 50"
    using downsample_block [of "(?k mod 30) * 800" "concat (buffers (y_hw s))" "found ?evs ?k"]
    by (simp add: block_of_def sys_dws_env_def)
  have "j < caught ?evs j \<and> (y_dws_turns s' \<le> j + 780 \<longrightarrow>
      slot (y_dws s') j = \<lparr>buffer_id = word_of_nat j, buf_p = downsample (found ?evs j) 0 50\<rparr>)" if "j < y_dws_turns s'" for j
  proof (cases "j = ?k")
    case True
    then show ?thesis using slot_after_same [OF pos, of "sys_dws_env s"] block c assms(4) by (simp add: s')
  next
    case False
    then have j: "j < ?k" using that by (simp add: s')
    then have "caught ?evs j = caught evs j" "found ?evs j = found evs j" by (simp_all add: caught_append found_append it)
    then show ?thesis
      using slot_after_other [OF pos, of j "sys_dws_env s"] j assms(2) by (simp add: s' ring_inv_def)
  qed
  then show ?thesis by (simp add: ring_inv_def iterations_append it s')
qed

lemma slot_status [simp]: "slot (d\<lparr>status_time_sync := x\<rparr>) j = slot d j"
  by (simp add: slot_def)

lemma ring_step:
  assumes inv: "sys_inv ch (blocks evs) s" and ring: "ring_inv evs s" and en: "sys_enabled ev s"
    and st: "sys_step slack ch ev s = Some s'"
  shows "ring_inv (evs @ [ev]) s'"
proof -
  have hw: "hw_inv ch (blocks evs) s" and pos: "dws_pos (y_dws_turns s) (y_dws s)"
    using inv by (auto simp: sys_inv_def dws_inv_def)
  show ?thesis
  proof (cases "ev = Ev_downsample")
    case True
    then show ?thesis
      using ring_downsample [OF inv ring, of s'] st en by (simp add: hw_sem [OF hw])
  next
    case False
    have "slot (y_dws s') j = slot (y_dws s) j" for j
    proof -
      consider "ev = Ev_wake" | e where "ev = Ev_second e" | "ev \<noteq> Ev_wake" "\<And>e. ev \<noteq> Ev_second e" by blast
      then show ?thesis
      proof cases
        case 1
        have "send_n_msg_data (y_snd s) < 10" using inv by (simp add: sys_inv_def snd_inv_def N_MSG_DATA_def)
        from wake_eq [OF pos this] show ?thesis using st 1 by (auto simp: slot_stamp)
      next
        case 2
        then show ?thesis using st by (auto simp: sys_second_def)
      next
        case 3
        then show ?thesis using dws_frame [OF st False] by simp
      qed
    qed
    moreover have "iterations [ev] = 0" using False by (cases ev) simp_all
    ultimately show ?thesis
      using ring_append [OF ring, of ev s'] turns_frame(1) [OF st] False by simp
  qed
qed

lemma run_ring:
  assumes "sys_run slack ch sized s0 evs s" "sys_inv ch [] s0" "y_dws_turns s0 = 0"
  shows "ring_inv evs s"
  using assms(1)
proof induction
  case run_nil
  then show ?case using assms(3) by (simp add: ring_inv_def)
next
  case (run_snoc evs s ev s')
  have "sys_inv ch (blocks evs) s"
    using run_inv [OF run_snoc.hyps(1) assms(2)] by blast
  from ring_step [OF this run_snoc.IH run_snoc.hyps(3,4)] show ?case .
qed

text \<open>The last of the first \<open>N\<close> iterations that wrote the slot of iteration \<open>j\<close>.\<close>

definition newest :: "nat \<Rightarrow> nat \<Rightarrow> nat" where
  "newest N j = j + 780 * ((N - 1 - j) div 780)"

lemma newest_bounds:
  assumes "j < N"
  shows "newest N j < N" "N \<le> newest N j + 780"
proof -
  have "780 * ((N - 1 - j) div 780) \<le> N - 1 - j" "N - 1 - j < 780 * ((N - 1 - j) div 780) + 780"
    using mult_div_mod_eq [of 780 "N - 1 - j"] mod_less_divisor [of 780 "N - 1 - j"] by linarith+
  then show "newest N j < N" "N \<le> newest N j + 780" using assms by (simp_all add: newest_def)
qed

lemma newest_id: "N \<le> j + 780 \<Longrightarrow> newest N j = j"
  by (simp add: newest_def)

lemma newest_slot: "slot d (newest N j) = slot d j"
proof -
  define q where "q = (N - 1 - j) div 780"
  have "newest N j = j + (10 * q) * 78" by (simp add: newest_def q_def)
  then have "newest N j div 78 = j div 78 + 10 * q" "newest N j mod 78 = j mod 78"
    by (simp_all only: div_mult_self1 mod_mult_self1)
  then show ?thesis by (simp add: slot_def)
qed

text \<open>A message and the tenth after it carry the same buffers, when both were overwritten before they were published.\<close>

lemma overtaken_repeats:
  assumes "78 * (k + 10) + i < N"
  shows "newest N (78 * k + i) = newest N (78 * (k + 10) + i)"
proof -
  define x where "x = N - 1 - (78 * (k + 10) + i)"
  have "N - 1 - (78 * k + i) = x + 780" using assms by (simp add: x_def)
  then have "newest N (78 * k + i) = 78 * k + i + 780 * ((x + 780) div 780)" by (simp only: newest_def)
  also have "\<dots> = 78 * (k + 10) + i + 780 * (x div 780)" by (simp add: div_add_self2)
  finally show ?thesis by (simp only: newest_def x_def)
qed

lemma publish_blocks:
  assumes "m_isr w = isr_reset" "mq_live (m_mqtt w)" "5 \<le> slack"
    and "sys_run slack (me_channel e) sized (sys_started t e w) evs s"
    and "y_snd_pc s = Snd_send" "moduleState (y_mq s) = MQTT_STATE_CONNECTED"
  shows "\<exists>s' m. sys_step slack (me_channel e) (Ev_send r) s = Some s' \<and> sent s' = Suc (sent s)
    \<and> pub_calls (y_mq s') = pub_calls (y_mq s) @ [(publish_topic TYPE_DATA (y_dev s), enc_msg_data m)]
    \<and> data_id (data_h m) = word_of_nat (sent s)
    \<and> (\<forall>i < 78. data_p m ! i = \<lparr>buffer_id = word_of_nat (newest (y_dws_turns s) (78 * sent s + i)),
         buf_p = downsample (found evs (newest (y_dws_turns s) (78 * sent s + i))) 0 50\<rparr>)
    \<and> (y_dws_turns s \<le> 78 * sent s + 780 \<longrightarrow>
        (\<forall>i < 78. newest (y_dws_turns s) (78 * sent s + i) = 78 * sent s + i))
    \<and> (\<forall>j < y_dws_turns s. j < caught evs j
        \<and> (caught evs j \<le> j + 28 \<and> caught evs j < 65535 \<longrightarrow> found evs j = seen (\<lambda>n. blocks evs ! n) j)
        \<and> (65550 \<le> j \<and> caught evs j \<le> j + 14 \<and> caught evs j < 131071 \<longrightarrow> found evs j = blocks evs ! (j - 15)))"
proof -
  let ?N = "y_dws_turns s" and ?k = "sent s"
  let ?m = "msg_data (y_dws s) ! (?k mod N_MSG_DATA)"
  have inv: "sys_inv (me_channel e) (blocks evs) s"
    using run_inv [OF assms(4) started_inv [OF assms(1,2)]] by simp
  have ring: "ring_inv evs s"
    using run_ring [OF assms(4) started_inv [OF assms(1,2)]] by (simp add: sys_started_def sys_boot_def)
  have k: "Suc ?k = y_snd_turns s" "y_snd_turns s \<le> ?N div 78" "data_id (data_h ?m) = word_of_nat ?k"
    using inv assms(5) by (auto simp: sys_inv_def snd_inv_def sent_def)
  then have N: "78 * Suc ?k \<le> ?N" by simp
  have p: "data_p ?m ! i = \<lparr>buffer_id = word_of_nat (newest ?N (78 * ?k + i)),
      buf_p = downsample (found evs (newest ?N (78 * ?k + i))) 0 50\<rparr>" if "i < 78" for i
  proof -
    have "78 * ?k + i < ?N" using N that by simp
    from newest_bounds [OF this] ring have "slot (y_dws s) (newest ?N (78 * ?k + i)) =
        \<lparr>buffer_id = word_of_nat (newest ?N (78 * ?k + i)), buf_p = downsample (found evs (newest ?N (78 * ?k + i))) 0 50\<rparr>"
      by (simp add: ring_inv_def)
    moreover have "slot (y_dws s) (78 * ?k + i) = data_p ?m ! i"
      using that by (simp add: slot_def N_MSG_DATA_def)
    ultimately show ?thesis by (simp only: newest_slot)
  qed
  have "?N \<le> 78 * ?k + 780 \<longrightarrow> (\<forall>i < 78. newest ?N (78 * ?k + i) = 78 * ?k + i)"
    by (simp add: newest_id)
  moreover have "\<forall>j < ?N. j < caught evs j
      \<and> (caught evs j \<le> j + 28 \<and> caught evs j < 65535 \<longrightarrow> found evs j = seen (\<lambda>n. blocks evs ! n) j)
      \<and> (65550 \<le> j \<and> caught evs j \<le> j + 14 \<and> caught evs j < 131071 \<longrightarrow> found evs j = blocks evs ! (j - 15))"
    using ring found_seen by (simp add: ring_inv_def)
  moreover obtain s' where "sys_step slack (me_channel e) (Ev_send r) s = Some s'" "y_snd_pc s' = Snd_pend"
    "y_snd_turns s' = y_snd_turns s"
    "pub_calls (y_mq s') = pub_calls (y_mq s) @ [(publish_topic TYPE_DATA (y_dev s), enc_msg_data ?m)]"
    using send_eq [OF inv assms(3,5), of r] assms(6) by simp
  moreover from this have "sent s' = Suc ?k" using k(1) by (simp add: sent_def [of s'])
  ultimately show ?thesis using p k(3) by blast
qed

text \<open>
  (C2) What reaches the broker, in every interleaving, when the module is connected and five bytes are unused behind the arrays of
  \<open>mqtt_publish\<close>: the data thread publishes its messages in order, under consecutive identifiers; buffer \<open>i\<close> of message \<open>k\<close>
  carries the number of the \<^emph>\<open>last\<close> iteration of the downsampling thread that wrote to its place before the publication, and
  the averages of what this iteration found in the ring of the controller. This is iteration \<open>78 k + i\<close> as long as the
  downsampling thread is less than ten messages ahead; otherwise the message repeats or mixes later buffers under the old
  identifier. What iteration \<open>j\<close> found is block \<open>j - 1\<close> (\<open>seen\<close>: blocks 0 and 1 and an empty buffer for the first three) if at
  most 28 blocks more than iterations had been captured, and the 16-bit counter had not wrapped; after its first wrap it is
  block \<open>j - 15\<close>, if the thread was at most fourteen blocks behind.
\<close>

theorem system_publishes_blocks:
  assumes "m_isr w = isr_reset" "mq_live (m_mqtt w)" "5 \<le> slack"
    and "sys_run slack (me_channel e) sized (sys_started t e w) evs s"
    and "y_snd_pc s = Snd_send" "moduleState (y_mq s) = MQTT_STATE_CONNECTED"
  shows "\<exists>s' m. sys_step slack (me_channel e) (Ev_send r) s = Some s' \<and> sent s' = Suc (sent s)
    \<and> pub_calls (y_mq s') = pub_calls (y_mq s) @ [(publish_topic TYPE_DATA (y_dev s), enc_msg_data m)]
    \<and> data_id (data_h m) = word_of_nat (sent s)
    \<and> (\<forall>i < 78. data_p m ! i = \<lparr>buffer_id = word_of_nat (newest (y_dws_turns s) (78 * sent s + i)),
         buf_p = downsample (found evs (newest (y_dws_turns s) (78 * sent s + i))) 0 50\<rparr>)
    \<and> (y_dws_turns s \<le> 78 * sent s + 780 \<longrightarrow>
        (\<forall>i < 78. newest (y_dws_turns s) (78 * sent s + i) = 78 * sent s + i))
    \<and> (\<forall>j < y_dws_turns s. j < caught evs j
        \<and> (caught evs j \<le> j + 28 \<and> caught evs j < 65535 \<longrightarrow> found evs j = seen (\<lambda>n. blocks evs ! n) j)
        \<and> (65550 \<le> j \<and> caught evs j \<le> j + 14 \<and> caught evs j < 131071 \<longrightarrow> found evs j = blocks evs ! (j - 15)))"
  by (rule publish_blocks [OF assms])

section \<open>An outage of the link\<close>

fun is_send :: "sys_event \<Rightarrow> bool" where
  "is_send (Ev_send r) = True"
| "is_send _ = False"

fun is_look :: "sys_event \<Rightarrow> bool" where
  "is_look (Ev_look env) = True"
| "is_look _ = False"

text \<open>What the data thread can still publish without another look at the status.\<close>

definition pending :: "sys \<Rightarrow> nat" where
  "pending s = (if y_snd_pc s = Snd_send then 1 else 0)"

lemma stopped_step:
  assumes "sys_step slack ch ev s = Some s'" "sys_enabled ev s" "y_status s = stop" "\<not> is_look ev"
  shows "y_status s' = stop \<and> (if is_send ev then 1 else 0) + pending s' \<le> pending s"
proof -
  have "ev \<noteq> Ev_look env" for env using assms(4) by auto
  then have "y_status s' = stop" using status_frame [OF assms(1)] assms(3) by simp
  moreover have "(if is_send ev then 1 else 0) + pending s' \<le> pending s"
  proof (cases "is_send ev \<or> ev = Ev_wake \<or> ev = Ev_poll")
    case True
    then show ?thesis
      using assms by (cases ev) (auto simp: sys_defs pending_def snd_poll_def split: prod.splits)
  next
    case False
    then have "ev \<noteq> Ev_send r" for r by auto
    then show ?thesis using snd_pc_frame [OF assms(1)] False by (auto simp: pending_def)
  qed
  ultimately show ?thesis ..
qed

lemma stopped_run:
  assumes "sys_run slack ch ok s0 evs s" "y_status s0 = stop" "list_all (\<lambda>ev. \<not> is_look ev) evs"
  shows "y_status s = stop \<and> length (filter is_send evs) + pending s \<le> pending s0"
  using assms(1,3)
proof induction
  case run_nil
  then show ?case using assms(2) by simp
next
  case (run_snoc evs s ev s')
  then show ?case using stopped_step [OF run_snoc.hyps(4,3)] by auto
qed

text \<open>
  (C8) An outage: from the moment when the watching thread has told the data thread to stop until it looks again, which it
  does only after the link has come back, at most one data message is published, and none unless the data thread had
  read the old status and was in its pause.
\<close>

theorem outage_stops_data:
  assumes "sys_run slack ch ok s0 evs s" "y_status s0 = stop" "list_all (\<lambda>ev. \<not> is_look ev) evs"
  shows "length (filter is_send evs) \<le> (if y_snd_pc s0 = Snd_send then 1 else 0) \<and> y_status s = stop"
  using stopped_run [OF assms] by (auto simp: pending_def split: if_splits)

section \<open>The loss of the connection\<close>

lemma not_connected_publish:
  assumes "moduleState q \<noteq> MQTT_STATE_CONNECTED" "MQTT_IF_Publish r topic payload q = Some (q', ret)"
  shows "moduleState q' = moduleState q \<and> pub_calls q' = pub_calls q \<and> ret = - 1"
  using assms by (auto simp: MQTT_IF_Publish_def lock_def unlock_def split: if_splits)

lemma not_connected_mqtt_publish:
  assumes "moduleState q \<noteq> MQTT_STATE_CONNECTED" "mqtt_publish slack dev r ty payload q = Some (q', ret)"
  shows "moduleState q' = moduleState q \<and> pub_calls q' = pub_calls q"
    and "ty \<in> {TYPE_CMD_DEFAULT_ID, TYPE_DATA_DEFAULT_ID, TYPE_CMD, TYPE_DATA} \<Longrightarrow> ret = - 1"
  using mqtt_publish_via [OF assms(2)] not_connected_publish [OF assms(1)] by blast+

lemma lost_step:
  assumes "sys_step slack ch ev s = Some s'" "moduleState (y_mq s) \<noteq> MQTT_STATE_CONNECTED"
  shows "moduleState (y_mq s') \<noteq> MQTT_STATE_CONNECTED \<and> pub_calls (y_mq s') = pub_calls (y_mq s)
    \<and> watchdog_clears (y_snd s') = watchdog_clears (y_snd s)"
proof (cases ev)
  case (Ev_send r)
  then obtain m q ret where "mqtt_publish slack (y_dev s) r TYPE_DATA (enc_msg_data m) (y_mq s) = Some (q, ret)"
    "y_mq s' = q" "watchdog_clears (y_snd s') = watchdog_clears (y_snd s) + (if ret < 0 then 0 else 1)"
    using assms(1) by (auto simp: sys_send_def snd_publish_def split: bind_splits)
  then show ?thesis
    using not_connected_mqtt_publish [OF assms(2), of slack "y_dev s" r TYPE_DATA "enc_msg_data m" q ret] assms(2) by simp
next
  case (Ev_second e)
  then obtain f q where "softtimer_body slack (e\<lparr>sec_wifi := y_wifi s, sec_dev := y_dev s\<rparr>)
      ((y_soft s)\<lparr>time_sync_status := status_time_sync (y_dws s)\<rparr>, y_mq s) = Some (f, q)"
    "y_mq s' = q" "y_snd s' = y_snd s"
    using assms(1) by (auto simp: sys_second_def)
  then show ?thesis
    using not_connected_mqtt_publish(1) [OF assms(2)] assms(2)
    by (fastforce simp: softtimer_body_def send_rssi_def Let_def split: bind_splits if_splits prod.splits)
next
  case (Ev_app rets)
  then show ?thesis using assms app_thread_frame [of rets "y_mq s"] by (auto simp: sys_app_def split: bind_splits)
next
  case (Ev_client P e)
  then show ?thesis using assms callback_frame [of P e "y_mq s"] by (auto simp: sys_client_def)
next
  case Ev_context
  then show ?thesis using assms context_frame [of "y_mq s"] by (auto simp: sys_context_def)
qed (use assms in \<open>auto simp: sys_defs Let_def split: bind_splits if_splits\<close>)

text \<open>
  (C7) A lost connection stays lost: once the module is not connected, nothing is published any more, data or report, and
  the watchdog is not cleared again, whatever the network and the threads do; no thread of the program connects again.
\<close>

theorem lost_connection_is_final:
  assumes "sys_run slack ch ok s0 evs s" "moduleState (y_mq s0) \<noteq> MQTT_STATE_CONNECTED"
  shows "moduleState (y_mq s) \<noteq> MQTT_STATE_CONNECTED \<and> pub_calls (y_mq s) = pub_calls (y_mq s0)
    \<and> watchdog_clears (y_snd s) = watchdog_clears (y_snd s0)"
  using assms(1)
proof induction
  case run_nil
  then show ?case using assms(2) by simp
next
  case (run_snoc evs s ev s')
  then show ?case using lost_step [OF run_snoc.hyps(4)] by simp
qed

section \<open>Time stamps\<close>

fun elapsed :: "sys_event list \<Rightarrow> nat" where
  "elapsed [] = 0"
| "elapsed (Ev_clock n # evs) = n + elapsed evs"
| "elapsed (_ # evs) = elapsed evs"

lemma elapsed_append: "elapsed (es @ fs) = elapsed es + elapsed fs"
  by (induction es rule: elapsed.induct) simp_all

fun is_sync :: "sys_event \<Rightarrow> bool" where
  "is_sync (Ev_second e) = True"
| "is_sync Ev_downsample = True"
| "is_sync _ = False"

lemma clock_step:
  assumes "sys_step slack ch ev s = Some s'" "\<not> is_sync ev"
  shows "y_rtc s' = y_rtc s + elapsed [ev]" "ntp_time (y_soft s') = ntp_time (y_soft s)"
    "status_time_sync (y_dws s') = status_time_sync (y_dws s)" "y_dws_turns s' = y_dws_turns s"
  using assms by (cases ev; auto simp: sys_defs softtimer_callback_def Let_def split: bind_splits prod.splits)+

lemma clock_run:
  assumes "sys_run slack ch ok s0 evs s" "list_all (\<lambda>ev. \<not> is_sync ev) evs"
  shows "y_rtc s = y_rtc s0 + elapsed evs \<and> ntp_time (y_soft s) = ntp_time (y_soft s0)
    \<and> status_time_sync (y_dws s) = status_time_sync (y_dws s0) \<and> y_dws_turns s = y_dws_turns s0"
  using assms
proof induction
  case (run_snoc evs s ev s')
  then show ?case using clock_step [OF run_snoc.hyps(4)] by (simp add: elapsed_append)
qed simp

lemma sync_eq:
  assumes "sys_step slack ch (Ev_second x) s1 = Some s2" "soft_inv s1" "1800 dvd y_soft_turns s1" "y_soft_turns s1 < 2 ^ 63"
    "status_time_sync (y_dws s1) \<in> {0, 1}"
  shows "y_rtc s2 = 0" "ntp_time (y_soft s2) = fetched x" "status_time_sync (y_dws s2) = 1"
proof -
  let ?x = "x\<lparr>sec_wifi := y_wifi s1, sec_dev := y_dev s1\<rparr>"
    and ?f = "(y_soft s1)\<lparr>time_sync_status := status_time_sync (y_dws s1)\<rparr>"
  obtain f q where fq: "softtimer_body slack ?x (?f, y_mq s1) = Some (f, q)" "y_soft s2 = f"
    "status_time_sync (y_dws s2) = time_sync_status f"
    "y_rtc s2 = (if rtc_resets f = rtc_resets (y_soft s1) then y_rtc s1 else 0)"
    using assms(1) by (auto simp: sys_second_def)
  have "sint (cnt_softtimer_thread (y_soft s1)) smod 1800 = 0"
    using softtimer_period [OF assms(4), of 1800] assms(2,3) by (simp add: soft_inv_def)
  with soft_body_state [OF fq(1)] synced_flag [OF assms(5)] fq(2-4)
  show "y_rtc s2 = 0" "ntp_time (y_soft s2) = fetched x" "status_time_sync (y_dws s2) = 1"
    by (simp_all add: fetched_def)
qed

text \<open>
  (C6) The time stamp of a synchronisation, end to end: when the softtimer thread has fetched the NTP time \<open>ts\<close> and the
  downsampling thread makes its next turn \<open>d\<close> nanoseconds later, whatever the other threads do in between, the message
  under the pen receives the number of the buffer and the nanoseconds since 1970 of \<open>ts\<close> plus \<open>d\<close>, within one
  nanosecond for the fraction of a second in \<open>ts\<close>; the flag is taken back.
\<close>

theorem system_time_stamps:
  assumes "m_isr w = isr_reset" "mq_live (m_mqtt w)" "5 \<le> slack"
    and "sys_run slack (me_channel e) sized (sys_started t e w) evs s1"
    and "sys_step slack (me_channel e) (Ev_second x) s1 = Some s2" "sec_sntp x = Some ts"
    and "1800 dvd y_soft_turns s1" "y_soft_turns s1 < 2 ^ 63"
    and "sys_run slack (me_channel e) sized s2 evs' s3" "list_all (\<lambda>ev. \<not> is_sync ev) evs'"
    and "sys_enabled Ev_downsample s3"
    and "2208988800 \<le> unat ts div 2 ^ 32" "elapsed evs' < 2 ^ 32 * 10 ^ 9"
  shows "\<exists>s4 h ns. sys_step slack (me_channel e) Ev_downsample s3 = Some s4
    \<and> h = data_h (msg_data (y_dws s4) ! (y_dws_turns s3 div 78 mod 10))
    \<and> status_time_sync (y_dws s4) = 0 \<and> corr_buffer_id h = word_of_nat (y_dws_turns s3)
    \<and> unat (rtc_value h) = (unat ts div 2 ^ 32 - 2208988800) * 10 ^ 9 + elapsed evs' + ns
    \<and> \<bar>int ns - int ((unat ts mod 2 ^ 32) * 10 ^ 9 div (2 ^ 32 - 1))\<bar> \<le> 1"
proof -
  let ?ch = "me_channel e" and ?el = "elapsed evs'"
  have inv1: "sys_inv ?ch (blocks evs) s1"
    using run_inv [OF assms(4) started_inv [OF assms(1,2)]] by simp
  then have inv2: "sys_inv ?ch (blocks evs) s2" using inv_second assms(5) by simp
  have inv3: "sys_inv ?ch (blocks evs @ blocks evs') s3" using run_inv_from [OF assms(9) inv2] by simp
  have "soft_inv s1" "status_time_sync (y_dws s1) \<in> {0, 1}" using inv1 by (simp_all add: sys_inv_def dws_inv_def)
  from sync_eq [OF assms(5) this(1) assms(7,8) this(2)] clock_run [OF assms(9,10)]
  have c: "y_rtc s3 = ?el" "ntp_time (y_soft s3) = ts" "status_time_sync (y_dws s3) = 1"
    using assms(6) by (simp_all add: fetched_def)
  have hw: "hw_inv ?ch (blocks evs @ blocks evs') s3" and pos: "dws_pos (y_dws_turns s3) (y_dws s3)"
    using inv3 by (simp_all add: sys_inv_def dws_inv_def)
  obtain d where d: "dws_body dws_arg_thread (sys_dws_env s3) (y_dws s3) = Some d" "status_time_sync d = 0"
    "corr_buffer_id (data_h (msg_data d ! (y_dws_turns s3 div 78 mod 10))) = word_of_nat (y_dws_turns s3)"
    "rtc_value (data_h (msg_data d ! (y_dws_turns s3 div 78 mod 10)))
      = time_synchro_ns ts (word_of_nat (?el div 10 ^ 9)) (word_of_nat (?el mod 10 ^ 9))"
    using dws_body_stamps [OF pos hw_env_ok [OF hw]] c by (auto simp: Let_def sys_dws_env_def)
  have sec: "unat (word_of_nat (?el div 10 ^ 9) :: u64) = ?el div 10 ^ 9"
    "unat (word_of_nat (?el mod 10 ^ 9) :: u64) = ?el mod 10 ^ 9" "?el div 10 ^ 9 < 2 ^ 32" "?el mod 10 ^ 9 < 10 ^ 9"
    using assms(13) by (simp_all add: unat_word_of_nat_small less_mult_imp_div_less)
  obtain ns where ns: "unat (rtc_value (data_h (msg_data d ! (y_dws_turns s3 div 78 mod 10))))
      = (unat ts div 2 ^ 32 + ?el div 10 ^ 9 - 2208988800) * 10 ^ 9 + ?el mod 10 ^ 9 + ns"
    "\<bar>int ns - int ((unat ts mod 2 ^ 32) * 10 ^ 9 div (2 ^ 32 - 1))\<bar> \<le> 1"
    using time_synchro_ns_close [of ts "word_of_nat (?el div 10 ^ 9)" "word_of_nat (?el mod 10 ^ 9)"] assms(12) sec d(4)
    by auto
  have "(unat ts div 2 ^ 32 + ?el div 10 ^ 9 - 2208988800) * 10 ^ 9 + ?el mod 10 ^ 9
      = (unat ts div 2 ^ 32 - 2208988800) * 10 ^ 9 + ?el"
    using assms(12) div_mult_mod_eq [of ?el "10 ^ 9"] by (simp add: algebra_simps)
  then show ?thesis using d ns by (auto simp: sys_downsample_def)
qed

section \<open>Examples\<close>

definition sys_main_example :: main_state where
  "sys_main_example = main_state_example\<lparr>m_mqtt := two_topics, m_wifi := wifi_example\<lparr>g_ulStatus := 2\<rparr>\<rparr>"

abbreviation sys_example :: sys where
  "sys_example \<equiv> sys_started (\<lambda>_. armed UDMA_MODE_STOP 0 0 0) main_env_example sys_main_example"

lemma sys_main_ok: "m_isr sys_main_example = isr_reset" "mq_live (m_mqtt sys_main_example)"
  using two_topics_ok by (auto simp: sys_main_example_def main_state_example_def mq_live_def if_inv_def)

lemma sys_example_channel [simp]: "me_channel main_env_example = 16"
  by (simp add: main_env_example_def)

lemma sys_example_inv: "sys_inv 16 [] sys_example"
  using started_inv [OF sys_main_ok, of main_env_example] by simp

lemma sys_example_fields [simp]:
  "y_dws_turns sys_example = 0" "y_snd_pc sys_example = Snd_pend" "y_snd_turns sys_example = 0"
  "y_soft_turns sys_example = 0" "y_mq sys_example = two_topics" "y_wifi sys_example = wifi_example\<lparr>g_ulStatus := 2\<rparr>"
  "y_status sys_example = stop" "y_watch sys_example = Watch_look" "y_snd sys_example = send_init"
  by (simp_all add: sys_started_def sys_boot_def main_loop_init_def main_threads_def spawn_def main_acquisition_def
      Let_def sys_main_example_def main_state_example_def split: prod.splits)


text \<open>Blocks, each downsampled at once, and then a turn of the data thread.\<close>

fun acquiring :: "sys_event \<Rightarrow> bool" where
  "acquiring (Ev_block b) = True"
| "acquiring Ev_downsample = True"
| "acquiring _ = False"

definition frame_eq :: "sys \<Rightarrow> sys \<Rightarrow> bool" where
  "frame_eq s s' \<longleftrightarrow> y_snd_pc s' = y_snd_pc s \<and> y_snd_turns s' = y_snd_turns s \<and> y_mq s' = y_mq s \<and> y_wifi s' = y_wifi s
     \<and> y_status s' = y_status s \<and> y_watch s' = y_watch s \<and> y_dev s' = y_dev s"

lemma run_blocks:
  assumes "sys_inv ch [] s0" "y_dws_turns s0 = 0"
  shows "\<exists>evs s. sys_run slack ch sized s0 evs s \<and> y_dws_turns s = n \<and> length (blocks evs) = n \<and> frame_eq s0 s
    \<and> sys_inv ch (blocks evs) s \<and> list_all acquiring evs
    \<and> (\<forall>j < n. caught evs j = Suc j)"
proof (induction n)
  case 0
  then show ?case using assms run_nil [of slack ch sized s0] by (intro exI [of _ "[]"] exI [of _ s0]) (simp add: frame_eq_def)
next
  case (Suc n)
  then obtain evs s where s: "sys_run slack ch sized s0 evs s" "y_dws_turns s = n" "length (blocks evs) = n"
    "frame_eq s0 s" "sys_inv ch (blocks evs) s" "list_all acquiring evs" "\<forall>j < n. caught evs j = Suc j"
    by auto
  let ?b = "replicate DMA_BUFF_SIZE (word_of_nat n) :: u16 list"
  obtain s1 where s1: "sys_block ch ?b s = Some s1" "sys_inv ch (blocks evs @ [?b]) s1"
    using inv_block [OF s(5), of ?b] by auto
  have e1: "y_dws_turns s1 = n" "frame_eq s0 s1" "dws_semaphore (isr (y_hw s1)) = Suc n"
    using s s1 hw_sem [of ch "blocks evs @ [?b]" s1] by (auto simp: sys_block_def frame_eq_def sys_inv_def)
  obtain s2 where s2: "sys_downsample s1 = Some s2" "sys_inv ch (blocks evs @ [?b]) s2"
    using inv_downsample [OF s1(2)] e1 by auto
  have e2: "y_dws_turns s2 = Suc n" "frame_eq s0 s2"
    using s2(1) e1 by (auto simp: sys_downsample_def frame_eq_def)
  have "sys_run slack ch sized s0 (evs @ [Ev_block ?b]) s1"
    using run_snoc [OF s(1), of "Ev_block ?b" s1] s1(1) by simp
  then have "sys_run slack ch sized s0 ((evs @ [Ev_block ?b]) @ [Ev_downsample]) s2"
    using run_snoc [of slack ch sized s0 "evs @ [Ev_block ?b]" s1 Ev_downsample s2] s2(1) e1 by simp
  moreover have "iterations evs = n" using turns_iterations [OF s(1)] s(2) assms(2) by simp
  then have "\<forall>j < Suc n. caught ((evs @ [Ev_block ?b]) @ [Ev_downsample]) j = Suc j"
    using s(3,7) by (auto simp: caught_append iterations_append less_Suc_eq)
  ultimately show ?case
    using e2 s2(2) s(3,6) by (intro exI [of _ "(evs @ [Ev_block ?b]) @ [Ev_downsample]"] exI [of _ s2]) (simp add: blocks_append)
qed

lemma example_look:
  assumes "y_wifi s = wifi_example\<lparr>g_ulStatus := 2\<rparr>"
  shows "\<exists>w. sys_look wifi_env_example s = Some (s\<lparr>y_wifi := w, y_status := start\<rparr>)"
proof -
  have "sl wifi_env_example C_usleep (wifi_example\<lparr>g_ulStatus := 2\<rparr>)
      = Some (wifi_example\<lparr>g_ulStatus := 2, calls := [C_usleep]\<rparr>, 0)"
    by (simp add: sl_def wifi_env_example_def wifi_example_def)
  then show ?thesis
    using assms by (simp add: sys_look_def test_wifi_connection_def IS_CONNECTED_bit bit_2_iff) blast
qed

text \<open>The first message: 78 blocks, a look at the link, and the data thread wakes up and finds that it may send.\<close>

lemma run_first_message:
  assumes "sys_inv ch [] s0" "y_dws_turns s0 = 0" "y_snd_pc s0 = Snd_pend" "y_snd_turns s0 = 0" "y_watch s0 = Watch_look"
    and "y_wifi s0 = wifi_example\<lparr>g_ulStatus := 2\<rparr>"
  shows "\<exists>evs s. list_all acquiring evs
    \<and> sys_run slack ch sized s0 (evs @ [Ev_look wifi_env_example, Ev_wake, Ev_poll]) s \<and> length (blocks evs) = 78
    \<and> y_snd_pc s = Snd_send \<and> y_dws_turns s = 78 \<and> sent s = 0 \<and> y_mq s = y_mq s0 \<and> y_dev s = y_dev s0
    \<and> found (evs @ [Ev_look wifi_env_example, Ev_wake, Ev_poll]) 5 = blocks evs ! 4"
proof -
  let ?run = "sys_run slack ch sized s0"
  obtain evs s where s: "?run evs s" "y_dws_turns s = 78" "length (blocks evs) = 78" "frame_eq s0 s"
    "sys_inv ch (blocks evs) s" "list_all acquiring evs"
    "\<forall>j < 78. caught evs j = Suc j"
    using run_blocks [OF assms(1,2), of slack 78] by auto
  have "iterations evs = 78" using turns_iterations [OF s(1)] s(2) assms(2) by simp
  then have f: "found (evs @ gs) 5 = blocks evs ! 4" for gs
    using found_seen(1) [of 5 evs] s(7) by (simp add: found_append seen_def)
  obtain w where w: "sys_look wifi_env_example s = Some (s\<lparr>y_wifi := w, y_status := start\<rparr>)"
    using example_look [of s] s(4) assms(6) by (auto simp: frame_eq_def)
  let ?s1 = "s\<lparr>y_wifi := w, y_status := start\<rparr>"
  have r1: "?run (evs @ [Ev_look wifi_env_example]) ?s1"
    using run_snoc [OF s(1), of "Ev_look wifi_env_example" ?s1] w s(4) assms(5) by (simp add: frame_eq_def)
  have i1: "sys_inv ch (blocks evs) ?s1"
    by (rule inv_other [OF s(5)]) (use s(5) in \<open>simp_all add: sys_inv_def\<close>)
  have en: "y_snd_pc ?s1 = Snd_pend" "y_snd_turns ?s1 < semaphore_mqtt (y_dws ?s1)"
    using s(2,4,5) assms(3,4) by (simp_all add: frame_eq_def sys_inv_def dws_inv_def dws_pos_def)
  obtain s2 where s2: "sys_wake ?s1 = Some s2" "sys_inv ch (blocks evs) s2" using inv_wake [OF i1 en] by auto
  have r2: "?run ((evs @ [Ev_look wifi_env_example]) @ [Ev_wake]) s2"
    using run_snoc [OF r1, of Ev_wake s2] s2(1) en by simp
  have e2: "y_snd_pc s2 = Snd_poll" "y_status s2 = start" "y_dws_turns s2 = 78" "y_mq s2 = y_mq s0" "y_snd_turns s2 = 1"
    "y_dev s2 = y_dev s0"
    using s2(1) s(2,4) assms(4) by (auto simp: sys_wake_def frame_eq_def)
  have "?run (((evs @ [Ev_look wifi_env_example]) @ [Ev_wake]) @ [Ev_poll]) (sys_poll s2)"
    using run_snoc [OF r2, of Ev_poll "sys_poll s2"] e2 by simp
  then show ?thesis
    using e2 s(3,6) f by (intro exI [of _ evs] exI [of _ "sys_poll s2"])
      (simp add: sys_poll_def snd_poll_def start_def stop_def sent_def)
qed

theorem system_publishes_blocks_witness:
  "\<exists>evs s s' m. sys_run 5 16 sized sys_example evs s \<and> sys_step 5 16 (Ev_send 0) s = Some s'
     \<and> pub_calls (y_mq s') = [(publish_topic TYPE_DATA (y_dev s), enc_msg_data m)] \<and> data_id (data_h m) = 0
     \<and> data_p m ! 5 = \<lparr>buffer_id = 5, buf_p = downsample (blocks evs ! 4) 0 50\<rparr>"
proof -
  obtain evs s where s: "sys_run 5 16 sized sys_example (evs @ [Ev_look wifi_env_example, Ev_wake, Ev_poll]) s"
    "length (blocks evs) = 78" "y_snd_pc s = Snd_send" "y_dws_turns s = 78" "sent s = 0" "y_mq s = two_topics"
    "found (evs @ [Ev_look wifi_env_example, Ev_wake, Ev_poll]) 5 = blocks evs ! 4"
    using run_first_message [OF sys_example_inv, of 5] by auto
  let ?evs = "evs @ [Ev_look wifi_env_example, Ev_wake, Ev_poll]"
  have q: "moduleState (y_mq s) = MQTT_STATE_CONNECTED" "pub_calls (y_mq s) = []"
    using s(6) two_topics_ok(2) by (simp_all add: two_topics_def mMQTTContext_init_def)
  obtain s' m where "sys_step 5 16 (Ev_send 0) s = Some s'"
    "pub_calls (y_mq s') = pub_calls (y_mq s) @ [(publish_topic TYPE_DATA (y_dev s), enc_msg_data m)]"
    "data_id (data_h m) = word_of_nat (sent s)"
    "\<forall>i < 78. data_p m ! i = \<lparr>buffer_id = word_of_nat (newest (y_dws_turns s) (78 * sent s + i)),
         buf_p = downsample (found ?evs (newest (y_dws_turns s) (78 * sent s + i))) 0 50\<rparr>"
    using system_publishes_blocks [OF sys_main_ok, of 5 main_env_example "\<lambda>_. armed UDMA_MODE_STOP 0 0 0" ?evs s 0]
      s(1,3) q(1) by auto
  moreover from this(4) have "data_p m ! 5 = \<lparr>buffer_id = 5, buf_p = downsample (blocks ?evs ! 4) 0 50\<rparr>"
    by (auto simp: s(4,5,7) newest_id blocks_append nth_append s(2) [unfolded blocks_append] dest: spec [of _ 5])
  ultimately show ?thesis using s(1,5) q(2) by (intro exI [of _ ?evs] exI [of _ s] exI [of _ s'] exI [of _ m]) simp
qed

text \<open>A state in which the data thread is about to publish.\<close>

lemma example_send:
  assumes "mq_live (y_mq s)" "y_snd s = send_init" "y_dws s = y_dws sys_example"
  shows "\<exists>s'. sys_send 5 0 s = Some s'"
proof -
  have "length (msg_data (y_dws sys_example)) = 10"
    using sys_example_inv dws_pos_msgs(1) by (auto simp: sys_inv_def dws_inv_def)
  then show ?thesis
    using publish_live [OF assms(1)] assms(2,3) by (simp add: sys_send_def snd_publish_def send_init_def publish_topic_of)
qed

theorem outage_stops_data_witness:
  "\<exists>s. sys_run 5 16 sized (sys_example\<lparr>y_snd_pc := Snd_send\<rparr>) [Ev_send 0] s
     \<and> length (filter is_send [Ev_send 0]) \<le> 1 \<and> y_status s = stop"
proof -
  let ?s = "sys_example\<lparr>y_snd_pc := Snd_send\<rparr>"
  have "mq_live two_topics" using sys_main_ok(2) by (simp add: sys_main_example_def)
  then have "mq_live (y_mq ?s)" by simp
  then obtain s' where s': "sys_send 5 0 ?s = Some s'" using example_send [of ?s] by auto
  then have r: "sys_run 5 16 sized ?s [Ev_send 0] s'"
    using run_snoc [OF run_nil, of sized "Ev_send 0" ?s 5 16 s'] by simp
  from outage_stops_data [OF r] r show ?thesis by auto
qed

theorem lost_connection_is_final_witness:
  "\<exists>s. sys_run 5 16 sized (sys_example\<lparr>y_snd_pc := Snd_send, y_mq := two_topics\<lparr>moduleState := MQTT_STATE_INITIALIZED\<rparr>\<rparr>)
       [Ev_send 0] s \<and> pub_calls (y_mq s) = [] \<and> watchdog_clears (y_snd s) = 0"
proof -
  let ?q = "two_topics\<lparr>moduleState := MQTT_STATE_INITIALIZED\<rparr>"
  let ?s = "sys_example\<lparr>y_snd_pc := Snd_send, y_mq := ?q\<rparr>"
  have "if_ok ?q [7, 8]" using two_topics_ok by (simp add: if_ok_def)
  then have "mq_live (y_mq ?s)" by (auto simp: mq_live_def if_inv_def)
  then obtain s' where s': "sys_send 5 0 ?s = Some s'" using example_send [of ?s] by auto
  then have r: "sys_run 5 16 sized ?s [Ev_send 0] s'"
    using run_snoc [OF run_nil, of sized "Ev_send 0" ?s 5 16 s'] by simp
  from lost_connection_is_final [OF r] r show ?thesis
    by (auto simp: two_topics_def mMQTTContext_init_def send_init_def)
qed

theorem system_time_stamps_witness:
  "\<exists>s1 s2 s3 s4 h ns. sys_run 5 16 sized sys_example [Ev_tick] s1
     \<and> sys_step 5 16 (Ev_second (second_example\<lparr>sec_sntp := Some 0xE7A5000080000000\<rparr>)) s1 = Some s2
     \<and> sys_run 5 16 sized s2 [Ev_block (replicate 800 1), Ev_clock 5000000007] s3
     \<and> sys_step 5 16 Ev_downsample s3 = Some s4 \<and> h = data_h (msg_data (y_dws s4) ! 0)
     \<and> unat (rtc_value h) = (unat (0xE7A5000080000000 :: u64) div 2 ^ 32 - 2208988800) * 10 ^ 9 + 5000000007 + ns
     \<and> \<bar>int ns - 500000000\<bar> \<le> 1"
proof -
  let ?x = "second_example\<lparr>sec_sntp := Some 0xE7A5000080000000\<rparr>" and ?b = "replicate 800 1 :: u16 list"
  let ?s1 = "sys_tick sys_example"
  have r1: "sys_run 5 16 sized sys_example [Ev_tick] ?s1"
    using run_snoc [OF run_nil, of sized Ev_tick sys_example 5 16 ?s1] by simp
  have i1: "sys_inv 16 [] ?s1" using run_inv [OF r1 sys_example_inv] by simp
  then obtain s2 where s2: "sys_second 5 ?x ?s1 = Some s2"
    using second_defined [of ?s1 ?x 5] by (auto simp: sys_inv_def)
  have i2: "sys_inv 16 [] s2" by (rule inv_second [OF i1 s2])
  obtain sb where sb: "sys_block 16 ?b s2 = Some sb" "sys_inv 16 [?b] sb"
    using inv_block [OF i2, of ?b] by (auto simp: DMA_BUFF_SIZE_def)
  let ?s3 = "sb\<lparr>y_rtc := y_rtc sb + 5000000007\<rparr>"
  have r2: "sys_run 5 16 sized s2 [Ev_block ?b] sb"
    using run_snoc [OF run_nil, of sized "Ev_block ?b" s2 5 16 sb] sb(1) by (simp add: DMA_BUFF_SIZE_def)
  have r3: "sys_run 5 16 sized s2 [Ev_block ?b, Ev_clock 5000000007] ?s3"
    using run_snoc [OF r2, of "Ev_clock 5000000007" ?s3] by simp
  have t: "y_soft_turns ?s1 = 0" "y_dws_turns ?s3 = 0"
    using s2 sb(1) by (auto simp: sys_tick_def sys_second_def sys_block_def)
  have en: "sys_enabled Ev_downsample ?s3"
    using t(2) sb(2) hw_sem [of 16 "[?b]" sb] by (simp add: sys_inv_def)
  have "\<exists>s4 h ns. sys_step 5 16 Ev_downsample ?s3 = Some s4 \<and> h = data_h (msg_data (y_dws s4) ! 0)
     \<and> unat (rtc_value h) = (unat (0xE7A5000080000000 :: u64) div 2 ^ 32 - 2208988800) * 10 ^ 9 + 5000000007 + ns
     \<and> \<bar>int ns - int ((unat (0xE7A5000080000000 :: u64) mod 2 ^ 32) * 10 ^ 9 div (2 ^ 32 - 1))\<bar> \<le> 1"
    using system_time_stamps [OF sys_main_ok, of 5 main_env_example "\<lambda>_. armed UDMA_MODE_STOP 0 0 0" "[Ev_tick]" ?s1 ?x s2
        "0xE7A5000080000000" "[Ev_block ?b, Ev_clock 5000000007]" ?s3] r1 r3 s2 t en by auto
  moreover have "(unat (0xE7A5000080000000 :: u64) mod 2 ^ 32) * 10 ^ 9 div (2 ^ 32 - 1) = 500000000" by simp
  ultimately have "\<exists>s4 h ns. sys_step 5 16 Ev_downsample ?s3 = Some s4 \<and> h = data_h (msg_data (y_dws s4) ! 0)
     \<and> unat (rtc_value h) = (unat (0xE7A5000080000000 :: u64) div 2 ^ 32 - 2208988800) * 10 ^ 9 + 5000000007 + ns
     \<and> \<bar>int ns - 500000000\<bar> \<le> 1" by (simp only:) simp
  moreover have "sys_step 5 16 (Ev_second ?x) ?s1 = Some s2" using s2 by simp
  ultimately show ?thesis using r1 r3 by blast
qed

end
