(* ===== verification/Watchdog.thy ===== *)
theory Watchdog
  imports System_Props
begin

text \<open>
  The watchdog: its start at the beginning of \<open>send_data\<close>, and what an outage of the link does to it. The driver counts
  down from the reload value, starts again at every \<open>Watchdog_clear\<close>, calls \<open>watchdog_callback\<close> when it reaches zero (a
  callback that never returns, see theory \<open>Mqtt_App\<close>) and resets the device when it reaches zero once more.
\<close>

section \<open>Start\<close>

definition WATCHDOG_TIMER :: nat where "WATCHDOG_TIMER = 12000"

datatype wd_call =
    Watchdog_Params_init
  | Watchdog_open
  | Watchdog_convertMsToTicks nat
  | Watchdog_setReload u32
  | Watchdog_log string

text \<open>
  The calls before the loop of the data thread: whether the driver is opened, and the ticks it answers. Without a handle the code
  prints an error and goes on to call the driver through the null pointer, which is undefined.
\<close>

definition send_data_open :: "bool \<Rightarrow> u32 \<Rightarrow> wd_call list option" where
  "send_data_open opened ticks =
     (if \<not> opened then None
      else Some ([Watchdog_Params_init, Watchdog_open, Watchdog_convertMsToTicks WATCHDOG_TIMER]
             @ (if ticks \<noteq> 0 then [Watchdog_setReload ticks] else [Watchdog_log ''Error in convert tick watchdog!!''])))"

section \<open>Clearing\<close>

text \<open>A period of the watchdog in nanoseconds.\<close>

definition watchdog_period :: nat where "watchdog_period = WATCHDOG_TIMER * 10 ^ 6"

text \<open>Runs fall into parts.\<close>

lemma sys_run_split:
  assumes "sys_run slack ch ok s0 (es @ fs) s"
  shows "\<exists>s1. sys_run slack ch ok s0 es s1 \<and> sys_run slack ch ok s1 fs s"
  using assms
proof (induction fs arbitrary: s rule: rev_induct)
  case Nil
  then show ?case using run_nil by auto
next
  case (snoc f fs)
  from snoc.prems obtain s' where "sys_run slack ch ok s0 (es @ fs) s'" "ok f s'" "sys_enabled f s'"
    "sys_step slack ch f s' = Some s"
    by (cases rule: sys_run.cases) auto
  with snoc.IH show ?case by (metis run_snoc)
qed

text \<open>Only the data thread clears the watchdog.\<close>

lemma clears_step:
  assumes "sys_step slack ch ev s = Some s'" "\<not> is_send ev"
  shows "y_snd s' = y_snd s"
  using assms by (cases ev) (auto simp: sys_defs Let_def split: bind_splits if_splits prod.splits)

lemma clears_run:
  assumes "sys_run slack ch ok s0 evs s" "filter is_send evs = []"
  shows "y_snd s = y_snd s0"
  using assms
proof induction
  case (run_snoc evs s ev s')
  then show ?case using clears_step [OF run_snoc.hyps(4)] by (simp split: if_splits)
qed simp

text \<open>A part of a run that lasts for a period of the watchdog without clearing it.\<close>

definition starves :: "nat \<Rightarrow> u32 \<Rightarrow> (sys_event \<Rightarrow> sys \<Rightarrow> bool) \<Rightarrow> sys \<Rightarrow> sys_event list \<Rightarrow> bool" where
  "starves slack ch ok s0 evs \<longleftrightarrow>
     (\<exists>us vs ws s1 s2. evs = us @ vs @ ws \<and> sys_run slack ch ok s0 us s1 \<and> sys_run slack ch ok s1 vs s2
        \<and> watchdog_clears (y_snd s2) = watchdog_clears (y_snd s1) \<and> watchdog_period \<le> elapsed vs)"

lemma starvesI:
  assumes "sys_run slack ch ok s0 (us @ vs @ ws) s" "filter is_send vs = []" "watchdog_period \<le> elapsed vs"
  shows "starves slack ch ok s0 (us @ vs @ ws)"
proof -
  obtain s1 where s1: "sys_run slack ch ok s0 us s1" "sys_run slack ch ok s1 (vs @ ws) s"
    using sys_run_split [OF assms(1)] by blast
  then obtain s2 where s2: "sys_run slack ch ok s1 vs s2" using sys_run_split by blast
  have "watchdog_clears (y_snd s2) = watchdog_clears (y_snd s1)" using clears_run [OF s2 assms(2)] by simp
  then show ?thesis using s1(1) s2 assms(3) unfolding starves_def by metis
qed

text \<open>
  (C9) An outage of the link for 24 seconds expires the watchdog: while the watching thread holds the data thread, the watchdog
  is cleared at most once, so one of the two parts lasts for its period of 12 seconds. The callback then stops the device
  until the reset, although the watching thread is there to wait for the link.
\<close>

theorem outage_starves_watchdog:
  assumes "sys_run slack ch ok s0 evs s" "y_status s0 = stop" "list_all (\<lambda>ev. \<not> is_look ev) evs"
    and "2 * watchdog_period \<le> elapsed evs"
  shows "starves slack ch ok s0 evs"
proof (cases "filter is_send evs")
  case Nil
  then show ?thesis using starvesI [of slack ch ok s0 "[]" evs "[]" s] assms(1,4) by simp
next
  case (Cons x xs)
  moreover have "length (filter is_send evs) \<le> 1"
    using stopped_run [OF assms(1-3)] by (auto simp: pending_def split: if_splits)
  ultimately have "filter is_send evs = [x]" by simp
  then have "\<exists>us vs. evs = us @ x # vs \<and> (\<forall>u\<in>set us. \<not> is_send u) \<and> is_send x \<and> [] = filter is_send vs"
    by (simp only: filter_eq_Cons_iff)
  then obtain us vs where evs: "evs = us @ x # vs" "is_send x" "filter is_send us = []" "filter is_send vs = []"
    unfolding filter_empty_conv by (metis filter_empty_conv)
  then have "elapsed evs = elapsed us + elapsed vs" by (cases x) (simp_all add: elapsed_append)
  then consider "watchdog_period \<le> elapsed us" | "watchdog_period \<le> elapsed vs" using assms(4) by linarith
  then show ?thesis
  proof cases
    case 1
    then show ?thesis using starvesI [of slack ch ok s0 "[]" us "x # vs" s] assms(1) evs by simp
  next
    case 2
    then show ?thesis using starvesI [of slack ch ok s0 "us @ [x]" vs "[]" s] assms(1) evs by simp
  qed
qed

lemma outage_starves_watchdog_witness:
  "starves 5 16 sized sys_example [Ev_clock 24000000000]"
proof -
  let ?s = "sys_example\<lparr>y_rtc := y_rtc sys_example + 24000000000\<rparr>"
  have "sys_run 5 16 sized sys_example [Ev_clock 24000000000] ?s"
    using run_snoc [OF run_nil, of sized "Ev_clock 24000000000" sys_example 5 16 ?s] by simp
  moreover have "y_status sys_example = stop" by simp
  ultimately show ?thesis
    using outage_starves_watchdog [of 5 16 sized sys_example "[Ev_clock 24000000000]" ?s]
    by (simp add: watchdog_period_def WATCHDOG_TIMER_def)
qed

end
