(* ===== verification/Mqtt_Session.thy ===== *)
theory Mqtt_Session
  imports Mqtt_Client
begin

text \<open>
  The session protocol of \<open>Mqtt_Client\<close>: an abstract machine over the session states, the proof
  that the callbacks refine it, and the requests (subscribe, unsubscribe, publish with
  acknowledgement), whose common contract is the locale \<open>ack_request\<close>.
\<close>

section \<open>The abstract session\<close>

datatype session = Disconnected | Idle | Waiting u8

definition session_of :: "mqtt_codes \<Rightarrow> MQTTClient_Ctx_t \<Rightarrow> session" where
  "session_of K c =
     (if awaitedAck c = MQTT_DISCONNECT K then Disconnected
      else if awaitedAck c = 0 then Idle else Waiting (awaitedAck c))"

text \<open>One callback: the session before and after it, and how often it posts the semaphore.\<close>

inductive session_step :: "mqtt_codes \<Rightarrow> rx_event \<Rightarrow> session \<Rightarrow> session \<Rightarrow> nat \<Rightarrow> bool" for K where
  connack: "session_step K (Rx_Ack (MQTT_CONNACK K) buf) s Idle 1"
| awaited: "t \<noteq> MQTT_CONNACK K \<Longrightarrow> session_step K (Rx_Ack t buf) (Waiting t) Idle 1"
| dropped: "t \<noteq> MQTT_CONNACK K \<Longrightarrow> s \<noteq> Waiting t \<Longrightarrow> session_step K (Rx_Ack t buf) s s 0"
| published: "session_step K (Rx_Publish dup retain mqp) s s 0"
| lost: "s \<noteq> Disconnected \<Longrightarrow> session_step K Rx_Disconn s Disconnected 1"
| lost_again: "session_step K Rx_Disconn Disconnected Disconnected 0"

inductive_cases session_ackE: "session_step K (Rx_Ack t buf) s s' n"
inductive_cases session_pubE: "session_step K (Rx_Publish dup retain mqp) s s' n"
inductive_cases session_lostE: "session_step K Rx_Disconn s s' n"

inductive session_run :: "mqtt_codes \<Rightarrow> rx_event list \<Rightarrow> session \<Rightarrow> session \<Rightarrow> nat \<Rightarrow> bool" for K where
  Nil: "session_run K [] s s 0"
| Cons: "session_step K e s s' m \<Longrightarrow> session_run K es s' s'' n \<Longrightarrow> session_run K (e # es) s s'' (m + n)"

inductive_simps session_run_simps [simp]:
  "session_run K [] s s' n"
inductive_cases session_run_ConsE: "session_run K (e # es) s s' n"

text \<open>The types that the core library notifies are acknowledgements.\<close>

fun notified_ok :: "mqtt_codes \<Rightarrow> rx_event \<Rightarrow> bool" where
  "notified_ok K (Rx_Ack t buf) \<longleftrightarrow> t \<noteq> 0 \<and> t \<noteq> MQTT_DISCONNECT K"
| "notified_ok K _ \<longleftrightarrow> True"

text \<open>What the callbacks keep: the mode, and a semaphore.\<close>

definition blocking_ctx :: "MQTTClient_Ctx_t \<Rightarrow> bool" where
  "blocking_ctx c \<longleftrightarrow> blockingSend c \<and> ackSyncObj c \<noteq> None"

definition posts :: "MQTTClient_Ctx_t \<Rightarrow> nat" where
  "posts c = (case ackSyncObj c of None \<Rightarrow> 0 | Some n \<Rightarrow> n)"

lemma ack_post_blocking:
  "blocking_ctx c \<Longrightarrow> ack_post c = Some c' \<Longrightarrow>
   blocking_ctx c' \<and> posts c' = Suc (posts c) \<and> awaitedAck c' = awaitedAck c"
  by (auto simp: ack_post_def blocking_ctx_def posts_def)

lemma suback_copy_keeps:
  "suback_copy buf c = Some c' \<Longrightarrow> awaitedAck c' = awaitedAck c \<and> ackSyncObj c' = ackSyncObj c
     \<and> blockingSend c' = blockingSend c"
  by (auto simp: suback_copy_def split: if_splits Option.bind_splits)

lemma connack_cases:
  assumes "processNotifyAckCB K (MQTT_CONNACK K) buf c = Some c'"
  obtains b0 b1 where "rd buf 0 = Some b0" "rd buf 1 = Some b1"
    "ack_post (app_call (OPERATION_CB_EVENT (MQTT_CONNACK K) (enc_w (connack_word b0 b1)))
       (c\<lparr>connAck := connack_word b0 b1, awaitedAck := 0\<rparr>)) = Some c'"
  using assms unfolding processNotifyAckCB_def Let_def by (auto split: Option.bind_splits)

lemma ack_match_refines:
  assumes "codes_ok K" "blocking_ctx c" "t \<noteq> 0" "t \<noteq> MQTT_DISCONNECT K" "t \<noteq> MQTT_CONNACK K"
    and "ack_match t c = Some c'"
  shows "blocking_ctx c' \<and> (\<exists>n. session_step K (Rx_Ack t buf) (session_of K c) (session_of K c') n
    \<and> posts c' = posts c + n)"
proof (cases "awaitedAck c = t")
  case True
  have "blocking_ctx (c\<lparr>awaitedAck := 0\<rparr>)" "posts (c\<lparr>awaitedAck := 0\<rparr>) = posts c"
    using assms(2) by (simp_all add: blocking_ctx_def posts_def)
  with assms(6) True have c': "blocking_ctx c'" "posts c' = Suc (posts c)" "awaitedAck c' = 0"
    using ack_post_blocking [of "c\<lparr>awaitedAck := 0\<rparr>" c'] by (auto simp: ack_match_def)
  moreover have "session_of K c = Waiting t" "session_of K c' = Idle"
    using True c'(3) assms(1,3,4) by (auto simp: session_of_def codes_ok_def)
  ultimately show ?thesis
    using session_step.awaited [OF assms(5)] by fastforce
next
  case False
  then have "c' = c" using assms(6) by (simp add: ack_match_def)
  moreover have "session_of K c \<noteq> Waiting t" using False by (auto simp: session_of_def)
  ultimately show ?thesis
    using session_step.dropped [OF assms(5)] assms(2) by fastforce
qed

lemma connack_refines:
  assumes "codes_ok K" "blocking_ctx c" "processNotifyAckCB K (MQTT_CONNACK K) buf c = Some c'"
  shows "blocking_ctx c' \<and> session_of K c' = Idle \<and> posts c' = posts c + 1"
proof -
  obtain w where w: "ack_post (app_call (OPERATION_CB_EVENT (MQTT_CONNACK K) (enc_w (w :: u16)))
      (c\<lparr>connAck := w, awaitedAck := 0\<rparr>)) = Some c'" (is "ack_post ?c1 = _")
    using assms(3) by (rule connack_cases)
  have "blocking_ctx ?c1" "posts ?c1 = posts c" "awaitedAck ?c1 = 0"
    using assms(2) by (simp_all add: blocking_ctx_def posts_def)
  then have "blocking_ctx c'" "posts c' = posts c + 1" "awaitedAck c' = 0"
    using ack_post_blocking [OF _ w] by simp_all
  then show ?thesis using assms(1) by (auto simp: session_of_def codes_ok_def)
qed

lemma disconn_refines:
  assumes "blocking_ctx c" "processDisconnCB K c = Some c'"
  shows "blocking_ctx c' \<and> session_of K c' = Disconnected
    \<and> posts c' = posts c + (if session_of K c = Disconnected then 0 else 1)"
proof (cases "awaitedAck c = MQTT_DISCONNECT K")
  case True
  then have "c' = app_call DISCONNECT_CB_EVENT c" using assms(2) by (simp add: processDisconnCB_def)
  then show ?thesis using True assms(1) by (auto simp: blocking_ctx_def posts_def session_of_def)
next
  case False
  then obtain c1 where c1: "ack_post (c\<lparr>awaitedAck := MQTT_DISCONNECT K\<rparr>) = Some c1" "c' = app_call DISCONNECT_CB_EVENT c1"
    using assms(2) by (auto simp: processDisconnCB_def)
  have "blocking_ctx (c\<lparr>awaitedAck := MQTT_DISCONNECT K\<rparr>)" "posts (c\<lparr>awaitedAck := MQTT_DISCONNECT K\<rparr>) = posts c"
    using assms(1) by (simp_all add: blocking_ctx_def posts_def)
  from ack_post_blocking [OF this(1) c1(1)] this(2) show ?thesis
    using False by (simp add: c1(2) blocking_ctx_def posts_def session_of_def)
qed

lemma deliver1_refines:
  assumes K: "codes_ok K" and "blocking_ctx c" "notified_ok K e" "deliver1 K e c = Some c'"
  shows "blocking_ctx c' \<and> (\<exists>n. session_step K e (session_of K c) (session_of K c') n
    \<and> posts c' = posts c + n)"
proof (cases e)
  case e: (Rx_Ack t buf)
  consider "t = MQTT_CONNACK K" | "t \<noteq> MQTT_CONNACK K" "t = MQTT_SUBACK K"
    | "t \<noteq> MQTT_CONNACK K" "t \<noteq> MQTT_SUBACK K" by blast
  then show ?thesis
  proof cases
    case 1
    then show ?thesis
      using connack_refines [OF K assms(2), of buf c'] assms(4) e session_step.connack [of K buf] by auto
  next
    case 2
    then obtain c1 where c1: "suback_copy buf c = Some c1" "ack_match t c1 = Some c'"
      using assms(2,4) e
      by (auto simp: processNotifyAckCB_def blocking_ctx_def split: Option.bind_splits)
    then have "blocking_ctx c1" "session_of K c1 = session_of K c" "posts c1 = posts c"
      using assms(2) suback_copy_keeps [OF c1(1)] by (auto simp: blocking_ctx_def session_of_def posts_def)
    with ack_match_refines [OF K this(1) _ _ 2(1) c1(2)] assms(3) e show ?thesis by auto
  next
    case 3
    then have "ack_match t c = Some c'"
      using assms(2,4) e by (auto simp: processNotifyAckCB_def blocking_ctx_def)
    with ack_match_refines [OF K assms(2) _ _ 3(1)] assms(3) e show ?thesis by auto
  qed
next
  case e: (Rx_Publish dup retain mqp)
  then have "c' = processPublishRxCB K dup retain mqp c" using assms(4) by simp
  then have "blocking_ctx c'" "posts c' = posts c" "session_of K c' = session_of K c"
    using assms(2) by (auto simp: processPublishRxCB_def blocking_ctx_def posts_def session_of_def)
  then show ?thesis using session_step.published e by fastforce
next
  case e: Rx_Disconn
  then have "blocking_ctx c' \<and> session_of K c' = Disconnected
      \<and> posts c' = posts c + (if session_of K c = Disconnected then 0 else 1)"
    using disconn_refines [OF assms(2)] assms(4) by simp
  then show ?thesis
    using session_step.lost [of "session_of K c" K] session_step.lost_again [of K] e
    by (cases "session_of K c = Disconnected") auto
qed

text \<open>A run of the code is a run of the abstract session.\<close>

lemma deliver_run:
  assumes "codes_ok K" "blocking_ctx c" "list_all (notified_ok K) es" "deliver K es c = Some c'"
  shows "\<exists>n. session_run K es (session_of K c) (session_of K c') n \<and> posts c' = posts c + n
    \<and> blocking_ctx c'"
  using assms(2-)
proof (induction es arbitrary: c)
  case Nil
  then show ?case by simp
next
  case (Cons e es)
  then obtain c1 where c1: "deliver1 K e c = Some c1" "deliver K es c1 = Some c'"
    by (auto split: Option.bind_splits)
  obtain m where m: "session_step K e (session_of K c) (session_of K c1) m" "posts c1 = posts c + m"
      "blocking_ctx c1"
    using deliver1_refines [OF assms(1) Cons.prems(1) _ c1(1)] Cons.prems(2) by auto
  then obtain n where n: "session_run K es (session_of K c1) (session_of K c') n"
      "posts c' = posts c1 + n" "blocking_ctx c'"
    using Cons.IH [OF m(3) _ c1(2)] Cons.prems(2) by auto
  with m show ?case by (metis session_run.Cons add.assoc)
qed

section \<open>Requests\<close>

text \<open>Without an answer the abstract session stays where it is, and nothing is posted.\<close>

fun answers :: "mqtt_codes \<Rightarrow> u8 \<Rightarrow> rx_event \<Rightarrow> bool" where
  "answers K a (Rx_Ack t buf) \<longleftrightarrow> t = a \<or> t = MQTT_CONNACK K"
| "answers K a (Rx_Publish _ _ _) \<longleftrightarrow> False"
| "answers K a Rx_Disconn \<longleftrightarrow> True"

lemma no_answer_step:
  "session_step K e (Waiting a) s n \<Longrightarrow> \<not> answers K a e \<Longrightarrow> s = Waiting a \<and> n = 0"
  by (cases e) (auto elim: session_ackE session_pubE session_lostE)

lemma no_answer_run:
  assumes "session_run K es s s' n" "s = Waiting a" "\<forall>e\<in>set es. \<not> answers K a e"
  shows "s' = Waiting a \<and> n = 0"
  using assms by (induction rule: session_run.induct) (auto dest: no_answer_step)

text \<open>
  The contract of a request that awaits the acknowledgement \<open>a\<close>: it is refused when the client is
  disconnected; otherwise \<open>pre\<close> marks the acknowledgement as awaited and sends, and after the wait
  \<open>fin\<close> leaves the session alone.
\<close>

locale ack_request =
  fixes K :: mqtt_codes
    and a :: u8
    and valid :: bool
    and op :: "int \<Rightarrow> rx_event list \<Rightarrow> rx_event list \<Rightarrow> MQTTClient_Ctx_t \<Rightarrow> (MQTTClient_Ctx_t \<times> int) option"
    and pre :: "MQTTClient_Ctx_t \<Rightarrow> MQTTClient_Ctx_t"
    and fin :: "MQTTClient_Ctx_t \<Rightarrow> MQTTClient_Ctx_t"
  assumes refused: "valid \<Longrightarrow> awaitedAck c = MQTT_DISCONNECT K \<Longrightarrow>
      op sent e1 e2 c = Some (c, MQTT_PACKET_ERR_NOTCONN K)"
    and sends: "valid \<Longrightarrow> awaitedAck c \<noteq> MQTT_DISCONNECT K \<Longrightarrow>
      op sent e1 e2 c = Option.bind (deliver K e1 (pre c)) (\<lambda>c2.
        if sent < 0 then Some (fin (SetCondAwaitedAckLocked a 0 c2), sent)
        else Option.bind (ServerAckLockedWait K e2 c2) (\<lambda>(c3, rc).
               Some (fin c3, if rc \<ge> 0 then 0 else rc)))"
    and pre_law: "awaitedAck (pre c) = a" "ackSyncObj (pre c) = ackSyncObj c"
      "blockingSend (pre c) = blockingSend c"
    and fin_law: "awaitedAck (fin c) = awaitedAck c" "ackSyncObj (fin c) = ackSyncObj c"
      "blockingSend (fin c) = blockingSend c"
begin

lemma outcome:
  assumes "codes_ok K" "valid" "a \<noteq> 0" "a \<noteq> MQTT_DISCONNECT K"
    and "blocking_ctx c" "awaitedAck c \<noteq> MQTT_DISCONNECT K" "0 \<le> sent"
    and "list_all (notified_ok K) (e1 @ e2)" "op sent e1 e2 c = Some (c', r)"
  shows "\<exists>m. session_run K (e1 @ e2) (Waiting a) (session_of K c') m \<and> posts c + m = Suc (posts c')
    \<and> blocking_ctx c' \<and> r = (if session_of K c' = Disconnected then MQTT_PACKET_ERR_NOTCONN K else 0)"
proof -
  obtain c2 where c2: "deliver K e1 (pre c) = Some c2"
    and w: "Option.bind (ServerAckLockedWait K e2 c2) (\<lambda>(c3, rc). Some (fin c3, if rc \<ge> 0 then 0 else rc))
        = Some (c', r)"
    using sends [OF assms(2,6), of sent e1 e2] assms(7,9) by (auto split: Option.bind_splits)
  have "blocking_ctx (pre c)" "posts (pre c) = posts c"
    using assms(5) by (simp_all add: blocking_ctx_def posts_def pre_law)
  moreover have "session_of K (pre c) = Waiting a"
    using assms(3,4) by (simp add: session_of_def pre_law)
  moreover have "list_all (notified_ok K) e1" using assms(8) by simp
  ultimately have b2: "blocking_ctx c2"
    using deliver_run [OF assms(1) _ _ c2] by blast
  then obtain c3 where c3: "ack_wait K e2 c2 = Some c3" "c' = fin c3"
    "r = (if awaitedAck c3 = MQTT_DISCONNECT K then MQTT_PACKET_ERR_NOTCONN K else 0)"
    using w assms(1)
    by (auto simp: ServerAckLockedWait_def blocking_ctx_def codes_ok_def split: Option.bind_splits)
  obtain c4 n where c4: "deliver K e2 c2 = Some c4" "ackSyncObj c4 = Some (Suc n)"
    "c3 = c4\<lparr>ackSyncObj := Some n\<rparr>"
    using c3(1) by (auto simp: ack_wait_def split: Option.bind_splits option.splits nat.splits)
  have "deliver K (e1 @ e2) (pre c) = Some c4" using c2 c4(1) by (simp add: run_append)
  from deliver_run [OF assms(1) \<open>blocking_ctx (pre c)\<close> assms(8) this]
  obtain m where m: "session_run K (e1 @ e2) (Waiting a) (session_of K c4) m" "posts c4 = posts c + m"
    "blocking_ctx c4"
    using \<open>session_of K (pre c) = Waiting a\<close> \<open>posts (pre c) = posts c\<close> by auto
  moreover have "session_of K c' = session_of K c4" "posts c4 = Suc (posts c')" "blocking_ctx c'"
    using c3(2) c4 m(3) by (simp_all add: session_of_def posts_def blocking_ctx_def fin_law)
  moreover have "r = (if session_of K c' = Disconnected then MQTT_PACKET_ERR_NOTCONN K else 0)"
    using c3(2,3) by (simp add: session_of_def fin_law)
  ultimately show ?thesis by metis
qed

lemma needs_answer:
  assumes "codes_ok K" "valid" "a \<noteq> 0" "a \<noteq> MQTT_DISCONNECT K"
    and "blocking_ctx c" "posts c = 0" "awaitedAck c \<noteq> MQTT_DISCONNECT K" "0 \<le> sent"
    and "list_all (notified_ok K) (e1 @ e2)" "op sent e1 e2 c = Some (c', r)"
  shows "\<exists>e\<in>set (e1 @ e2). answers K a e"
proof (rule ccontr)
  assume "\<not> ?thesis"
  moreover obtain m where "session_run K (e1 @ e2) (Waiting a) (session_of K c') m"
    "posts c + m = Suc (posts c')"
    using outcome [OF assms(1-5,7-10)] by blast
  ultimately show False using no_answer_run [OF _ refl, of K "e1 @ e2" a] assms(6) by fastforce
qed

lemma leftover_post:
  assumes "valid" "blockingSend c" "ackSyncObj c = Some (Suc n)"
    and "awaitedAck c \<noteq> MQTT_DISCONNECT K" "a \<noteq> MQTT_DISCONNECT K" "0 \<le> sent"
  shows "\<exists>c'. op sent [] [] c = Some (c', 0) \<and> awaitedAck c' = a \<and> ackSyncObj c' = Some n"
  using assms sends [OF assms(1,4), of sent "[]" "[]"]
  by (simp add: ServerAckLockedWait_def ack_wait_def pre_law fin_law)

end

lemma awaited_acks_length [simp]: "length (awaited_acks K) = 3"
  by (simp add: awaited_acks_def)

definition sub_pre :: "mqtt_codes \<Rightarrow> (string \<times> u8) list \<Rightarrow> MQTTClient_Ctx_t \<Rightarrow> MQTTClient_Ctx_t" where
  "sub_pre K topics c = core (Core_sendSubMsg topics)
     (c\<lparr>awaitedAck := MQTT_SUBACK K,
        subackQos := Some (map snd topics @ replicate (MQTTCLIENT_MAX_SIMULTANEOUS_SUB_TOPICS - length topics) 0)\<rparr>)"

interpretation sub_req: ack_request K "MQTT_SUBACK K"
  "length params \<le> MQTTCLIENT_MAX_SIMULTANEOUS_SUB_TOPICS \<and> sub_topics K params \<noteq> None"
  "MqttClientSub K params" "sub_pre K (the (sub_topics K params))" "\<lambda>c. c\<lparr>subackQos := None\<rparr>"
  for K params
  by unfold_locales
    (auto simp: MqttClientSub_def AwaitedAckSet_def sub_pre_def SetCondAwaitedAckLocked_def Let_def)

interpretation unsub_req: ack_request K "MQTT_UNSUBACK K"
  "length topics \<le> MQTTCLIENT_MAX_SIMULTANEOUS_UNSUB_TOPICS" "MqttClientUnsub K topics"
  "\<lambda>c. core (Core_sendUnsubMsg topics) (c\<lparr>awaitedAck := MQTT_UNSUBACK K\<rparr>)" "\<lambda>c. c"
  for K topics
  by unfold_locales (auto simp: MqttClientUnsub_def AwaitedAckSet_def Let_def)

interpretation send_req: ack_request K "awaited_acks K ! q"
  "0 < q \<and> q < 3 \<and> q < length (MQTTClient_qos K)"
  "MqttClient_send K topic msg q retain"
  "\<lambda>c. core (Core_sendPubMsg topic msg (MQTTClient_qos K ! q) retain)
         (c\<lparr>awaitedAck := awaited_acks K ! q\<rparr>)" "\<lambda>c. c"
  for K q topic msg retain
  by unfold_locales
    (auto simp: MqttClient_send_def AwaitedAckSet_def Let_def intro!: Option.bind_cong [OF refl])

text \<open>The codes of MQTT 3.1.1, and error codes within the range of \<open>int16_t\<close>, for the examples.\<close>

definition std_codes :: mqtt_codes where
  "std_codes =
     \<lparr>MQTT_CONNACK = 2, MQTT_PUBACK = 4, MQTT_PUBCOMP = 7, MQTT_SUBACK = 9, MQTT_UNSUBACK = 11,
      MQTT_DISCONNECT = 14, MQTT_PACKET_ERR_NOTCONN = - 4, MQTT_PACKET_ERR_FNPARAM = - 3,
      MQTT_PACKET_ERR_TIMEOUT = - 2, MQTTClient_qos = [0, 1, 2]\<rparr>"

lemma std_codes_ok: "codes_ok std_codes"
  by (simp add: codes_ok_def std_codes_def MQTTCLIENT_DISCONNECT_CB_def)

definition idle_ctx :: MQTTClient_Ctx_t where
  "idle_ctx =
     \<lparr>clientID = Some ''dev'', usrName = None, usrPwd = None,
      mqttWill = \<lparr>willTopic = None, willMsg = [], willQos = 0, will_retain = False\<rparr>,
      inUse = True, awaitedAck = 0, connAck = 0, ackSyncObj = Some 0, subackQos = None,
      blockingSend = True, connectedState = True, app_log = [], core_log = []\<rparr>"

lemmas ctx_defs = idle_ctx_def std_codes_def blocking_ctx_def posts_def

section \<open>Requests of the code\<close>

text \<open>
  (C18) Refinement: in blocking mode, any sequence of callbacks that the code survives is a run of
  the abstract session, and the acknowledgement semaphore gains exactly its posts.
\<close>

theorem deliver_refines_session:
  assumes "codes_ok K" "blocking_ctx c" "list_all (notified_ok K) es" "deliver K es c = Some c'"
  shows "\<exists>n. session_run K es (session_of K c) (session_of K c') n \<and> posts c' = posts c + n
    \<and> blocking_ctx c'"
  by (rule deliver_run [OF assms])

theorem deliver_refines_session_witness:
  "\<exists>c' n. deliver std_codes [Rx_Disconn, Rx_Disconn] idle_ctx = Some c'
     \<and> session_run std_codes [Rx_Disconn, Rx_Disconn] Idle Disconnected n \<and> posts c' = n"
proof -
  obtain c' where c': "deliver std_codes [Rx_Disconn, Rx_Disconn] idle_ctx = Some c'" "awaitedAck c' = 14"
    by (simp add: ctx_defs processDisconnCB_def ack_post_def)
  have "\<exists>n. session_run std_codes [Rx_Disconn, Rx_Disconn] (session_of std_codes idle_ctx)
      (session_of std_codes c') n \<and> posts c' = posts idle_ctx + n \<and> blocking_ctx c'"
    by (rule deliver_refines_session [OF std_codes_ok _ _ c'(1)]) (simp_all add: ctx_defs)
  with c' show ?thesis
    by (auto simp: session_of_def ctx_defs)
qed



text \<open>
  A blocking publication with QoS 1 or 2 returns only after its PUBACK or PUBCOMP, a CONNACK
  or the loss of the connection; its result is an error exactly when the session is lost.
\<close>

theorem publish_waits_for_answer:
  assumes "codes_ok K" "blocking_ctx c" "posts c = 0" "awaitedAck c \<noteq> MQTT_DISCONNECT K"
    and "q = 1 \<or> q = 2" "0 \<le> sent" "list_all (notified_ok K) (e1 @ e2)"
    and "MqttClient_send K topic msg q retain sent e1 e2 c = Some (c', r)"
  shows "(\<exists>e\<in>set (e1 @ e2). answers K (if q = 1 then MQTT_PUBACK K else MQTT_PUBCOMP K) e)
    \<and> r = (if awaitedAck c' = MQTT_DISCONNECT K then MQTT_PACKET_ERR_NOTCONN K else 0)"
proof -
  have q: "awaited_acks K ! q = (if q = 1 then MQTT_PUBACK K else MQTT_PUBCOMP K)"
    using assms(5) by (auto simp: awaited_acks_def)
  have a: "awaited_acks K ! q \<noteq> 0" "awaited_acks K ! q \<noteq> MQTT_DISCONNECT K"
    using assms(1) by (auto simp: q codes_ok_def)
  have v: "0 < q \<and> q < 3 \<and> q < length (MQTTClient_qos K)"
    using assms(1,5) by (auto simp: codes_ok_def)
  have "session_of K c' = Disconnected \<longleftrightarrow> awaitedAck c' = MQTT_DISCONNECT K"
    by (simp add: session_of_def)
  with send_req.needs_answer [OF assms(1) v a assms(2,3,4,6,7,8)]
    send_req.outcome [OF assms(1) v a assms(2,4,6,7,8)]
  show ?thesis by (auto simp: q)
qed

lemma publish_waits_for_answer_witness:
  "\<exists>c' r. MqttClient_send std_codes ''t'' [1] 1 False 0 [] [Rx_Disconn] idle_ctx = Some (c', r)
    \<and> (\<exists>e\<in>set ([] @ [Rx_Disconn]). answers std_codes (MQTT_PUBACK std_codes) e) \<and> r = - 4"
proof -
  obtain c' r where x: "MqttClient_send std_codes ''t'' [1] 1 False 0 [] [Rx_Disconn] idle_ctx
      = Some (c', r)" "awaitedAck c' = 14"
    by (simp add: MqttClient_send_def awaited_acks_def rd_def AwaitedAckSet_def ServerAckLockedWait_def
        ack_wait_def processDisconnCB_def ack_post_def ctx_defs)
  have "blocking_ctx idle_ctx" "posts idle_ctx = 0" "awaitedAck idle_ctx \<noteq> MQTT_DISCONNECT std_codes"
    "list_all (notified_ok std_codes) ([] @ [Rx_Disconn])"
    by (simp_all add: ctx_defs)
  from publish_waits_for_answer [OF std_codes_ok this(1,2,3) _ _ this(4) x(1)] x show ?thesis
    by (auto simp: std_codes_def)
qed

text \<open>
  While the client is disconnected, a request is refused with \<open>MQTT_PACKET_ERR_NOTCONN\<close>: nothing is
  sent, and the context is unchanged.
\<close>

theorem requests_refused_when_disconnected:
  assumes "awaitedAck c = MQTT_DISCONNECT K" "codes_ok K"
    and "length topics \<le> 4" "length params \<le> 4" "sub_topics K params \<noteq> None" "q < 3"
  shows "MqttClientSub K params sent e1 e2 c = Some (c, MQTT_PACKET_ERR_NOTCONN K)
    \<and> MqttClientUnsub K topics sent e1 e2 c = Some (c, MQTT_PACKET_ERR_NOTCONN K)
    \<and> MqttClient_send K topic msg q retain sent e1 e2 c = Some (c, MQTT_PACKET_ERR_NOTCONN K)"
  using assms sub_req.refused [of params K c] unsub_req.refused [of topics c K]
  by (simp add: mqtt_limits MqttClient_send_def AwaitedAckSet_def)

lemma requests_refused_when_disconnected_witness:
  "MqttClientSub std_codes [(''t'', 1)] 0 [] [Rx_Ack 9 [1]] (idle_ctx\<lparr>awaitedAck := 14\<rparr>)
     = Some (idle_ctx\<lparr>awaitedAck := 14\<rparr>, - 4)"
  using requests_refused_when_disconnected [OF _ std_codes_ok, of "idle_ctx\<lparr>awaitedAck := 14\<rparr>" "[]"
      "[(''t'', 1)]" 0 0 "[]" "[Rx_Ack 9 [1]]"]
  by (simp add: std_codes_def sub_topics_def)

text \<open>
  The SUBACK handler copies the return codes before it looks at what is awaited: once a
  blocking subscription has returned, a SUBACK writes through a pointer to the dead array, and
  one with more than four codes overruns the array at any time.
\<close>

theorem suback_copy_unsafe:
  assumes "blockingSend c" "MQTT_SUBACK K \<noteq> MQTT_CONNACK K" "buf \<noteq> []"
    and "subackQos c = None \<or> (\<exists>q. subackQos c = Some q \<and> length q = 4 \<and> 4 < length buf)"
  shows "processNotifyAckCB K (MQTT_SUBACK K) buf c = None"
  using assms by (auto simp: processNotifyAckCB_def suback_copy_def poke_def)

lemma suback_copy_unsafe_witness:
  "\<exists>c' r. MqttClientSub std_codes [(''t'', 1)] 0 [] [Rx_Ack 9 [1]] idle_ctx = Some (c', r)
    \<and> processNotifyAckCB std_codes (MQTT_SUBACK std_codes) [1] c' = None"
proof -
  obtain c' r where "MqttClientSub std_codes [(''t'', 1)] 0 [] [Rx_Ack 9 [1]] idle_ctx = Some (c', r)"
    "subackQos c' = None" "blockingSend c'"
    by (simp add: MqttClientSub_def mqtt_limits sub_topics_def AwaitedAckSet_def ServerAckLockedWait_def
        ack_wait_def processNotifyAckCB_def suback_copy_def ack_match_def ack_post_def ctx_defs)
  with suback_copy_unsafe [of c' std_codes "[1]"] show ?thesis by (simp add: std_codes_def)
qed

section \<open>Connection\<close>

definition will_ok :: "mqtt_codes \<Rightarrow> int \<Rightarrow> MQTTClient_Ctx_t \<Rightarrow> bool" where
  "will_ok K will c \<longleftrightarrow> willTopic (mqttWill c) = None
     \<or> (willQos (mqttWill c) < length (MQTTClient_qos K) \<and> 0 \<le> will)"

text \<open>The context when the connect message has been sent.\<close>

definition conn_pre :: "mqtt_codes \<Rightarrow> bool \<Rightarrow> u16 \<Rightarrow> MQTTClient_Ctx_t \<Rightarrow> MQTTClient_Ctx_t" where
  "conn_pre K cl ka c =
     (let c1 = core (Core_registerCtxInfo (clientID c) (usrName c) (usrPwd c)) (c\<lparr>connectedState := False\<rparr>);
          c2 = fst (the (connect_will K 0 c1))
      in core (Core_sendConnectMsg cl ka) (c2\<lparr>connAck := 0, awaitedAck := MQTT_CONNACK K\<rparr>))"

lemma conn_pre_simps [simp]:
  "awaitedAck (conn_pre K cl ka c) = MQTT_CONNACK K"
  "connAck (conn_pre K cl ka c) = 0"
  by (simp_all add: conn_pre_def Let_def)

lemma conn_pre_keeps:
  assumes "will_ok K will c"
  shows "ackSyncObj (conn_pre K cl ka c) = ackSyncObj c"
    "blockingSend (conn_pre K cl ka c) = blockingSend c"
    "connectedState (conn_pre K cl ka c) = False"
  using assms by (auto simp: conn_pre_def connect_will_def will_ok_def Let_def split: option.splits)

lemma connect_sends:
  assumes "awaitedAck c = MQTT_DISCONNECT K" "0 \<le> reg" "will_ok K will c"
  shows "connect_attempt K cl ka reg will sent e1 e2 c =
    Option.bind (deliver K e1 (conn_pre K cl ka c)) (\<lambda>c3.
      if sent < 0
      then Some (SetCondAwaitedAckLocked (MQTT_CONNACK K) (MQTT_DISCONNECT K) c3, sent, True)
      else map_option (\<lambda>c4. (case connect_result K sent c4 of (c5, ret) \<Rightarrow> (c5, ret, True)))
             (ack_wait K e2 c3))"
  using assms
  by (cases "willTopic (mqttWill c)")
    (auto simp: connect_attempt_def conn_pre_def connect_will_def will_ok_def Let_def)

text \<open>
  A connection attempt that starts without a leftover post returns only when a CONNACK or the loss of
  the connection has been delivered.
\<close>

theorem connect_waits_for_answer:
  assumes "codes_ok K" "blocking_ctx c" "posts c = 0" "awaitedAck c = MQTT_DISCONNECT K"
    and "0 \<le> reg" "will_ok K will c" "0 \<le> sent" "list_all (notified_ok K) (e1 @ e2)"
    and "connect_attempt K cl ka reg will sent e1 e2 c = Some (c', r, u)"
  shows "\<exists>e\<in>set (e1 @ e2). answers K (MQTT_CONNACK K) e"
proof (rule ccontr)
  assume none: "\<not> ?thesis"
  let ?p = "conn_pre K cl ka c"
  obtain c3 c4 where c3: "deliver K e1 ?p = Some c3" and c4: "ack_wait K e2 c3 = Some c4"
    using connect_sends [OF assms(4,5,6), of cl ka sent e1 e2] assms(7,9)
    by (cases "deliver K e1 ?p"; cases "ack_wait K e2 (the (deliver K e1 ?p))") auto
  obtain c5 n where c5: "deliver K e2 c3 = Some c5" "ackSyncObj c5 = Some (Suc n)"
    using c4 by (auto simp: ack_wait_def split: Option.bind_splits option.splits nat.splits)
  have "deliver K (e1 @ e2) ?p = Some c5" using c3 c5 by (simp add: run_append)
  moreover have "blocking_ctx ?p" "posts ?p = 0"
    using assms(2,3) conn_pre_keeps [OF assms(6)] by (simp_all add: blocking_ctx_def posts_def)
  ultimately obtain m where m: "session_run K (e1 @ e2) (session_of K ?p) (session_of K c5) m" "posts c5 = m"
    using deliver_run [OF assms(1) _ assms(8)] by (metis add_0)
  have "session_of K ?p = Waiting (MQTT_CONNACK K)"
    using assms(1) by (auto simp: session_of_def codes_ok_def)
  then have "m = 0" using no_answer_run [OF m(1)] none by auto
  with m(2) c5(2) show False by (simp add: posts_def)
qed

lemma connack_word_low: "connack_word b0 b1 AND 0xFF = ucast b1"
proof -
  have "take_bit 8 (connack_word b0 b1) = ucast b1"
    by (rule bit_word_eqI) (auto simp: connack_word_def bit_simps dest: bit_imp_le_length)
  then show ?thesis by (simp add: take_bit_eq_mask mask_eq_exp_minus_1)
qed

lemma connack_word_nat: "unat (connack_word b0 b1) = 256 * unat b0 + unat b1"
proof -
  have "push_bit 8 (ucast b0 :: u16) OR ucast b1 = push_bit 8 (ucast b0) + ucast b1"
    by (intro disjunctive_add_eq_or [symmetric] bit_word_eqI)
      (auto simp: bit_simps dest: bit_imp_le_length)
  then have "connack_word b0 b1 = word_of_nat (256 * unat b0 + unat b1)"
    by (simp add: connack_word_def push_bit_eq_mult mult.commute)
  moreover have "256 * unat b0 + unat b1 < 2 ^ LENGTH(16)"
    using unat_u8_lt [of b0] unat_u8_lt [of b1] by simp
  ultimately show ?thesis by (simp only: unat_word_of_nat_small)
qed

lemma set_cur_simps:
  "cur L = Some c \<Longrightarrow> cur (set_cur c' L) = Some c'"
  "mutex (set_cur c' L) = mutex L" "syncRxTx (set_cur c' L) = syncRxTx L"
  "multiSrvConn (set_cur c' L) = multiSrvConn L" "closeContext (set_cur c' L) = closeContext L"
  "waitForMqttClose (set_cur c' L) = waitForMqttClose L" "connectCfg (set_cur c' L) = connectCfg L"
  by (auto simp: cur_def set_cur_def rd_def split: option.splits Option.bind_splits if_splits)

lemma attempt_answered:
  assumes "codes_ok K" "ackSyncObj c = Some 0" "awaitedAck c = MQTT_DISCONNECT K"
    and "0 \<le> reg" "will_ok K will c" "0 \<le> sent"
    and "connect_attempt K cl ka reg will sent [] [Rx_Ack (MQTT_CONNACK K) [b0, b1]] c = Some (c', r, u)"
  shows "connectedState c' = (b1 = 0) \<and> awaitedAck c' = 0 \<and> ackSyncObj c' = Some 0
    \<and> r = (if b1 = 0 then 256 * int (unat b0) else - (256 * int (unat b0) + int (unat b1)))
    \<and> connect_attempt K cl' ka' reg' will' sent' e1 e2 c'
        = Some (c'\<lparr>connectedState := False, connAck := 0\<rparr>, MQTT_PACKET_ERR_NOTCONN K, False)"
proof -
  let ?w = "connack_word b0 b1"
  let ?p = "conn_pre K cl ka c"
  let ?q = "app_call (OPERATION_CB_EVENT (MQTT_CONNACK K) (enc_w ?w)) (?p\<lparr>connAck := ?w, awaitedAck := 0\<rparr>)"
  have w: "ack_wait K [Rx_Ack (MQTT_CONNACK K) [b0, b1]] ?p = Some (?q\<lparr>ackSyncObj := Some 0\<rparr>)"
    using assms(2) conn_pre_keeps [OF assms(5)]
    by (simp add: ack_wait_def processNotifyAckCB_def Let_def ack_post_def rd_def)
  have K0: "MQTT_DISCONNECT K \<noteq> 0" using assms(1) by (auto simp: codes_ok_def)
  have b1: "(ucast b1 :: u16) = 0 \<longleftrightarrow> b1 = 0" by (simp add: word_unat_eq_iff unsigned_ucast_eq take_bit_nat_eq_self unat_u8_lt [THEN order.strict_trans2])
  have res: "(c', r) = connect_result K sent (?q\<lparr>ackSyncObj := Some 0\<rparr>)"
    using connect_sends [OF assms(3,4,5), of cl ka sent "[]" "[Rx_Ack (MQTT_CONNACK K) [b0, b1]]"]
      assms(6,7) w by (auto split: prod.splits)
  then have c': "awaitedAck c' = 0" "ackSyncObj c' = Some 0" "connectedState c' = (b1 = 0)"
      "r = (if b1 = 0 then 256 * int (unat b0) else - (256 * int (unat b0) + int (unat b1)))"
    using K0 by (auto simp: connect_result_def connack_word_low connack_word_nat b1 split: if_splits)
  moreover have "connect_attempt K cl' ka' reg' will' sent' e1 e2 c'
      = Some (c'\<lparr>connectedState := False, connAck := 0\<rparr>, MQTT_PACKET_ERR_NOTCONN K, False)"
    using c'(1) K0 by (simp add: connect_attempt_def Let_def)
  ultimately show ?thesis by blast
qed

lemma int16_shift: "32768 \<le> x \<Longrightarrow> x < 65536 \<Longrightarrow> int16 x = x - 65536" "x < - 32768 \<Longrightarrow> - 65536 \<le> x \<Longrightarrow> int16 x = x + 65536"
proof -
  have shift: "int16 x = int16 (x + 65536 * k)" for x k
  proof -
    have "(word_of_int (x + 65536 * k) :: u16) = word_of_int x + word_of_int 65536 * word_of_int k" by simp
    moreover have "(word_of_int 65536 :: u16) = 0" by simp
    ultimately show ?thesis by (simp only: int16_def mult_zero_left add_0_right)
  qed
  show "32768 \<le> x \<Longrightarrow> x < 65536 \<Longrightarrow> int16 x = x - 65536" using shift [of x "- 1"] by simp
  show "x < - 32768 \<Longrightarrow> - 65536 \<le> x \<Longrightarrow> int16 x = x + 65536" using shift [of x 1] by simp
qed

text \<open>
  (C30) The answer of the broker decides a connection attempt: with return code zero (\<open>b1\<close>) the client is connected, with any
  other code it is not. The result is an \<open>int16_t\<close> of which the acknowledge flags (\<open>b0\<close>) are the high byte: as long
  as these are below 128 - MQTT 3.1.1 only knows 0 and 1 - it is not negative after a success, and the negated code, a negative number,
  after a refusal; from 128 on it wraps around, and a success is reported as an error and a refusal as a success. In all
  cases the session is idle, so that a refused client cannot try again.
\<close>

theorem connect_reports_connack:
  assumes "codes_ok K" "mutex L" "cur L = Some c" "ackSyncObj c = Some 0" "awaitedAck c = MQTT_DISCONNECT K"
    and "0 \<le> reg" "will_ok K will c" "0 \<le> sent"
    and "MQTTClient_connect K reg will sent [] [Rx_Ack (MQTT_CONNACK K) [b0, b1]] L = Some (L', r)"
  shows "\<exists>c'. cur L' = Some c' \<and> connectedState c' = (b1 = 0) \<and> awaitedAck c' = 0 \<and> ackSyncObj c' = Some 0
    \<and> r = (let n = 256 * int (unat b0) + int (unat b1) in
           if unat b0 < 128 then (if b1 = 0 then n else - n) else (if b1 = 0 then n - 65536 else 65536 - n))
    \<and> (0 \<le> r \<longleftrightarrow> (unat b0 < 128) = (b1 = 0))
    \<and> MQTTClient_connect K reg' will' sent' e1 e2 L'
        = Some (set_cur (c'\<lparr>connectedState := False, connAck := 0\<rparr>) L', int16 (MQTT_PACKET_ERR_NOTCONN K))"
proof -
  let ?x = "if b1 = 0 then 256 * int (unat b0) else - (256 * int (unat b0) + int (unat b1))"
  obtain c' x u where a: "connect_attempt K (clean (connectCfg L)) (keepAliveTimeout (connectCfg L)) reg will sent []
      [Rx_Ack (MQTT_CONNACK K) [b0, b1]] c = Some (c', x, u)" "r = int16 x" "cur L' = Some c'" "mutex L'"
    using assms(2,3,9)
    by (auto simp: MQTTClient_connect_def set_cur_simps cur_def set_cur_def rd_def split: Option.bind_splits if_splits option.splits)
  note c' = attempt_answered [OF assms(1,4-8) a(1)]
  obtain n m where n: "unat b0 = n" "unat b1 = m" by simp
  have lt: "n < 256" "m < 256" using unat_u8_lt [of b0] unat_u8_lt [of b1] n by simp_all
  have b1: "b1 = 0 \<longleftrightarrow> m = 0" using n(2) by (metis unat_eq_0)
  have r: "r = int16 (if m = 0 then 256 * int n else - (256 * int n + int m))" using a(2) c' n b1 by simp
  have "r = (if n < 128 then (if m = 0 then 256 * int n + int m else - (256 * int n + int m))
      else (if m = 0 then 256 * int n + int m - 65536 else 65536 - (256 * int n + int m)))"
  proof (cases "n < 128")
    case True
    then have "int16 (if m = 0 then 256 * int n else - (256 * int n + int m)) = (if m = 0 then 256 * int n else - (256 * int n + int m))"
      using lt by (intro int16_id) auto
    then show ?thesis using r True by simp
  next
    case False
    then show ?thesis using r lt by (cases "m = 0") (simp_all add: int16_shift)
  qed
  moreover from this have "0 \<le> r \<longleftrightarrow> (n < 128) = (m = 0)" using lt by auto
  moreover have "MQTTClient_connect K reg' will' sent' e1 e2 L'
      = Some (set_cur (c'\<lparr>connectedState := False, connAck := 0\<rparr>) L', int16 (MQTT_PACKET_ERR_NOTCONN K))"
    using a(3,4) attempt_answered [OF assms(1,4-8) a(1)] by (simp add: MQTTClient_connect_def)
  ultimately show ?thesis
    using a(3) c' b1 by (intro exI [of _ c']) (simp only: n Let_def simp_thms)
qed

text \<open>
  A connection that is lost while the CONNACK is awaited is reported as a success: the routine
  returns what the send returned, although the client is disconnected.
\<close>

theorem connect_lost_reports_success:
  assumes "codes_ok K" "ackSyncObj c = Some 0" "awaitedAck c = MQTT_DISCONNECT K"
    and "0 \<le> reg" "will_ok K will c" "0 \<le> sent"
  shows "\<exists>c'. connect_attempt K cl ka reg will sent [] [Rx_Disconn] c = Some (c', sent, True)
    \<and> awaitedAck c' = MQTT_DISCONNECT K \<and> \<not> connectedState c'"
proof -
  have "MQTT_CONNACK K \<noteq> MQTT_DISCONNECT K" using assms(1) by (auto simp: codes_ok_def)
  then show ?thesis
    using assms conn_pre_keeps [OF assms(5)]
    by (simp add: connect_sends ack_wait_def processDisconnCB_def ack_post_def connect_result_def)
qed

text \<open>
  A loss of the connection outside any request leaves a post in the acknowledgement semaphore. The next
  connection attempt takes it for its CONNACK: without any answer of the broker it returns zero
  and marks the client as connected.
\<close>

theorem leftover_post_fakes_connection:
  assumes "codes_ok K" "awaitedAck c = 0" "ackSyncObj c = Some 0"
    and "0 \<le> reg" "will_ok K will c" "0 \<le> sent"
  shows "\<exists>c1 c2. deliver K [Rx_Disconn] c = Some c1 \<and> awaitedAck c1 = MQTT_DISCONNECT K
    \<and> connect_attempt K cl ka reg will sent [] [] c1 = Some (c2, 0, True)
    \<and> connectedState c2 \<and> awaitedAck c2 = MQTT_CONNACK K"
proof -
  have K: "MQTT_CONNACK K \<noteq> MQTT_DISCONNECT K" "MQTT_DISCONNECT K \<noteq> 0"
    using assms(1) by (auto simp: codes_ok_def)
  let ?c1 = "app_call DISCONNECT_CB_EVENT (c\<lparr>awaitedAck := MQTT_DISCONNECT K, ackSyncObj := Some 1\<rparr>)"
  have d: "deliver K [Rx_Disconn] c = Some ?c1"
    using assms(2,3) K by (simp add: processDisconnCB_def ack_post_def)
  have w: "will_ok K will ?c1" using assms(5) by (simp add: will_ok_def)
  have a: "awaitedAck ?c1 = MQTT_DISCONNECT K" by simp
  have "connect_attempt K cl ka reg will sent [] [] ?c1 =
      Some ((conn_pre K cl ka ?c1)\<lparr>ackSyncObj := Some 0, connectedState := True\<rparr>, 0, True)"
    using connect_sends [OF a assms(4) w, of cl ka sent "[]" "[]"] conn_pre_keeps [OF w] assms(6) K
    by (simp add: ack_wait_def connect_result_def)
  with d show ?thesis by auto
qed

text \<open>A context that has just been created.\<close>

abbreviation fresh_ctx :: MQTTClient_Ctx_t where
  "fresh_ctx \<equiv> idle_ctx\<lparr>awaitedAck := 14, connectedState := False\<rparr>"

lemmas connect_eval = connect_attempt_def connect_will_def Let_def ack_wait_def
  processNotifyAckCB_def ack_post_def ctx_defs rd_def

lemma connect_waits_for_answer_witness:
  "\<exists>c' r u. connect_attempt std_codes True 25 0 0 0 [] [Rx_Ack 2 [0, 0]] fresh_ctx = Some (c', r, u)
    \<and> (\<exists>e\<in>set ([] @ [Rx_Ack 2 [0, 0]]). answers std_codes (MQTT_CONNACK std_codes) e)"
proof -
  obtain c' r u where x: "connect_attempt std_codes True 25 0 0 0 [] [Rx_Ack 2 [0, 0]] fresh_ctx
      = Some (c', r, u)"
    by (cases "connect_attempt std_codes True 25 0 0 0 [] [Rx_Ack 2 [0, 0]] fresh_ctx")
      (auto simp: connect_eval)
  have "blocking_ctx fresh_ctx" "posts fresh_ctx = 0" "awaitedAck fresh_ctx = MQTT_DISCONNECT std_codes"
    "will_ok std_codes 0 fresh_ctx" "list_all (notified_ok std_codes) ([] @ [Rx_Ack 2 [0, 0]])"
    by (simp_all add: ctx_defs will_ok_def)
  from connect_waits_for_answer [OF std_codes_ok this(1,2,3) _ this(4) _ this(5) x] x show ?thesis
    by auto
qed

text \<open>A library with one context that has just been created.\<close>

definition connect_lib :: mqtt_lib where
  "connect_lib = \<lparr>ctxs = [fresh_ctx], clientContext = Some 0, closeContext = False, multiSrvConn = False,
     connectCfg = \<lparr>clean = True, keepAliveTimeout = 25\<rparr>, waitSecs = 0, waitForMqttClose = Some 1, libLock = True,
     syncRxTx = Some 0, mutex = True\<rparr>"

lemma connect_reports_connack_witness:
  "\<exists>L1 c1 L2. MQTTClient_connect std_codes 0 0 0 [] [Rx_Ack 2 [0, 5]] connect_lib = Some (L1, - 5)
    \<and> cur L1 = Some c1 \<and> \<not> connectedState c1
    \<and> MQTTClient_connect std_codes 0 0 0 [] [Rx_Ack 2 [200, 5]] connect_lib = Some (L2, 14331)"
proof -
  have lib: "mutex connect_lib" "cur connect_lib = Some fresh_ctx"
    by (simp_all add: connect_lib_def cur_def rd_def)
  have ctx: "ackSyncObj fresh_ctx = Some 0" "awaitedAck fresh_ctx = MQTT_DISCONNECT std_codes"
    "will_ok std_codes 0 fresh_ctx"
    by (simp_all add: ctx_defs will_ok_def)
  have "\<exists>y. MQTTClient_connect std_codes 0 0 0 [] [Rx_Ack 2 [b, 5]] connect_lib = Some y" for b
  proof -
    have "\<exists>c' r u. connect_attempt std_codes True 25 0 0 0 [] [Rx_Ack 2 [b, 5]] fresh_ctx = Some (c', r, u)"
      by (auto simp: connect_eval split: prod.splits)
    then show ?thesis
      using lib by (auto simp: MQTTClient_connect_def) (auto simp: connect_lib_def)
  qed
  then obtain L1 r1 L2 r2 where
    x: "MQTTClient_connect std_codes 0 0 0 [] [Rx_Ack (MQTT_CONNACK std_codes) [0, 5]] connect_lib = Some (L1, r1)"
    and y: "MQTTClient_connect std_codes 0 0 0 [] [Rx_Ack (MQTT_CONNACK std_codes) [200, 5]] connect_lib = Some (L2, r2)"
    by (simp add: std_codes_def) (metis surj_pair)
  note con = connect_reports_connack [OF std_codes_ok lib ctx(1,2) _ ctx(3) _]
  have "r1 = - 5" "\<exists>c1. cur L1 = Some c1 \<and> \<not> connectedState c1"
    using con [OF _ _ x, where reg' = 0 and will' = 0 and sent' = 0 and ?e1.0 = "[]" and ?e2.0 = "[]"] by (auto simp: Let_def)
  moreover have "r2 = 14331"
    using con [OF _ _ y, where reg' = 0 and will' = 0 and sent' = 0 and ?e1.0 = "[]" and ?e2.0 = "[]"] by (auto simp: Let_def)
  ultimately show ?thesis using x y by (auto simp: std_codes_def)
qed

lemma connect_lost_reports_success_witness:
  "\<exists>c'. connect_attempt std_codes True 25 0 0 3 [] [Rx_Disconn] fresh_ctx = Some (c', 3, True)
    \<and> \<not> connectedState c'"
  using connect_lost_reports_success [OF std_codes_ok, of fresh_ctx 0 0 3 True 25]
  by (auto simp: ctx_defs will_ok_def)

lemma leftover_post_fakes_connection_witness:
  "\<exists>c1 c2. deliver std_codes [Rx_Disconn] idle_ctx = Some c1
    \<and> connect_attempt std_codes True 25 0 0 0 [] [] c1 = Some (c2, 0, True) \<and> connectedState c2"
  using leftover_post_fakes_connection [OF std_codes_ok, of idle_ctx 0 0 0 True 25]
  by (auto simp: ctx_defs will_ok_def)

section \<open>Disconnection\<close>

text \<open>
  Disconnecting a connected client sends one DISCONNECT, waits for the core library to report the
  loss, and leaves the client disconnected with an empty semaphore; disconnecting it again sends nothing.
\<close>

theorem disconnect_then_again:
  assumes "codes_ok K" "ackSyncObj c = Some 0" "awaitedAck c \<noteq> MQTT_DISCONNECT K" "0 \<le> sent"
  shows "\<exists>c'. MQTTClient_disconnect_ctx K sent [] [Rx_Disconn] c = Some (c', 0)
    \<and> core_log c' = core_log c @ [Core_sendDisconn] \<and> app_log c' = app_log c @ [DISCONNECT_CB_EVENT]
    \<and> awaitedAck c' = MQTT_DISCONNECT K \<and> ackSyncObj c' = Some 0 \<and> \<not> connectedState c'
    \<and> MQTTClient_disconnect_ctx K sent e1 e2 c' = Some (c', MQTT_PACKET_ERR_NOTCONN K)"
  using assms
  by (auto simp: MQTTClient_disconnect_ctx_def AwaitedAckSet_def ack_wait_def processDisconnCB_def
      ack_post_def codes_ok_def Let_def)

lemma disconnect_then_again_witness:
  "\<exists>c'. MQTTClient_disconnect_ctx std_codes 0 [] [Rx_Disconn] idle_ctx = Some (c', 0)
    \<and> core_log c' = [Core_sendDisconn] \<and> \<not> connectedState c'"
  using disconnect_then_again [OF std_codes_ok, of idle_ctx 0 "[]" "[]"] by (auto simp: ctx_defs)

section \<open>Creation and deletion\<close>

text \<open>Every system call and library call of a creation succeeds.\<close>

definition env_ok :: "create_env \<Rightarrow> bool" where
  "env_ok ev \<longleftrightarrow> ev_syncRxTx ev \<and> ev_syncRxTx_init ev = 0 \<and> ev_libLock ev \<and> ev_libLock_init ev = 0
     \<and> ev_mutex ev \<and> ev_mutex_init ev = 0 \<and> 0 \<le> ev_initLib ev \<and> ev_registerBuffers ev = 0
     \<and> ev_registerNetSvc ev = 0 \<and> ev_waitClose ev \<and> ev_waitClose_init ev = 0 \<and> ev_ackSync ev
     \<and> ev_ackSync_init ev = 0 \<and> 0 \<le> ev_createCtx ev"

text \<open>The objects of the library after a creation.\<close>

definition created :: "mqtt_codes \<Rightarrow> MQTTClient_Params \<Rightarrow> mqtt_lib \<Rightarrow> bool" where
  "created K p L \<longleftrightarrow> mutex L \<and> libLock L \<and> syncRxTx L = Some 0 \<and> waitForMqttClose L = Some 1
     \<and> \<not> multiSrvConn L \<and> \<not> closeContext L
     \<and> (\<exists>c. cur L = Some c \<and> inUse c \<and> awaitedAck c = MQTT_DISCONNECT K \<and> ackSyncObj c = Some 0
          \<and> blockingSend c = p_blockingSend p \<and> clientID c = p_clientId p \<and> usrName c = None
          \<and> willTopic (mqttWill c) = None \<and> \<not> connectedState c)"

lemma ctx_zero_free [simp]: "\<not> inUse (ctx_zero c)"
  by (simp add: ctx_zero_def)

lemma MQTTClient_create_created:
  assumes "env_ok ev" "ctxs L \<noteq> []" "ctx_nwconn N p \<noteq> None"
  shows "\<exists>L'. MQTTClient_create K N ev p L = (L', Some 1) \<and> created K p L'
    \<and> length (ctxs L') = length (ctxs L)"
proof -
  obtain c cs where cs: "ctxs L = c # cs" using assms(2) by (cases "ctxs L") auto
  obtain o' where "ctx_nwconn N p = Some o'" using assms(3) by auto
  then show ?thesis
    using assms(1) cs
    by (simp add: MQTTClient_create_def MqttClientConfig_def MQTTClient_clientCfg_def env_ok_def
        MqttClientCtxCreate_def Let_def created_def cur_def set_cur_def rd_def)
      (simp add: ctx_zero_def)
qed

text \<open>
  The life of the library: a creation in which every call succeeds yields the handle 1 and a
  disconnected client with all its objects; a deletion that finds no receive task releases them all,
  whatever the core library answers; after it an operation locks a mutex that is gone, and a
  new creation starts from the same state again.
\<close>

theorem create_delete_create:
  assumes "env_ok ev" "ctxs L \<noteq> []" "ctx_nwconn N p \<noteq> None"
    and "MQTTClient_create K N ev p L = (L1, h)"
  shows "h = Some 1 \<and> created K p L1 \<and>
    (\<exists>L2 L3. MQTTClient_delete K h disc deleteCtx 0 exitLib L1 = Some (L2, if exitLib < 0 then - 1 else 0)
      \<and> \<not> mutex L2 \<and> \<not> libLock L2 \<and> syncRxTx L2 = None \<and> waitForMqttClose L2 = None
      \<and> MQTTClient_subscribe K params sent e1 e2 L2 = None
      \<and> MQTTClient_create K N ev p L2 = (L3, Some 1) \<and> created K p L3)"
proof -
  have 1: "h = Some 1" "created K p L1" "length (ctxs L1) = length (ctxs L)"
    using MQTTClient_create_created [OF assms(1-3), of K] assms(4) by auto
  obtain i c where c: "clientContext L1 = Some i" "i < length (ctxs L1)" "cur L1 = Some c"
      "c = ctxs L1 ! i" "\<not> connectedState c"
    using 1(2) by (auto simp: created_def cur_def rd_def split: Option.bind_splits if_splits)
  let ?L2 = "(set_cur (ctx_zero c) (L1\<lparr>closeContext := True\<rparr>))
      \<lparr>syncRxTx := None, waitForMqttClose := None, libLock := False, mutex := False\<rparr>"
  have 2: "MQTTClient_delete K h disc deleteCtx 0 exitLib L1 = Some (?L2, if exitLib < 0 then - 1 else 0)"
    using 1 c by (cases disc)
      (simp add: MQTTClient_delete_def created_def MqttClientCtxDelete_def cur_def set_cur_def
        delete_wait_def sem_dec_def Let_def)
  have "MQTTClient_subscribe K params sent e1 e2 ?L2 = None"
    by (simp add: MQTTClient_subscribe_def on_ctx_def)
  moreover have "ctxs ?L2 \<noteq> []"
    using 1(3) assms(2) c by (auto simp: set_cur_def)
  ultimately show ?thesis
    using 1 2 MQTTClient_create_created [OF assms(1) \<open>ctxs ?L2 \<noteq> []\<close> assms(3), of K]
    by (auto simp: set_cur_def c)
qed

definition env_example :: create_env where
  "env_example = \<lparr>ev_syncRxTx = True, ev_syncRxTx_init = 0, ev_libLock = True, ev_libLock_init = 0,
     ev_mutex = True, ev_mutex_init = 0, ev_initLib = 0, ev_registerBuffers = 0, ev_registerNetSvc = 0,
     ev_waitClose = True, ev_waitClose_init = 0, ev_ackSync = True, ev_ackSync_init = 0, ev_createCtx = 0\<rparr>"

definition params_example :: MQTTClient_Params where
  "params_example = \<lparr>p_clientId = Some ''dev'', p_mqttMode31 = False, p_blockingSend = True,
     p_netconnFlags = 0, p_cipher = False, p_nFiles = 0, p_serverAddr = ''192.168.117.19'', p_port = 1883\<rparr>"

definition lib_example :: mqtt_lib where
  "lib_example = \<lparr>ctxs = replicate 4 (ctx_zero idle_ctx), clientContext = None, closeContext = False,
     multiSrvConn = False, connectCfg = \<lparr>clean = True, keepAliveTimeout = 25\<rparr>, waitSecs = 0,
     waitForMqttClose = None, libLock = False, syncRxTx = None, mutex = False\<rparr>"

lemma create_delete_create_witness:
  "\<exists>L1 L2 L3. MQTTClient_create std_codes (netconn_opts.make 1 2 4) env_example params_example lib_example
      = (L1, Some 1)
    \<and> MQTTClient_delete std_codes (Some 1) (0, [], []) 0 0 0 L1 = Some (L2, 0) \<and> \<not> mutex L2
    \<and> MQTTClient_create std_codes (netconn_opts.make 1 2 4) env_example params_example L2 = (L3, Some 1)"
proof -
  obtain L1 h where x: "MQTTClient_create std_codes (netconn_opts.make 1 2 4) env_example params_example
      lib_example = (L1, h)" by (metis surj_pair)
  have "env_ok env_example" "ctxs lib_example \<noteq> []"
    "ctx_nwconn (netconn_opts.make 1 2 4) params_example \<noteq> None"
    by (simp_all add: env_ok_def env_example_def lib_example_def ctx_nwconn_def params_example_def
        netconn_opts.make_def)
  from create_delete_create [OF this x, where disc = "(0, [], [])" and deleteCtx = 0 and exitLib = 0
      and params = "[]" and sent = 0 and ?e1.0 = "[]" and ?e2.0 = "[]"] x
  show ?thesis by auto
qed

text \<open>
  The receive task ends exactly when a turn of the core library fails other than by a timeout or the
  deletion is announced; it then posts the semaphore on which the deletion waits.
\<close>

theorem receive_task_ends:
  assumes "waitForMqttClose L = Some (Suc n)" "syncRxTx L = Some (Suc s)" "\<not> multiSrvConn L"
  shows "MQTTClient_run K turns L =
    (if \<exists>t\<in>set turns. snd t \<or> (fst t < 0 \<and> fst t \<noteq> MQTT_PACKET_ERR_TIMEOUT K)
     then Some (L\<lparr>waitForMqttClose := Some (Suc n), syncRxTx := Some s\<rparr>, 0) else None)"
proof -
  have "(run_loop K turns = None) = (\<forall>t\<in>set turns. \<not> run_stops K t)"
    by (induction turns) auto
  then show ?thesis
    using assms by (cases "run_loop K turns") (auto simp: MQTTClient_run_def sem_dec_def run_stops_def)
qed

lemma receive_task_ends_witness:
  "\<exists>L'. MQTTClient_run std_codes [(0, False), (- 2, False), (- 7, False)]
      (lib_example\<lparr>waitForMqttClose := Some 1, syncRxTx := Some 1\<rparr>) = Some (L', 0)"
  using receive_task_ends [of "lib_example\<lparr>waitForMqttClose := Some 1, syncRxTx := Some 1\<rparr>" 0 0 std_codes
      "[(0, False), (- 2, False), (- 7, False)]"]
  by (simp add: lib_example_def std_codes_def)

end
