(* ===== verification/Mqtt_Stack.thy ===== *)
theory Mqtt_Stack
  imports Mqtt_Session Mqtt_App_Props
begin

text \<open>
  The MQTT stack: the module \<open>MQTT_IF\<close> (theory \<open>Mqtt_If\<close>) on top of the client library (theory \<open>Mqtt_Client\<close>), below the
  application (theory \<open>Mqtt_App\<close>). Where those theories take the results of the layer below as arguments, an operation here
  calls it: the library computes the result, and what it reports to its application callback goes into the queue
  of the module. The results of the core protocol library and what the broker sends remain arguments.

  The callbacks that arrive while an operation waits are delivered before it returns; the application thread, which
  handles them, runs afterwards. This is the order of the code where the operation holds the mutex of the module
  (connection, subscription) or is itself one of the application thread (renewal).
\<close>

section \<open>Configuration\<close>

text \<open>What the SDK defines: codes, network flags; what the device is; the spare bytes behind the arrays of a publication.\<close>

record mqtt_world =
  w_codes :: mqtt_codes
  w_ops :: op_codes
  w_net :: netconn_opts
  w_ip4 :: u32
  w_mac :: "u8 list"
  w_slack :: nat
  w_junk :: "u8 list"

definition mqttWillParams :: MQTTClient_Will where
  "mqttWillParams = \<lparr>willTopic = Some ''cc32xx_will_topic'', willMsg = ''will_msg_works'', willQos = 0, will_retain = False\<rparr>"

definition mqtt_client_params :: "string \<Rightarrow> MQTT_IF_ClientParams_t" where
  "mqtt_client_params client_id =
     \<lparr>cp_clientID = Some client_id, cp_username = None, cp_password = None, cp_keepaliveTime = 65535,
      cp_cleanConnect = True, cp_mqttMode31 = True, cp_blockingSend = True, cp_willParams = Some mqttWillParams\<rparr>"

text \<open>\<open>clientParams\<close> of \<open>MQTT_IF_Connect\<close>, with the connection parameters \<open>mqtt_connection_params\<close>.\<close>

definition mqtt_connection_params :: "mqtt_world \<Rightarrow> MQTT_IF_ClientParams_t \<Rightarrow> MQTTClient_Params" where
  "mqtt_connection_params W p =
     \<lparr>p_clientId = cp_clientID p, p_mqttMode31 = cp_mqttMode31 p, p_blockingSend = cp_blockingSend p,
      p_netconnFlags = w_ip4 W, p_cipher = False, p_nFiles = 0, p_serverAddr = ''192.168.117.19'', p_port = 1883\<rparr>"

section \<open>State\<close>

record mqtt_stack =
  st_if :: mqttContext
  st_lib :: mqtt_lib
  st_connected :: bool
  st_dev :: u16

text \<open>The callbacks that the library has made so far.\<close>

definition app_events :: "mqtt_lib \<Rightarrow> app_event list" where
  "app_events L = (case cur L of None \<Rightarrow> [] | Some c \<Rightarrow> app_log c)"

text \<open>A call of the library, whose callbacks go into the queue; and a call of the module.\<close>

definition lib_call ::
    "mqtt_world \<Rightarrow> (mqtt_lib \<Rightarrow> (mqtt_lib \<times> int) option) \<Rightarrow> mqtt_stack \<Rightarrow> (mqtt_stack \<times> int) option" where
  "lib_call W f s =
     do { (L, r) \<leftarrow> f (st_lib s);
          q \<leftarrow> run (MQTTClientCallback (w_ops W)) (drop (length (app_events (st_lib s))) (app_events L)) (st_if s);
          Some (s\<lparr>st_if := q, st_lib := L\<rparr>, r) }"

definition if_call :: "(mqttContext \<Rightarrow> if_result) \<Rightarrow> mqtt_stack \<Rightarrow> (mqtt_stack \<times> int) option" where
  "if_call g s = do { (q, r) \<leftarrow> g (st_if s); Some (s\<lparr>st_if := q\<rparr>, r) }"

text \<open>An operation of the module that calls the library when it is connected.\<close>

definition connected_call ::
    "mqtt_world \<Rightarrow> (mqtt_lib \<Rightarrow> (mqtt_lib \<times> int) option) \<Rightarrow> (int \<Rightarrow> mqttContext \<Rightarrow> if_result) \<Rightarrow>
     mqtt_stack \<Rightarrow> (mqtt_stack \<times> int) option" where
  "connected_call W f g s =
     (if moduleState (st_if s) = MQTT_STATE_CONNECTED
      then do { (s1, r) \<leftarrow> lib_call W f s; if_call (g r) s1 }
      else if_call (g 0) s)"

text \<open>The result of sending and the callbacks before and after it, as the operations of the library take them.\<close>

type_synonym exchange = "int \<times> rx_event list \<times> rx_event list"

section \<open>Operations\<close>

definition stack_subscribe ::
    "mqtt_world \<Rightarrow> nat option \<Rightarrow> bool \<Rightarrow> exchange \<Rightarrow> string \<Rightarrow> nat \<Rightarrow> nat \<Rightarrow> mqtt_stack \<Rightarrow> (mqtt_stack \<times> int) option" where
  "stack_subscribe W node_addr topic_ok x topic qos cb =
     (case x of (sent, e1, e2) \<Rightarrow>
       connected_call W
         (if node_addr \<noteq> None \<and> topic_ok then MQTTClient_subscribe (w_codes W) [(topic, qos)] sent e1 e2
          else (\<lambda>L. Some (L, 0)))
         (\<lambda>r. MQTT_IF_Subscribe node_addr topic_ok r topic qos cb))"

definition stack_unsubscribe ::
    "mqtt_world \<Rightarrow> exchange \<Rightarrow> string \<Rightarrow> mqtt_stack \<Rightarrow> (mqtt_stack \<times> int) option" where
  "stack_unsubscribe W x topic =
     (case x of (sent, e1, e2) \<Rightarrow>
       connected_call W (MQTTClient_unsubscribe (w_codes W) [topic] sent e1 e2) (\<lambda>r. MQTT_IF_Unsubscribe r topic))"

definition stack_disconnect :: "mqtt_world \<Rightarrow> exchange \<Rightarrow> mqtt_stack \<Rightarrow> (mqtt_stack \<times> int) option" where
  "stack_disconnect W x =
     (case x of (sent, e1, e2) \<Rightarrow>
       connected_call W (MQTTClient_disconnect (w_codes W) sent e1 e2) MQTT_IF_Disconnect)"

text \<open>A publication of the application, under the topic that \<open>mqtt_publish\<close> builds; the quality of service is 0.\<close>

definition stack_publish ::
    "mqtt_world \<Rightarrow> exchange \<Rightarrow> u16 \<Rightarrow> u8 list \<Rightarrow> mqtt_stack \<Rightarrow> (mqtt_stack \<times> int) option" where
  "stack_publish W x type_publish payload s =
     (case x of (sent, e1, e2) \<Rightarrow>
       connected_call W
         (MQTTClient_publish (w_codes W) (publish_topic type_publish (st_dev s)) payload 0 False sent e1 e2)
         (\<lambda>r. mqtt_publish (w_slack W) (st_dev s) r type_publish payload) s)"

text \<open>A publication cut where it holds no lock: the look at the state of the module, and the call of the library.\<close>

definition publish_check :: "mqtt_stack \<Rightarrow> (mqtt_stack \<times> bool) option" where
  "publish_check s =
     do { q1 \<leftarrow> lock (st_if s); q2 \<leftarrow> unlock q1; Some (s\<lparr>st_if := q2\<rparr>, moduleState q1 = MQTT_STATE_CONNECTED) }"

definition publish_call ::
    "mqtt_world \<Rightarrow> exchange \<Rightarrow> string \<Rightarrow> u8 list \<Rightarrow> mqtt_stack \<Rightarrow> (mqtt_stack \<times> int) option" where
  "publish_call W x topic payload s =
     (case x of (sent, e1, e2) \<Rightarrow> lib_call W (MQTTClient_publish (w_codes W) topic payload 0 False sent e1 e2) s)"

text \<open>
  Connection: \<open>reg\<close> and \<open>will\<close> are the results of the registrations in the core library, \<open>thread_ret\<close> that of the creation
  of the context thread.
\<close>

record connect_env =
  co_create :: create_env
  co_thread :: int
  co_reg :: int
  co_will :: int
  co_exchange :: exchange

definition stack_connect ::
    "mqtt_world \<Rightarrow> connect_env \<Rightarrow> MQTT_IF_ClientParams_t \<Rightarrow> mqtt_stack \<Rightarrow> (mqtt_stack \<times> int) option" where
  "stack_connect W e p s =
     (if moduleState (st_if s) \<noteq> MQTT_STATE_INITIALIZED then if_call (MQTT_IF_Connect None 0 0) s
      else
        let (L1, h) = MQTTClient_create (w_codes W) (w_net W) (co_create e) (mqtt_connection_params W p) (st_lib s);
            s1 = s\<lparr>st_lib := L1\<rparr>; (sent, e1, e2) = co_exchange e
        in if h = None \<or> co_thread e \<noteq> 0 then if_call (MQTT_IF_Connect h (co_thread e) 0) s1
           else do { L2 \<leftarrow> run (\<lambda>o1 L. map_option fst (MQTTClient_set o1 L)) (connect_options p) L1;
                     (s2, r) \<leftarrow> lib_call W (MQTTClient_connect (w_codes W) (co_reg e) (co_will e) sent e1 e2)
                                  (s1\<lparr>st_lib := L2\<rparr>);
                     if_call (MQTT_IF_Connect h 0 r) s2 })"

section \<open>The threads of the module\<close>

text \<open>The renewal of the subscriptions: one exchange with the broker for each node that is visited.\<close>

fun stack_resub ::
    "mqtt_world \<Rightarrow> exchange list \<Rightarrow> nat option \<Rightarrow> nat option \<Rightarrow> mqtt_stack \<Rightarrow> mqtt_stack option" where
  "stack_resub W acks None prev s = Some s"
| "stack_resub W [] (Some node) prev s = None"
| "stack_resub W ((sent, e1, e2) # acks) (Some node) prev s =
     do { n \<leftarrow> nodes (st_if s) node;
          (s1, ret) \<leftarrow> lib_call W (MQTTClient_subscribe (w_codes W) [(n_topic n, n_qos n)] sent e1 e2) s;
          if ret < 0
          then do { (q1, node') \<leftarrow> resub_remove node n prev (st_if s1);
                    q2 \<leftarrow> free_node node q1;
                    stack_resub W acks node' prev (s1\<lparr>st_if := q2\<rparr>) }
          else stack_resub W acks (n_next n) (Some node) s1 }"

definition stack_handle :: "mqtt_world \<Rightarrow> exchange list \<Rightarrow> msgQueue_elem \<Rightarrow> mqtt_stack \<Rightarrow> mqtt_stack option" where
  "stack_handle W acks q s =
     (if q_event q = MQTT_EVENT_CONNACK
      then do { q1 \<leftarrow> lock (st_if s);
                s2 \<leftarrow> stack_resub W acks (head q1) None (s\<lparr>st_if := q1\<rparr>);
                q3 \<leftarrow> unlock (st_if s2);
                q4 \<leftarrow> call_event MQTT_EVENT_CONNACK q3;
                Some (s2\<lparr>st_if := q4\<rparr>) }
      else do { (q1, fin) \<leftarrow> app_handle [] q (st_if s); Some (s\<lparr>st_if := q1\<rparr>) })"

text \<open>One turn of the application thread; the callbacks of the application change the flag and the device number.\<close>

definition stack_app :: "mqtt_world \<Rightarrow> exchange list \<Rightarrow> mqtt_stack \<Rightarrow> mqtt_stack option" where
  "stack_app W acks s =
     (case msgQueue (st_if s) of
        [] \<Rightarrow> Some s
      | q # qs \<Rightarrow>
          do { s1 \<leftarrow> stack_handle W acks q (s\<lparr>st_if := (st_if s)\<lparr>msgQueue := qs\<rparr>\<rparr>);
               let cs = drop (length (cb_calls (st_if s))) (cb_calls (st_if s1));
               dev \<leftarrow> dev_after (w_mac W) cs (st_dev s1);
               Some (s1\<lparr>st_connected := connected_after cs (st_connected s1), st_dev := dev\<rparr>) })"

text \<open>A callback of the core library in the receive task, and the end of the thread that runs the task.\<close>

definition stack_rx :: "mqtt_world \<Rightarrow> rx_event \<Rightarrow> mqtt_stack \<Rightarrow> mqtt_stack option" where
  "stack_rx W e s =
     map_option fst (lib_call W (on_ctx (\<lambda>c. map_option (\<lambda>c'. (c', 0)) (deliver1 (w_codes W) e c))) s)"

record context_env =
  ce_turns :: "(int \<times> bool) list"
  ce_disc :: exchange
  ce_delete :: int
  ce_posts :: nat
  ce_exit :: int

definition stack_context :: "mqtt_world \<Rightarrow> context_env \<Rightarrow> mqtt_stack \<Rightarrow> mqtt_stack option" where
  "stack_context W e s =
     do { (s0, r0) \<leftarrow> lib_call W (MQTTClient_run (w_codes W) (ce_turns e)) s;
          q1 \<leftarrow> lock (st_if s0);
          (s1, r1) \<leftarrow> lib_call W (MQTTClient_delete (w_codes W) (mqttClient q1) (ce_disc e) (ce_delete e) (ce_posts e) (ce_exit e))
                        (s0\<lparr>st_if := q1\<rparr>);
          q2 \<leftarrow> unlock ((st_if s1)\<lparr>moduleState := MQTT_STATE_INITIALIZED\<rparr>);
          Some (s1\<lparr>st_if := q2\<rparr>) }"

datatype stack_event = St_rx rx_event | St_app "exchange list" | St_context context_env

fun stack_step :: "mqtt_world \<Rightarrow> stack_event \<Rightarrow> mqtt_stack \<Rightarrow> mqtt_stack option" where
  "stack_step W (St_rx e) s = stack_rx W e s"
| "stack_step W (St_app acks) s = stack_app W acks s"
| "stack_step W (St_context e) s = stack_context W e s"

section \<open>The start of the application\<close>

text \<open>
  The wait of \<open>mqtt_connect\<close> for the flag: each element of the list is what the other threads do during one pause.
  \<open>None\<close>: it still waits.
\<close>

fun wait_flag :: "mqtt_world \<Rightarrow> stack_event list list \<Rightarrow> mqtt_stack \<Rightarrow> mqtt_stack option" where
  "wait_flag W pauses s =
     (if st_connected s then Some s
      else case pauses of [] \<Rightarrow> None | es # ps \<Rightarrow> do { s' \<leftarrow> run (stack_step W) es s; wait_flag W ps s' })"

declare wait_flag.simps [simp del]

definition stack_mqtt_connect ::
    "mqtt_world \<Rightarrow> connect_env \<Rightarrow> string \<Rightarrow> stack_event list list \<Rightarrow> mqtt_stack \<Rightarrow> mqtt_stack option" where
  "stack_mqtt_connect W e client_id pauses s =
     do { (s1, handle) \<leftarrow> stack_connect W e (mqtt_client_params client_id) s; wait_flag W pauses s1 }"

text \<open>The loop of \<open>ask_for_id\<close>: a request and a pause, until the number is another than 255.\<close>

fun stack_ask :: "mqtt_world \<Rightarrow> u8 list \<Rightarrow> (exchange \<times> stack_event list) list \<Rightarrow> mqtt_stack \<Rightarrow> mqtt_stack option" where
  "stack_ask W msg polls s =
     (if st_dev s \<noteq> 255 then Some s
      else case polls of
        [] \<Rightarrow> None
      | (x, es) # ps \<Rightarrow>
          do { (s1, r) \<leftarrow> stack_publish W x TYPE_CMD_DEFAULT_ID (take ready_cmd_len msg) s;
               s2 \<leftarrow> run (stack_step W) es s1;
               stack_ask W msg ps s2 })"

declare stack_ask.simps [simp del]

definition stack_ask_for_id ::
    "mqtt_world \<Rightarrow> (exchange \<times> stack_event list) list \<Rightarrow> mqtt_stack \<Rightarrow> mqtt_stack option" where
  "stack_ask_for_id W polls s = stack_ask W (enc_msg_cmd (ready_message (w_mac W) (w_junk W))) polls (s\<lparr>st_dev := 255\<rparr>)"

text \<open>The calls of \<open>mainThread\<close>: \<open>mqtt_init\<close>, \<open>mqtt_subscribe\<close>, \<open>mqtt_connect\<close>, \<open>ask_for_id\<close>; \<open>a\<close> is the address of the new node.\<close>

definition stack_start ::
    "mqtt_world \<Rightarrow> int \<Rightarrow> nat \<Rightarrow> connect_env \<Rightarrow> string \<Rightarrow> stack_event list list \<Rightarrow> (exchange \<times> stack_event list) list \<Rightarrow>
     mqtt_stack \<Rightarrow> mqtt_stack option" where
  "stack_start W mq a e client_id pauses polls s =
     do { (s1, r1) \<leftarrow> if_call (mqtt_init True 0 mq 0) s;
          (s2, r2) \<leftarrow> stack_subscribe W (Some a) True (0, [], []) topic_1 0 0 s1;
          s3 \<leftarrow> stack_mqtt_connect W e client_id pauses s2;
          stack_ask_for_id W polls s3 }"

end
