(* ===== verification/Mqtt_Stack_Inv.thy ===== *)
theory Mqtt_Stack_Inv
  imports Mqtt_Stack
begin

text \<open>
  The composed MQTT stack refines the module: what the library does to the module are callbacks, and a connected module
  always has a client. The contract of the operations of the library is the locale \<open>client_op\<close>, interpreted on each.
\<close>

section \<open>Callbacks into the queue\<close>

fun cb_elem :: "op_codes \<Rightarrow> app_event \<Rightarrow> msgQueue_elem option" where
  "cb_elem P (OPERATION_CB_EVENT t data) = map_option event_elem (operation_event P t)"
| "cb_elem P (RECV_CB_EVENT m data) =
     Some \<lparr>q_event = MQTT_EVENT_RECV, q_topic = md_topic m, q_payload = data @ [0], q_qos = md_qos m\<rparr>"
| "cb_elem P DISCONNECT_CB_EVENT = Some (event_elem MQTT_EVENT_SERVER_DISCONNECT)"

lemma callback_elem: "MQTTClientCallback P e q = Option.bind (cb_elem P e) (\<lambda>x. mq_send x q)"
  by (cases e) (auto simp: map_option_case split: option.splits)

text \<open>Callbacks append their messages, as long as there is room for ten.\<close>

lemma run_callbacks_iff:
  "run (MQTTClientCallback P) evs q = Some q' \<longleftrightarrow>
     (\<exists>xs. those (map (cb_elem P) evs) = Some xs \<and> (evs = [] \<or> length (msgQueue q) + length evs \<le> MQ_MAXMSG)
        \<and> q' = q\<lparr>msgQueue := msgQueue q @ xs\<rparr>)"
proof (induction evs arbitrary: q)
  case (Cons e evs)
  show ?case
  proof (cases "cb_elem P e")
    case (Some x)
    then show ?thesis using Cons.IH [of "q\<lparr>msgQueue := msgQueue q @ [x]\<rparr>"]
      by (auto simp: callback_elem mq_send_def map_option_case split: option.splits)
  qed (simp add: callback_elem)
qed auto

lemma those_length: "those xs = Some ys \<Longrightarrow> length ys = length xs"
  by (induction xs arbitrary: ys) (auto split: option.splits)

section \<open>Calls of the library\<close>

declare set_cur_simps [simp]

lemma app_events_cur [simp]: "cur L = Some c \<Longrightarrow> app_events L = app_log c"
  by (simp add: app_events_def)

lemma lib_call_ctx:
  assumes "mutex (st_lib s)" "cur (st_lib s) = Some c" "f c = Some (c', r)" "app_log c' = app_log c @ evs"
    and "run (MQTTClientCallback (w_ops W)) evs (st_if s) = Some q"
  shows "lib_call W (on_ctx f) s = Some (s\<lparr>st_if := q, st_lib := set_cur c' (st_lib s)\<rparr>, int16 r)"
  using assms by (simp add: lib_call_def on_ctx_def)

section \<open>What the calls of the library report\<close>

text \<open>The callbacks of the application that a callback of the core library can cause, and the message it becomes.\<close>

fun causes :: "rx_event \<Rightarrow> app_event \<Rightarrow> bool" where
  "causes (Rx_Ack t buf) x \<longleftrightarrow> (\<exists>data. x = OPERATION_CB_EVENT t data)"
| "causes (Rx_Publish dup retain mqp) x \<longleftrightarrow> (\<exists>m. x = RECV_CB_EVENT m (pub_payload mqp))"
| "causes Rx_Disconn x \<longleftrightarrow> x = DISCONNECT_CB_EVENT"

fun brings :: "op_codes \<Rightarrow> rx_event \<Rightarrow> msgQueue_elem \<Rightarrow> bool" where
  "brings P (Rx_Ack t buf) x \<longleftrightarrow> operation_event P t = Some (q_event x)"
| "brings P (Rx_Publish dup retain mqp) x \<longleftrightarrow> q_event x = MQTT_EVENT_RECV \<and> q_payload x = pub_payload mqp @ [0]"
| "brings P Rx_Disconn x \<longleftrightarrow> q_event x = MQTT_EVENT_SERVER_DISCONNECT"

text \<open>The message that an event can put into the queue.\<close>

definition arrives :: "op_codes \<Rightarrow> rx_event \<Rightarrow> msgQueue_elem \<Rightarrow> bool" where
  "arrives P e y \<longleftrightarrow> (\<exists>x. causes e x \<and> cb_elem P x = Some y)"

lemma arrives_brings: "arrives P e y \<Longrightarrow> brings P e y"
  by (cases e) (auto simp: arrives_def event_elem_def)

text \<open>The log has grown by callbacks that the events \<open>es\<close> caused, at most one for each.\<close>

definition log_grows :: "rx_event list \<Rightarrow> app_event list \<Rightarrow> app_event list \<Rightarrow> bool" where
  "log_grows es xs ys \<longleftrightarrow> (\<exists>evs. ys = xs @ evs \<and> length evs \<le> length es \<and> (\<forall>x\<in>set evs. \<exists>e\<in>set es. causes e x))"

lemma log_grows_refl [simp]: "log_grows es xs xs"
  by (simp add: log_grows_def)

lemma log_grows_trans:
  assumes "log_grows es xs ys" "log_grows fs ys zs"
  shows "log_grows (es @ fs) xs zs"
proof -
  obtain a b where "ys = xs @ a" "length a \<le> length es" "\<forall>x\<in>set a. \<exists>e\<in>set es. causes e x"
    "zs = ys @ b" "length b \<le> length fs" "\<forall>x\<in>set b. \<exists>e\<in>set fs. causes e x"
    using assms by (auto simp: log_grows_def)
  then show ?thesis unfolding log_grows_def by (intro exI [of _ "a @ b"]) auto
qed

lemma ack_post_log: "ack_post c = Some c' \<Longrightarrow> app_log c' = app_log c"
  by (auto simp: ack_post_def)

lemma ack_match_log: "ack_match t c = Some c' \<Longrightarrow> app_log c' = app_log c"
  by (auto simp: ack_match_def dest: ack_post_log split: if_splits)

lemma suback_copy_log: "suback_copy buf c = Some c' \<Longrightarrow> app_log c' = app_log c"
  by (auto simp: suback_copy_def split: if_splits Option.bind_splits)

lemma deliver1_log:
  assumes "deliver1 K e c = Some c'"
  shows "log_grows [e] (app_log c) (app_log c')"
proof (cases e)
  case (Rx_Ack t buf)
  then show ?thesis
    using assms
    by (auto simp: processNotifyAckCB_def Let_def log_grows_def split: if_splits Option.bind_splits
        dest!: ack_post_log ack_match_log suback_copy_log)
next
  case (Rx_Publish dup retain mqp)
  then show ?thesis using assms by (auto simp: processPublishRxCB_def log_grows_def)
next
  case Rx_Disconn
  then show ?thesis
    using assms by (auto simp: processDisconnCB_def log_grows_def split: if_splits dest!: ack_post_log)
qed

lemma deliver_log: "deliver K es c = Some c' \<Longrightarrow> log_grows es (app_log c) (app_log c')"
proof (induction es arbitrary: c)
  case (Cons e es)
  then obtain c1 where "deliver1 K e c = Some c1" "deliver K es c1 = Some c'"
    by (auto split: Option.bind_splits)
  then show ?case using log_grows_trans [OF deliver1_log Cons.IH] by fastforce
qed simp

lemma ack_wait_log: "ack_wait K es c = Some c' \<Longrightarrow> log_grows es (app_log c) (app_log c')"
  by (auto simp: ack_wait_def dest!: deliver_log split: Option.bind_splits option.splits nat.splits)

lemma log_grows_more: "log_grows es xs ys \<Longrightarrow> log_grows (es @ fs) xs ys"
  using log_grows_trans [of es xs ys fs ys] by simp

lemma locked_wait_log: "ServerAckLockedWait K es c = Some (c', r) \<Longrightarrow> log_grows es (app_log c) (app_log c')"
  by (auto simp: ServerAckLockedWait_def dest!: ack_wait_log split: if_splits)

lemmas log_steps = deliver_log ack_wait_log locked_wait_log
lemmas log_keeps = AwaitedAckSet_def SetCondAwaitedAckLocked_def

lemma sub_log: "MqttClientSub K params sent e1 e2 c = Some (c', r) \<Longrightarrow> log_grows (e1 @ e2) (app_log c) (app_log c')"
  by (auto simp: MqttClientSub_def log_keeps Let_def split: if_splits Option.bind_splits
      dest!: log_steps intro: log_grows_trans log_grows_more)

lemma unsub_log: "MqttClientUnsub K ts sent e1 e2 c = Some (c', r) \<Longrightarrow> log_grows (e1 @ e2) (app_log c) (app_log c')"
  by (auto simp: MqttClientUnsub_def log_keeps Let_def split: if_splits Option.bind_splits
      dest!: log_steps intro: log_grows_trans log_grows_more)

lemma send_log: "MqttClient_send K t m q ret sent e1 e2 c = Some (c', r) \<Longrightarrow> log_grows (e1 @ e2) (app_log c) (app_log c')"
  by (auto simp: MqttClient_send_def log_keeps Let_def split: if_splits Option.bind_splits
      dest!: log_steps intro: log_grows_trans log_grows_more)

lemma disconnect_log:
  "MQTTClient_disconnect_ctx K sent e1 e2 c = Some (c', r) \<Longrightarrow> log_grows (e1 @ e2) (app_log c) (app_log c')"
  by (auto simp: MQTTClient_disconnect_ctx_def log_keeps Let_def split: if_splits Option.bind_splits
      dest!: log_steps intro: log_grows_trans log_grows_more)

lemma will_log: "connect_will K will c = Some (c', r) \<Longrightarrow> app_log c' = app_log c"
  by (auto simp: connect_will_def split: option.splits Option.bind_splits)

lemma result_log: "connect_result K ret c = (c', r) \<Longrightarrow> app_log c' = app_log c"
  by (auto simp: connect_result_def split: if_splits)

lemma connect_log:
  assumes "connect_attempt K cl ka reg will sent e1 e2 c = Some (c', r, u)"
  shows "log_grows (e1 @ e2) (app_log c) (app_log c')"
proof (cases "awaitedAck c \<noteq> MQTT_DISCONNECT K \<or> reg < 0")
  case True
  then show ?thesis using assms by (auto simp: connect_attempt_def Let_def split: if_splits)
next
  case False
  let ?c1 = "core (Core_registerCtxInfo (clientID c) (usrName c) (usrPwd c)) (c\<lparr>connectedState := False\<rparr>)"
  let ?x = "\<lambda>c2. core (Core_sendConnectMsg cl ka) (c2\<lparr>connAck := 0, awaitedAck := MQTT_CONNACK K\<rparr>)"
  obtain c2 w where c2: "connect_will K will ?c1 = Some (c2, w)"
    using assms False by (cases "connect_will K will ?c1") (auto simp: connect_attempt_def Let_def)
  note will = will_log [OF c2]
  show ?thesis
  proof (cases "w < 0")
    case True
    then show ?thesis using assms False c2 will by (auto simp: connect_attempt_def Let_def)
  next
    case w: False
    obtain c3 where c3: "deliver K e1 (?x c2) = Some c3"
      using assms False c2 w by (cases "deliver K e1 (?x c2)") (auto simp: connect_attempt_def Let_def)
    have g: "log_grows e1 (app_log c) (app_log c3)" using deliver_log [OF c3] will by simp
    show ?thesis
    proof (cases "sent < 0")
      case True
      then have "app_log c' = app_log c3"
        using assms False c2 w c3 by (auto simp: connect_attempt_def Let_def log_keeps)
      then show ?thesis using log_grows_more [OF g] by simp
    next
      case sent: False
      obtain c4 where c4: "ack_wait K e2 c3 = Some c4"
        using assms False c2 w c3 sent by (cases "ack_wait K e2 c3") (auto simp: connect_attempt_def Let_def)
      have "connect_result K sent c4 = (c', r)"
        using assms False c2 w c3 c4 sent by (auto simp: connect_attempt_def Let_def split: prod.splits)
      then show ?thesis
        using result_log log_grows_trans [OF g ack_wait_log [OF c4]] by simp
    qed
  qed
qed

section \<open>The interface between the library and the module\<close>

text \<open>
  The contract of every operation of the library: what it reports, the events delivered in it have caused.
  So a call of it does nothing to the module but append the messages that these events bring.
\<close>

definition queued :: "mqtt_world \<Rightarrow> rx_event list \<Rightarrow> mqttContext \<Rightarrow> mqttContext \<Rightarrow> bool" where
  "queued W es q q' \<longleftrightarrow>
     (\<exists>xs. q' = q\<lparr>msgQueue := msgQueue q @ xs\<rparr> \<and> (\<forall>x\<in>set xs. \<exists>e\<in>set es. arrives (w_ops W) e x)
        \<and> (xs = [] \<or> length (msgQueue q') \<le> MQ_MAXMSG))"

lemma queued_refl [simp]: "queued W es q q"
  by (auto simp: queued_def intro!: exI [of _ "[]"])

lemma queued_trans:
  assumes "queued W es q1 q2" "queued W fs q2 q3"
  shows "queued W (es @ fs) q1 q3"
proof -
  obtain xs ys where "q2 = q1\<lparr>msgQueue := msgQueue q1 @ xs\<rparr>" "\<forall>x\<in>set xs. \<exists>e\<in>set es. arrives (w_ops W) e x"
    "xs = [] \<or> length (msgQueue q2) \<le> MQ_MAXMSG"
    "q3 = q2\<lparr>msgQueue := msgQueue q2 @ ys\<rparr>" "\<forall>x\<in>set ys. \<exists>e\<in>set fs. arrives (w_ops W) e x"
    "ys = [] \<or> length (msgQueue q3) \<le> MQ_MAXMSG"
    using assms unfolding queued_def by blast
  then show ?thesis unfolding queued_def by (intro exI [of _ "xs @ ys"]) auto
qed

locale client_op =
  fixes f :: "mqtt_lib \<Rightarrow> (mqtt_lib \<times> int) option" and es :: "rx_event list"
  assumes grows: "f L = Some (L', r) \<Longrightarrow> log_grows es (app_events L) (app_events L')"
begin

lemma appends:
  assumes "lib_call W f s = Some (s', r)"
  shows "queued W es (st_if s) (st_if s')" "st_connected s' = st_connected s" "st_dev s' = st_dev s"
proof -
  obtain L q where L: "f (st_lib s) = Some (L, r)"
    "run (MQTTClientCallback (w_ops W)) (drop (length (app_events (st_lib s))) (app_events L)) (st_if s) = Some q"
    and s': "s' = s\<lparr>st_if := q, st_lib := L\<rparr>"
    using assms by (auto simp: lib_call_def split: Option.bind_splits)
  obtain evs where evs: "app_events L = app_events (st_lib s) @ evs" "\<forall>x\<in>set evs. \<exists>e\<in>set es. causes e x"
    using grows [OF L(1)] by (auto simp: log_grows_def)
  then obtain xs where xs: "those (map (cb_elem (w_ops W)) evs) = Some xs"
    "evs = [] \<or> length (msgQueue (st_if s)) + length evs \<le> MQ_MAXMSG" "q = (st_if s)\<lparr>msgQueue := msgQueue (st_if s) @ xs\<rparr>"
    using L(2) by (auto simp: run_callbacks_iff)
  have "\<exists>e\<in>set es. arrives (w_ops W) e x" if "x \<in> set xs" for x
  proof -
    have "map (cb_elem (w_ops W)) evs = map Some xs"
      using xs(1) by (induction evs arbitrary: xs) (auto split: option.splits)
    then have "Some x \<in> cb_elem (w_ops W) ` set evs" using that by (metis image_eqI image_set)
    then obtain v where "v \<in> set evs" "cb_elem (w_ops W) v = Some x" by auto
    then show ?thesis using evs(2) unfolding arrives_def by blast
  qed
  moreover have "xs = [] \<or> length (msgQueue q) \<le> MQ_MAXMSG"
    using xs those_length [OF xs(1)] by auto
  ultimately show "queued W es (st_if s) (st_if s')"
    using s' xs(3) by (auto simp: queued_def)
  show "st_connected s' = st_connected s" "st_dev s' = st_dev s" using s' by simp_all
qed

end

lemma on_ctx_grows:
  assumes "on_ctx f L = Some (L', r)"
    and "\<And>c c' x. f c = Some (c', x) \<Longrightarrow> log_grows es (app_log c) (app_log c')"
  shows "log_grows es (app_events L) (app_events L')"
proof -
  obtain c c' x where "cur L = Some c" "f c = Some (c', x)" "L' = set_cur c' L"
    using assms(1) by (auto simp: on_ctx_def split: if_splits Option.bind_splits)
  then show ?thesis using assms(2) by simp
qed

lemma cur_other [simp]:
  "cur (L\<lparr>syncRxTx := a\<rparr>) = cur L" "cur (L\<lparr>waitForMqttClose := b\<rparr>) = cur L" "cur (L\<lparr>closeContext := d\<rparr>) = cur L"
  "cur (L\<lparr>libLock := e\<rparr>) = cur L" "cur (L\<lparr>mutex := e\<rparr>) = cur L"
  by (simp_all add: cur_def)

lemma events_other [simp]:
  "app_events (L\<lparr>syncRxTx := a\<rparr>) = app_events L" "app_events (L\<lparr>waitForMqttClose := b\<rparr>) = app_events L"
  "app_events (L\<lparr>closeContext := d\<rparr>) = app_events L" "app_events (L\<lparr>libLock := e\<rparr>) = app_events L"
  "app_events (L\<lparr>mutex := e\<rparr>) = app_events L"
  by (simp_all add: app_events_def)

interpretation sub_op: client_op "MQTTClient_subscribe K params sent e1 e2" "e1 @ e2" for K params sent e1 e2
  by unfold_locales (auto simp: MQTTClient_subscribe_def elim!: on_ctx_grows dest: sub_log)

interpretation unsub_op: client_op "MQTTClient_unsubscribe K topics sent e1 e2" "e1 @ e2" for K topics sent e1 e2
  by unfold_locales (auto simp: MQTTClient_unsubscribe_def elim!: on_ctx_grows dest: unsub_log)

interpretation publish_op: client_op "MQTTClient_publish K topic msg q retain sent e1 e2" "e1 @ e2"
  for K topic msg q retain sent e1 e2
  by unfold_locales (auto simp: MQTTClient_publish_def elim!: on_ctx_grows dest: send_log)

interpretation disconnect_op: client_op "MQTTClient_disconnect K sent e1 e2" "e1 @ e2" for K sent e1 e2
  by unfold_locales (auto simp: MQTTClient_disconnect_def elim!: on_ctx_grows dest: disconnect_log)

interpretation rx_op: client_op "on_ctx (\<lambda>c. map_option (\<lambda>c'. (c', 0)) (deliver1 K e c))" "[e]" for K e
  by unfold_locales (auto elim!: on_ctx_grows dest: deliver1_log)

interpretation no_op: client_op "\<lambda>L. Some (L, 0)" "es" for es
  by unfold_locales simp

interpretation connect_op: client_op "MQTTClient_connect K reg will sent e1 e2" "e1 @ e2" for K reg will sent e1 e2
proof
  fix L L' r
  assume "MQTTClient_connect K reg will sent e1 e2 L = Some (L', r)"
  then obtain c c' x u where "cur L = Some c"
    "connect_attempt K (clean (connectCfg L)) (keepAliveTimeout (connectCfg L)) reg will sent e1 e2 c = Some (c', x, u)"
    "app_events L' = app_log c'"
    by (auto simp: MQTTClient_connect_def split: if_splits Option.bind_splits)
  then show "log_grows (e1 @ e2) (app_events L) (app_events L')" by (auto dest: connect_log)
qed

interpretation run_op: client_op "MQTTClient_run K turns" "[]" for K turns
  by unfold_locales (auto simp: MQTTClient_run_def split: Option.bind_splits)

interpretation delete_op: client_op "MQTTClient_delete K h (sent, e1, e2) d p x" "e1 @ e2" for K h sent e1 e2 d p x
proof
  fix L L' r
  assume del: "MQTTClient_delete K h (sent, e1, e2) d p x L = Some (L', r)"
  show "log_grows (e1 @ e2) (app_events L) (app_events L')"
  proof (cases "h = Some 1")
    case True
    let ?L1 = "L\<lparr>closeContext := True\<rparr>"
    obtain c L2 L3 L4 y where c: "cur L = Some c"
      and L2: "(if connectedState c then map_option fst (MQTTClient_disconnect K sent e1 e2 ?L1) else Some ?L1) = Some L2"
      and L3: "MqttClientCtxDelete d L2 = Some (L3, y)" "delete_wait p L3 = Some L4" "app_events L' = app_events L4"
      using del True
      by (cases "cur L") (auto simp: MQTTClient_delete_def Let_def split: Option.bind_splits if_splits)
    have "log_grows (e1 @ e2) (app_events L) (app_events L2)"
      using L2 disconnect_op.grows [of K sent e1 e2 ?L1] by (auto split: if_splits)
    moreover have "app_events L3 = app_events L2"
      using L3(1) by (auto simp: MqttClientCtxDelete_def app_events_def ctx_zero_def split: if_splits)
    moreover have "app_events L4 = app_events L3"
      using L3(2) by (auto simp: delete_wait_def split: option.splits Option.bind_splits)
    ultimately show ?thesis using L3(3) by simp
  qed (use del in \<open>simp add: MQTTClient_delete_def\<close>)
qed

section \<open>The steps refine those of the module\<close>

text \<open>The renewal does not look at the queue.\<close>

lemma resub_remove_queue:
  "resub_remove node n prev (q\<lparr>msgQueue := m\<rparr>)
     = map_option (\<lambda>(q', x). (q'\<lparr>msgQueue := m\<rparr>, x)) (resub_remove node n prev q)"
  by (auto simp: resub_remove_def set_next_def map_option_case split: option.splits Option.bind_splits)

lemma free_node_queue: "free_node a (q\<lparr>msgQueue := m\<rparr>) = map_option (\<lambda>q'. q'\<lparr>msgQueue := m\<rparr>) (free_node a q)"
  by (simp add: free_node_def map_option_case split: option.splits)

lemma resub_keeps:
  "resub_remove node n prev q = Some (q', x) \<Longrightarrow> msgQueue q' = msgQueue q \<and> moduleState q' = moduleState q \<and> cb_calls q' = cb_calls q"
  "free_node a q = Some q' \<Longrightarrow> msgQueue q' = msgQueue q \<and> moduleState q' = moduleState q \<and> cb_calls q' = cb_calls q"
  by (auto simp: resub_remove_def set_next_def free_node_def split: option.splits Option.bind_splits if_splits)

lemma resubscribe_queue:
  "resubscribe rets node prev (q\<lparr>msgQueue := m\<rparr>) = map_option (\<lambda>q'. q'\<lparr>msgQueue := m\<rparr>) (resubscribe rets node prev q)"
proof (induction rets node prev q rule: resubscribe.induct)
  case (3 ret rets node prev q)
  show ?case
  proof (cases "nodes q node")
    case n: (Some n)
    show ?thesis
    proof (cases "ret < 0")
      case True
      show ?thesis
      proof (cases "resub_remove node n prev q")
        case (Some y)
        then obtain q1 node' where q1: "resub_remove node n prev q = Some (q1, node')" by (cases y) auto
        show ?thesis
        proof (cases "free_node node q1")
          case (Some q2)
          then show ?thesis
            using "3.IH"(1) [OF n True q1 refl Some] n True q1
            by (simp add: resub_remove_queue free_node_queue)
        qed (use n True q1 in \<open>simp add: resub_remove_queue free_node_queue\<close>)
      qed (use n True in \<open>simp add: resub_remove_queue\<close>)
    next
      case False
      then show ?thesis using "3.IH"(2) [OF n False] n by simp
    qed
  qed simp
qed simp_all

lemma resubscribe_keeps:
  "resubscribe rets node prev q = Some q' \<Longrightarrow> msgQueue q' = msgQueue q \<and> moduleState q' = moduleState q \<and> cb_calls q' = cb_calls q"
proof (induction rets node prev q rule: resubscribe.induct)
  case (3 ret rets node prev q)
  then obtain n where n: "nodes q node = Some n" by (auto split: Option.bind_splits)
  show ?case
  proof (cases "ret < 0")
    case True
    then obtain q1 node' q2 where r: "resub_remove node n prev q = Some (q1, node')" "free_node node q1 = Some q2"
      "resubscribe rets node' prev q2 = Some q'"
      using "3.prems" n by (auto split: Option.bind_splits)
    then show ?thesis
      using "3.IH"(1) [OF n True r(1) refl r(2,3)] resub_keeps(1) [OF r(1)] resub_keeps(2) [OF r(2)] by simp
  next
    case False
    then show ?thesis using "3.IH"(2) [OF n False] "3.prems" n by simp
  qed
qed simp_all

lemma queued_under:
  assumes "queued W es a b" "msgQueue q = msgQueue a"
  shows "queued W es q (q\<lparr>msgQueue := msgQueue b\<rparr>)"
proof -
  obtain xs where "b = a\<lparr>msgQueue := msgQueue a @ xs\<rparr>" "\<forall>x\<in>set xs. \<exists>e\<in>set es. arrives (w_ops W) e x"
    "xs = [] \<or> length (msgQueue b) \<le> MQ_MAXMSG" using assms(1) unfolding queued_def by blast
  then show ?thesis using assms(2) unfolding queued_def by (intro exI [of _ xs]) auto
qed

lemma queued_form: "queued W es a b \<Longrightarrow> b = a\<lparr>msgQueue := msgQueue b\<rparr>"
  by (auto simp: queued_def)

abbreviation acks_events :: "exchange list \<Rightarrow> rx_event list" where
  "acks_events acks \<equiv> concat (map (\<lambda>(sent, e1, e2). e1 @ e2) acks)"

text \<open>The messages of the first answer, behind which the rest of the renewal goes on, do not matter to it.\<close>

lemma resub_glue:
  assumes "queued W es q1 q2"
    and "\<And>rets'. resubscribe (ret # rets') node prev q1 = resubscribe rets' x y q0" "msgQueue q0 = msgQueue q1"
    and "resubscribe rets x y (q0\<lparr>msgQueue := msgQueue q2\<rparr>) = Some q" "queued W fs q q3"
  shows "\<exists>rets' q. resubscribe (ret # rets') node prev q1 = Some q \<and> queued W (es @ fs) q q3"
proof -
  obtain q' where q': "resubscribe rets x y q0 = Some q'" "q = q'\<lparr>msgQueue := msgQueue q2\<rparr>"
    using assms(4) by (auto simp: resubscribe_queue)
  have "msgQueue q' = msgQueue q1" using resubscribe_keeps [OF q'(1)] assms(3) by simp
  from queued_trans [OF queued_under [OF assms(1) this] assms(5) [unfolded q'(2)]]
  show ?thesis using assms(2) q'(1) by (intro exI [of _ rets] exI [of _ q']) simp
qed

lemma stack_resub_refines:
  assumes "stack_resub W acks node prev s = Some s'"
  shows "\<exists>rets q. resubscribe rets node prev (st_if s) = Some q \<and> queued W (acks_events acks) q (st_if s')
    \<and> st_connected s' = st_connected s \<and> st_dev s' = st_dev s"
  using assms
proof (induction W acks node prev s rule: stack_resub.induct)
  case (1 W acks prev s)
  then show ?case by auto
next
  case (3 W sent e1 e2 acks node prev s)
  then obtain n s1 ret where n: "nodes (st_if s) node = Some n"
    and s1: "lib_call W (MQTTClient_subscribe (w_codes W) [(n_topic n, n_qos n)] sent e1 e2) s = Some (s1, ret)"
    by (auto split: Option.bind_splits)
  note a = sub_op.appends [OF s1]
  note form = queued_form [OF a(1)]
  let ?m = "msgQueue (st_if s1)"
  show ?case
  proof (cases "ret < 0")
    case True
    then obtain q1 node' q2 where r: "resub_remove node n prev (st_if s1) = Some (q1, node')" "free_node node q1 = Some q2"
      "stack_resub W acks node' prev (s1\<lparr>st_if := q2\<rparr>) = Some s'"
      using "3.prems" n s1 by (auto split: Option.bind_splits)
    obtain q1' where q1': "resub_remove node n prev (st_if s) = Some (q1', node')" "q1 = q1'\<lparr>msgQueue := ?m\<rparr>"
      using r(1) by (subst (asm) form) (auto simp: resub_remove_queue)
    obtain q2' where q2': "free_node node q1' = Some q2'" "q2 = q2'\<lparr>msgQueue := ?m\<rparr>"
      using r(2) q1'(2) by (auto simp: free_node_queue)
    obtain rets q where IH: "resubscribe rets node' prev q2 = Some q" "queued W (acks_events acks) q (st_if s')"
      "st_connected s' = st_connected s1" "st_dev s' = st_dev s1"
      using "3.IH"(1) [OF n s1 refl True r(1) refl r(2,3)] by auto
    have "msgQueue q2' = msgQueue (st_if s)"
      using resub_keeps(1) [OF q1'(1)] resub_keeps(2) [OF q2'(1)] by simp
    then have "\<exists>rets' q. resubscribe (ret # rets') (Some node) prev (st_if s) = Some q
        \<and> queued W ((e1 @ e2) @ acks_events acks) q (st_if s')"
      by (intro resub_glue [OF a(1) _ _ _ IH(2), where x = node' and y = prev and ?q0.0 = q2' and rets = rets])
        (use IH(1) True n q1'(1) q2' in simp_all)
    then obtain rets' q' where "resubscribe (ret # rets') (Some node) prev (st_if s) = Some q'"
      "queued W ((e1 @ e2) @ acks_events acks) q' (st_if s')" by blast
    then show ?thesis using a(2,3) IH(3,4) by (intro exI [of _ "ret # rets'"] exI [of _ q']) simp
  next
    case False
    then have "stack_resub W acks (n_next n) (Some node) s1 = Some s'" using "3.prems" n s1 by simp
    then obtain rets q where IH: "resubscribe rets (n_next n) (Some node) (st_if s1) = Some q"
      "queued W (acks_events acks) q (st_if s')" "st_connected s' = st_connected s1" "st_dev s' = st_dev s1"
      using "3.IH"(2) [OF n s1 refl False] by auto
    have "st_if s1 = (st_if s)\<lparr>msgQueue := ?m\<rparr>" by (rule form)
    then have "\<exists>rets' q. resubscribe (ret # rets') (Some node) prev (st_if s) = Some q
        \<and> queued W ((e1 @ e2) @ acks_events acks) q (st_if s')"
      by (intro resub_glue [OF a(1) _ _ _ IH(2), where x = "n_next n" and y = "Some node" and ?q0.0 = "st_if s" and rets = rets])
        (use IH(1) False n in simp_all)
    then obtain rets' q' where "resubscribe (ret # rets') (Some node) prev (st_if s) = Some q'"
      "queued W ((e1 @ e2) @ acks_events acks) q' (st_if s')" by blast
    then show ?thesis using a(2,3) IH(3,4) by (intro exI [of _ "ret # rets'"] exI [of _ q']) simp
  qed
qed simp

text \<open>The messages of a call are callbacks of the module, one after the other.\<close>

lemma queued_steps:
  assumes "queued W es q q'"
  shows "if_step\<^sup>*\<^sup>* q q'"
proof -
  obtain xs where xs: "q' = q\<lparr>msgQueue := msgQueue q @ xs\<rparr>" "\<forall>x\<in>set xs. \<exists>e\<in>set es. arrives (w_ops W) e x"
    "xs = [] \<or> length (msgQueue q) + length xs \<le> MQ_MAXMSG"
    using assms by (auto simp: queued_def)
  then show ?thesis
  proof (induction xs arbitrary: q)
    case (Cons x xs)
    obtain v where "cb_elem (w_ops W) v = Some x" using Cons.prems(2) by (auto simp: arrives_def)
    moreover have "length (msgQueue q) < MQ_MAXMSG" using Cons.prems(3) by simp
    ultimately have "if_step q (q\<lparr>msgQueue := msgQueue q @ [x]\<rparr>)"
      by (intro if_move.callback [of "w_ops W" v]) (simp add: callback_elem mq_send_def)
    moreover have "if_step\<^sup>*\<^sup>* (q\<lparr>msgQueue := msgQueue q @ [x]\<rparr>) q'"
      by (rule Cons.IH) (use Cons.prems in auto)
    ultimately show ?case by (rule converse_rtranclp_into_rtranclp)
  qed simp
qed

text \<open>What the application is told by one turn of its thread.\<close>

fun call_of :: "msgQueue_elem \<Rightarrow> cb_call \<Rightarrow> bool" where
  "call_of q (EventCB e) \<longleftrightarrow>
     e = q_event q \<or> q_event q = MQTT_EVENT_SERVER_DISCONNECT \<and> e = MQTT_EVENT_CLIENT_DISCONNECT"
| "call_of q (TopicCB cb topic payload qos) \<longleftrightarrow> q_event q = MQTT_EVENT_RECV \<and> payload = q_payload q"

lemma app_search_calls:
  assumes "app_search q c s = Some s'"
  shows "msgQueue s' = msgQueue s \<and> moduleState s' = moduleState s \<and> (\<exists>cs. cb_calls s' = cb_calls s @ cs
    \<and> (\<forall>x\<in>set cs. \<exists>cb topic qos. x = TopicCB cb topic (q_payload q) qos))" (is "?P q s s'")
  using assms
proof (rule app_search.raw_induct [where P = "\<lambda>q c s s'. ?P q s s'", rotated])
  fix f q c s s'
  assume IH: "\<And>q c s s'. f q c s = Some s' \<Longrightarrow> ?P q s s'"
    and body: "do { n \<leftarrow> nodes s c; r \<leftarrow> MQTTHelperTopicMatching (n_topic n) (Some (q_topic q));
        if r = 1 then Some (s\<lparr>cb_calls := cb_calls s @ [TopicCB (topicCB n) (q_topic q) (q_payload q) (q_qos q)]\<rparr>)
        else case n_next n of None \<Rightarrow> Some s | Some t \<Rightarrow> f q t s } = Some s'"
  from IH body show "?P q s s'" by (auto split: Option.bind_splits if_splits option.splits)
qed

lemma app_handle_calls:
  assumes "app_handle rets q s = Some (s', b)"
  shows "msgQueue s' = msgQueue s \<and> moduleState s' = moduleState s \<and> (\<exists>cs. cb_calls s' = cb_calls s @ cs \<and> (\<forall>x\<in>set cs. call_of q x))"
proof (cases "q_event q = MQTT_EVENT_RECV \<or> q_event q = MQTT_EVENT_CONNACK")
  case False
  then show ?thesis
    using assms by (cases "q_event q") (auto simp: app_handle_def lock_def unlock_def call_event_def split: if_splits)
next
  case True
  show ?thesis
  proof (cases "q_event q = MQTT_EVENT_RECV")
    case recv: True
    then obtain s1 where "(case head s of None \<Rightarrow> Some (s\<lparr>locked := True\<rparr>) | Some a \<Rightarrow> app_search q a (s\<lparr>locked := True\<rparr>)) = Some s1"
      "msgQueue s' = msgQueue s1" "moduleState s' = moduleState s1" "cb_calls s' = cb_calls s1"
      using assms by (auto simp: app_handle_def lock_def unlock_def split: Option.bind_splits if_splits)
    then show ?thesis using recv by (fastforce split: option.splits dest!: app_search_calls)
  next
    case False
    then obtain s1 where "resubscribe rets (head s) None (s\<lparr>locked := True\<rparr>) = Some s1" "msgQueue s' = msgQueue s1"
      "moduleState s' = moduleState s1"
      "cb_calls s' = cb_calls s1 @ [EventCB MQTT_EVENT_CONNACK]"
      using assms True by (auto simp: app_handle_def lock_def unlock_def call_event_def split: Option.bind_splits if_splits)
    then show ?thesis using False True by (auto dest!: resubscribe_keeps)
  qed
qed

text \<open>A turn of the application thread of the stack is one of the module, followed by the messages of its renewals.\<close>

lemma stack_handle_refines:
  assumes "stack_handle W acks q s = Some s'"
  shows "\<exists>rets qa b. app_handle rets q (st_if s) = Some (qa, b) \<and> queued W (acks_events acks) qa (st_if s')
    \<and> cb_calls (st_if s') = cb_calls qa \<and> st_connected s' = st_connected s \<and> st_dev s' = st_dev s"
proof (cases "q_event q = MQTT_EVENT_CONNACK")
  case False
  then obtain qa b where "app_handle [] q (st_if s) = Some (qa, b)" "s' = s\<lparr>st_if := qa\<rparr>"
    using assms by (auto simp: stack_handle_def split: Option.bind_splits)
  then show ?thesis by (intro exI [of _ "[]"] exI [of _ qa] exI [of _ b]) simp
next
  case True
  then obtain q1 s2 q3 q4 where q1: "lock (st_if s) = Some q1"
    and s2: "stack_resub W acks (head q1) None (s\<lparr>st_if := q1\<rparr>) = Some s2"
    and q3: "unlock (st_if s2) = Some q3" "call_event MQTT_EVENT_CONNACK q3 = Some q4" "s' = s2\<lparr>st_if := q4\<rparr>"
    using assms by (auto simp: stack_handle_def split: Option.bind_splits)
  obtain rets q2 where r: "resubscribe rets (head q1) None q1 = Some q2" "queued W (acks_events acks) q2 (st_if s2)"
    "st_connected s2 = st_connected s" "st_dev s2 = st_dev s"
    using stack_resub_refines [OF s2] by auto
  let ?qa = "q2\<lparr>locked := False, cb_calls := cb_calls q2 @ [EventCB MQTT_EVENT_CONNACK]\<rparr>"
  have form: "st_if s2 = q2\<lparr>msgQueue := msgQueue (st_if s2)\<rparr>" by (rule queued_form [OF r(2)])
  have u: "moduleMutex q2" "locked q2" "eventCB q2"
    using q3(1,2) by (subst (asm) form, auto simp: unlock_def call_event_def split: if_splits)+
  have q4: "q4 = ?qa\<lparr>msgQueue := msgQueue (st_if s2)\<rparr>"
    using q3(1,2) by (subst (asm) form) (auto simp: unlock_def call_event_def split: if_splits)
  have "app_handle rets q (st_if s) = Some (?qa, False)"
    using True q1 r(1) u by (simp add: app_handle_def unlock_def call_event_def)
  moreover have "queued W (acks_events acks) ?qa q4"
    unfolding q4 by (rule queued_under [OF r(2)]) simp
  ultimately show ?thesis
    using q3(3) q4 r(3,4) by (intro exI [of _ rets] exI [of _ ?qa] exI [of _ False]) auto
qed

lemma stack_app_turn:
  assumes "stack_app W acks s = Some s'" "msgQueue (st_if s) = q # qs"
  shows "\<exists>rets qa b cs. MQTTAppThread rets (st_if s) = Some (qa, b) \<and> msgQueue qa = qs
    \<and> moduleState qa = moduleState (st_if s) \<and> cb_calls qa = cb_calls (st_if s) @ cs
    \<and> queued W (acks_events acks) qa (st_if s') \<and> list_all (call_of q) cs
    \<and> st_connected s' = connected_after cs (st_connected s) \<and> dev_after (w_mac W) cs (st_dev s) = Some (st_dev s')"
proof -
  let ?s0 = "s\<lparr>st_if := (st_if s)\<lparr>msgQueue := qs\<rparr>\<rparr>"
  obtain s1 dev where s1: "stack_handle W acks q ?s0 = Some s1"
    and s': "dev_after (w_mac W) (drop (length (cb_calls (st_if s))) (cb_calls (st_if s1))) (st_dev s1) = Some dev"
      "s' = s1\<lparr>st_connected := connected_after (drop (length (cb_calls (st_if s))) (cb_calls (st_if s1))) (st_connected s1),
                st_dev := dev\<rparr>"
    using assms by (auto simp: stack_app_def Let_def split: Option.bind_splits)
  obtain rets qa b where r: "app_handle rets q ((st_if s)\<lparr>msgQueue := qs\<rparr>) = Some (qa, b)"
    "queued W (acks_events acks) qa (st_if s1)" "cb_calls (st_if s1) = cb_calls qa"
    "st_connected s1 = st_connected s" "st_dev s1 = st_dev s"
    using stack_handle_refines [OF s1] by auto
  obtain cs where "msgQueue qa = qs" "moduleState qa = moduleState (st_if s)" "cb_calls qa = cb_calls (st_if s) @ cs" "\<forall>x\<in>set cs. call_of q x"
    using app_handle_calls [OF r(1)] by auto
  then show ?thesis
    using r s' assms(2)
    by (intro exI [of _ rets] exI [of _ qa] exI [of _ b] exI [of _ cs]) (simp add: MQTTAppThread_def list_all_iff)
qed

text \<open>
  What the other threads do and what other callers do, in any order. The flag marks a subscription that the client refuses to a connected
  module; a run carries whether there was one.
\<close>

inductive stack_move :: "mqtt_world \<Rightarrow> bool \<Rightarrow> mqtt_stack \<Rightarrow> mqtt_stack \<Rightarrow> bool" for W where
  init: "if_call (mqtt_init m i mq t) s = Some (s', r) \<Longrightarrow> stack_move W False s s'"
| deinit: "if_call (MQTT_IF_Deinit ok) s = Some (s', r) \<Longrightarrow> stack_move W False s s'"
| connect: "stack_connect W e p s = Some (s', r) \<Longrightarrow> stack_move W False s s'"
| disconnect: "stack_disconnect W x s = Some (s', r) \<Longrightarrow> stack_move W False s s'"
| subscribe: "(\<forall>a. node_addr = Some a \<longrightarrow> nodes (st_if s) a = None)
    \<Longrightarrow> stack_subscribe W node_addr ok x topic qos cb s = Some (s', r)
    \<Longrightarrow> stack_move W (refusal node_addr ok r (st_if s)) s s'"
| unsubscribe: "stack_unsubscribe W x topic s = Some (s', r) \<Longrightarrow> stack_move W False s s'"
| publish: "stack_publish W x t payload s = Some (s', r) \<Longrightarrow> stack_move W False s s'"
| event: "stack_step W ev s = Some s' \<Longrightarrow> stack_move W False s s'"

inductive stack_run :: "mqtt_world \<Rightarrow> mqtt_stack \<Rightarrow> bool \<Rightarrow> mqtt_stack \<Rightarrow> bool" for W s0 where
  stack_start: "stack_run W s0 False s0"
| stack_next: "stack_run W s0 refused s \<Longrightarrow> stack_move W r s s' \<Longrightarrow> stack_run W s0 (refused \<or> r) s'"

lemma if_call_Some: "if_call g s = Some (s', r) \<longleftrightarrow> (\<exists>q. g (st_if s) = Some (q, r) \<and> s' = s\<lparr>st_if := q\<rparr>)"
  by (auto simp: if_call_def split: Option.bind_splits)

text \<open>A call of a connected module: the messages of the library, then the operation of the module with its result.\<close>

lemma connected_call_steps:
  assumes "client_op f es" "connected_call W f g s = Some (s', r)"
  shows "\<exists>q1 q2 x. queued W es (st_if s) q1 \<and> g x q1 = Some (q2, r) \<and> st_if s' = q2
    \<and> st_connected s' = st_connected s \<and> st_dev s' = st_dev s"
proof (cases "moduleState (st_if s) = MQTT_STATE_CONNECTED")
  case True
  then obtain s1 x where s1: "lib_call W f s = Some (s1, x)" "if_call (g x) s1 = Some (s', r)"
    using assms(2) by (auto simp: connected_call_def split: Option.bind_splits)
  then obtain q2 where "g x (st_if s1) = Some (q2, r)" "s' = s1\<lparr>st_if := q2\<rparr>" by (auto simp: if_call_Some)
  then show ?thesis
    using client_op.appends [OF assms(1) s1(1)]
    by (intro exI [of _ "st_if s1"] exI [of _ q2] exI [of _ x]) simp
next
  case False
  then obtain q2 where "g 0 (st_if s) = Some (q2, r)" "s' = s\<lparr>st_if := q2\<rparr>"
    using assms(2) by (auto simp: connected_call_def if_call_Some)
  then show ?thesis by (intro exI [of _ "st_if s"] exI [of _ q2] exI [of _ 0]) simp
qed

lemma connected_call_module:
  assumes "client_op f es" "connected_call W f g s = Some (s', r)"
    and "\<And>x q q'. g x q = Some (q', r) \<Longrightarrow> if_step q q'"
  shows "if_step\<^sup>*\<^sup>* (st_if s) (st_if s')"
  using connected_call_steps [OF assms(1,2)] queued_steps assms(3) by (metis rtranclp.rtrancl_into_rtrancl)

lemma publish_module:
  assumes "mqtt_publish slack dev x t payload q = Some (q', r)"
  shows "q' = q \<or> if_step q q'"
proof -
  have "q' = q \<or> (\<exists>topic. MQTT_IF_Publish x topic payload q = Some (q', r))"
    using assms by (auto simp: mqtt_publish_def split: Option.bind_splits if_splits)
  then show ?thesis by (auto intro: if_move.publish)
qed

lemma subscribe_result:
  "MQTT_IF_Subscribe node_addr ok x topic qos cb q = Some (q', r) \<Longrightarrow> refusal node_addr ok r q = refusal node_addr ok x q"
  by (auto simp: MQTT_IF_Subscribe_def refusal_def lock_def unlock_def Let_def split: Option.bind_splits if_splits option.splits)

lemma subscribe_module:
  assumes "stack_subscribe W node_addr ok x topic qos cb s = Some (s', r)" "\<forall>a. node_addr = Some a \<longrightarrow> nodes (st_if s) a = None"
  shows "\<exists>q. if_step\<^sup>*\<^sup>* (st_if s) q \<and> if_move (refusal node_addr ok r (st_if s)) q (st_if s')"
proof -
  obtain sent e1 e2 where x: "x = (sent, e1, e2)" by (metis surj_pair)
  let ?f = "if node_addr \<noteq> None \<and> ok then MQTTClient_subscribe (w_codes W) [(topic, qos)] sent e1 e2 else (\<lambda>L. Some (L, 0))"
  have "client_op ?f (e1 @ e2)" using sub_op.client_op_axioms no_op.client_op_axioms by simp
  moreover have "connected_call W ?f (\<lambda>r. MQTT_IF_Subscribe node_addr ok r topic qos cb) s = Some (s', r)"
    using assms(1) by (simp add: stack_subscribe_def x)
  ultimately obtain q1 q2 y where q: "queued W (e1 @ e2) (st_if s) q1"
    "MQTT_IF_Subscribe node_addr ok y topic qos cb q1 = Some (q2, r)" "st_if s' = q2"
    using connected_call_steps by blast
  have "\<forall>a. node_addr = Some a \<longrightarrow> nodes q1 a = None" using assms(2) q(1) by (auto simp: queued_def)
  from if_move.subscribe [OF this q(2)] have "if_move (refusal node_addr ok y q1) q1 q2" .
  moreover have "refusal node_addr ok y q1 = refusal node_addr ok r (st_if s)"
    using subscribe_result [OF q(2)] q(1) by (auto simp: refusal_def queued_def)
  ultimately show ?thesis using queued_steps [OF q(1)] q(3) by metis
qed

lemma connect_module:
  assumes "stack_connect W e p s = Some (s', r)"
  shows "if_step\<^sup>*\<^sup>* (st_if s) (st_if s')"
proof -
  obtain sent e1 e2 where x: "co_exchange e = (sent, e1, e2)" by (metis surj_pair)
  have "\<exists>q h t c. (st_if s = q \<or> queued W (e1 @ e2) (st_if s) q) \<and> MQTT_IF_Connect h t c q = Some (st_if s', r)"
    using assms x
    by (auto simp: stack_connect_def Let_def if_call_Some split: if_splits prod.splits Option.bind_splits
        dest!: connect_op.appends(1)) blast+
  then show ?thesis
    using queued_steps if_move.connect by (metis rtranclp.rtrancl_into_rtrancl rtranclp.rtrancl_refl)
qed

lemma context_module:
  assumes "stack_context W e s = Some s'"
  shows "\<exists>q1 q2. queued W [] (st_if s) q1 \<and> MQTTContextThread_end q1 = Some q2
    \<and> queued W (case ce_disc e of (_, e1, e2) \<Rightarrow> e1 @ e2) q2 (st_if s')
    \<and> st_connected s' = st_connected s \<and> st_dev s' = st_dev s"
proof -
  obtain sent e1 e2 where x: "ce_disc e = (sent, e1, e2)" by (metis surj_pair)
  obtain s0 r0 q1 s1 r1 q2 where s0: "lib_call W (MQTTClient_run (w_codes W) (ce_turns e)) s = Some (s0, r0)"
    and q1: "lock (st_if s0) = Some q1"
    and s1: "lib_call W (MQTTClient_delete (w_codes W) (mqttClient q1) (ce_disc e) (ce_delete e) (ce_posts e) (ce_exit e))
        (s0\<lparr>st_if := q1\<rparr>) = Some (s1, r1)"
    and q2: "unlock ((st_if s1)\<lparr>moduleState := MQTT_STATE_INITIALIZED\<rparr>) = Some q2" "s' = s1\<lparr>st_if := q2\<rparr>"
    using assms by (auto simp: stack_context_def split: Option.bind_splits)
  note a0 = run_op.appends [OF s0]
  note a1 = delete_op.appends [OF s1 [unfolded x]]
  have form: "st_if s1 = q1\<lparr>msgQueue := msgQueue (st_if s1)\<rparr>" using queued_form [OF a1(1)] by simp
  let ?q = "q1\<lparr>moduleState := MQTT_STATE_INITIALIZED, locked := False\<rparr>"
  have l: "moduleMutex q1" "locked q1" using q1 by (auto simp: lock_def split: if_splits)
  have "q2 = q1\<lparr>msgQueue := msgQueue (st_if s1), moduleState := MQTT_STATE_INITIALIZED, locked := False\<rparr>"
    using q2(1) l by (subst (asm) form) (simp add: unlock_def)
  also have "\<dots> = ?q\<lparr>msgQueue := msgQueue (st_if s1)\<rparr>" by (cases q1) simp
  finally have "q2 = ?q\<lparr>msgQueue := msgQueue (st_if s1)\<rparr>" .
  moreover have "queued W (e1 @ e2) ?q (?q\<lparr>msgQueue := msgQueue (st_if s1)\<rparr>)"
    by (rule queued_under [OF a1(1)]) simp
  moreover have "MQTTContextThread_end (st_if s0) = Some ?q"
    using q1 l by (simp add: MQTTContextThread_end_def unlock_def)
  ultimately show ?thesis
    using a0 a1(2,3) q2(2) x by (intro exI [of _ "st_if s0"] exI [of _ ?q]) simp
qed

lemma event_module:
  assumes "stack_step W ev s = Some s'"
  shows "if_step\<^sup>*\<^sup>* (st_if s) (st_if s')"
proof (cases ev)
  case (St_rx e)
  then obtain r where "lib_call W (on_ctx (\<lambda>c. map_option (\<lambda>c'. (c', 0)) (deliver1 (w_codes W) e c))) s = Some (s', r)"
    using assms by (auto simp: stack_rx_def)
  then show ?thesis using rx_op.appends(1) queued_steps by blast
next
  case (St_app acks)
  show ?thesis
  proof (cases "msgQueue (st_if s)")
    case Nil
    then show ?thesis using assms St_app by (simp add: stack_app_def)
  next
    case (Cons q qs)
    then obtain rets qa b where "MQTTAppThread rets (st_if s) = Some (qa, b)" "queued W (acks_events acks) qa (st_if s')"
      using stack_app_turn [of W acks s s' q qs] assms St_app by auto
    then show ?thesis
      using queued_steps if_move.app_thread by (metis converse_rtranclp_into_rtranclp)
  qed
next
  case (St_context e)
  then obtain q1 q2 es where "queued W [] (st_if s) q1" "MQTTContextThread_end q1 = Some q2" "queued W es q2 (st_if s')"
    using context_module assms by fastforce
  then have "if_step\<^sup>*\<^sup>* (st_if s) q1" "if_step q1 q2" "if_step\<^sup>*\<^sup>* q2 (st_if s')"
    using queued_steps if_move.context_thread by blast+
  then show ?thesis by (meson rtranclp.rtrancl_into_rtrancl rtranclp_trans)
qed

lemma move_module:
  assumes "stack_move W d s s'"
  shows "\<exists>q. if_step\<^sup>*\<^sup>* (st_if s) q \<and> (if_move d q (st_if s') \<or> \<not> d \<and> q = st_if s')"
proof -
  have plain: ?thesis if "\<not> d" "if_step\<^sup>*\<^sup>* (st_if s) (st_if s')" using that by blast
  from assms show ?thesis
  proof cases
    case (init m i mq t r)
    then have "if_step (st_if s) (st_if s')" by (auto simp: if_call_Some mqtt_init_def intro: if_move.init)
    then show ?thesis using plain init(1) by blast
  next
    case (deinit ok r)
    then have "if_step (st_if s) (st_if s')" by (auto simp: if_call_Some intro: if_move.deinit)
    then show ?thesis using plain deinit(1) by blast
  next
    case connect
    then show ?thesis using plain connect_module by blast
  next
    case (disconnect x r)
    obtain sent e1 e2 where x: "x = (sent, e1, e2)" by (metis surj_pair)
    have "if_step\<^sup>*\<^sup>* (st_if s) (st_if s')"
      using disconnect(2) connected_call_module [OF disconnect_op.client_op_axioms] if_move.disconnect
      unfolding stack_disconnect_def x prod.case by metis
    then show ?thesis using plain disconnect(1) by blast
  next
    case subscribe
    then show ?thesis using subscribe_module by blast
  next
    case (unsubscribe x topic r)
    obtain sent e1 e2 where x: "x = (sent, e1, e2)" by (metis surj_pair)
    have "if_step\<^sup>*\<^sup>* (st_if s) (st_if s')"
      using unsubscribe(2) connected_call_module [OF unsub_op.client_op_axioms] if_move.unsubscribe
      unfolding stack_unsubscribe_def x prod.case by metis
    then show ?thesis using plain unsubscribe(1) by blast
  next
    case (publish x t payload r)
    obtain sent e1 e2 where x: "x = (sent, e1, e2)" by (metis surj_pair)
    from publish(2) [unfolded stack_publish_def x prod.case] obtain q1 q2 y where
      "queued W (e1 @ e2) (st_if s) q1" "mqtt_publish (w_slack W) (st_dev s) y t payload q1 = Some (q2, r)" "st_if s' = q2"
      using connected_call_steps [OF publish_op.client_op_axioms] by blast
    then have "if_step\<^sup>*\<^sup>* (st_if s) (st_if s')"
      using publish_module queued_steps by (metis rtranclp.rtrancl_into_rtrancl)
    then show ?thesis using plain publish(1) by blast
  next
    case (event ev)
    then show ?thesis using plain event_module by blast
  qed
qed

section \<open>A connected module has a client\<close>

definition usable :: "mqtt_lib \<Rightarrow> bool" where
  "usable L \<longleftrightarrow> mutex L \<and> cur L \<noteq> None"

definition coherent :: "mqtt_stack \<Rightarrow> bool" where
  "coherent s \<longleftrightarrow> if_inv (st_if s) \<and> (moduleState (st_if s) = MQTT_STATE_CONNECTED \<longrightarrow> usable (st_lib s))"

lemma on_ctx_usable: "on_ctx f L = Some (L', r) \<Longrightarrow> usable L'"
  by (auto simp: on_ctx_def usable_def split: if_splits Option.bind_splits)

lemma connect_usable: "MQTTClient_connect K reg will sent e1 e2 L = Some (L', r) \<Longrightarrow> usable L'"
  by (auto simp: MQTTClient_connect_def usable_def split: if_splits Option.bind_splits)

lemma lib_call_usable:
  "lib_call W f s = Some (s', r) \<Longrightarrow> (\<And>L' r. f (st_lib s) = Some (L', r) \<Longrightarrow> usable L') \<Longrightarrow> usable (st_lib s')"
  by (auto simp: lib_call_def split: Option.bind_splits)

lemma connected_call_usable:
  assumes "connected_call W f g s = Some (s', r)" "\<And>L' r. f (st_lib s) = Some (L', r) \<Longrightarrow> usable L'"
  shows "if moduleState (st_if s) = MQTT_STATE_CONNECTED then usable (st_lib s') else st_lib s' = st_lib s"
proof (cases "moduleState (st_if s) = MQTT_STATE_CONNECTED")
  case True
  then obtain s1 x where s1: "lib_call W f s = Some (s1, x)" "if_call (g x) s1 = Some (s', r)"
    using assms(1) by (auto simp: connected_call_def split: Option.bind_splits)
  then have "st_lib s' = st_lib s1" by (auto simp: if_call_Some)
  then show ?thesis using lib_call_usable [OF s1(1) assms(2)] True by simp
qed (use assms(1) in \<open>auto simp: connected_call_def if_call_Some\<close>)

text \<open>Only a connection makes the module connected.\<close>

lemma unsub_loop_state:
  assumes "unsub_loop topic node prev s = Some x"
  shows "moduleState (fst x) = moduleState s"
  using assms
proof (rule unsub_loop.raw_induct [where P = "\<lambda>t n p s x. moduleState (fst x) = moduleState s", rotated])
  fix f topic node prev s x
  assume IH: "\<And>t n p s x. f t n p s = Some x \<Longrightarrow> moduleState (fst x) = moduleState s"
    and body: "(case node of None \<Rightarrow> Some (s, None) | Some c \<Rightarrow>
        do { n \<leftarrow> nodes s c; y \<leftarrow> MQTTHelperTopicMatching (n_topic n) (Some topic);
             if y = 1
             then do { s1 \<leftarrow> (if head s = Some c then Some (s\<lparr>head := n_next n\<rparr>)
                              else do { p \<leftarrow> prev; set_next p (n_next n) s });
                       s2 \<leftarrow> free_node c s1; Some (s2, Some y) }
             else f topic (n_next n) (Some c) s }) = Some x"
  from body show "moduleState (fst x) = moduleState s"
    by (auto simp: set_next_def free_node_def split: option.splits Option.bind_splits if_splits dest: IH)
qed

lemma state_kept:
  "MQTT_IF_Subscribe a ok x topic qos cb q = Some (q', r) \<Longrightarrow> moduleState q' = moduleState q"
  "MQTT_IF_Unsubscribe u topic q = Some (q', r) \<Longrightarrow> moduleState q' = moduleState q"
  "mqtt_publish slack dev y t payload q = Some (q', r) \<Longrightarrow> moduleState q' = moduleState q"
    apply (auto simp: MQTT_IF_Subscribe_def lock_def unlock_def free_node_def Let_def
        split: Option.bind_splits if_splits option.splits)[1]
   apply (fastforce simp: MQTT_IF_Unsubscribe_def lock_def unlock_def split: Option.bind_splits if_splits option.splits
      dest!: unsub_loop_state)
  apply (fastforce simp: mqtt_publish_def MQTT_IF_Publish_def lock_def unlock_def split: Option.bind_splits if_splits)
  done

lemma state_back:
  "MQTT_IF_Disconnect d q = Some (q', r) \<Longrightarrow> moduleState q' = MQTT_STATE_CONNECTED \<Longrightarrow> moduleState q = MQTT_STATE_CONNECTED"
  "MQTT_IF_Init m i mq t q = Some (q', r) \<Longrightarrow> moduleState q' = MQTT_STATE_CONNECTED \<Longrightarrow> moduleState q = MQTT_STATE_CONNECTED"
  "MQTT_IF_Deinit ok q = Some (q', r) \<Longrightarrow> moduleState q' = MQTT_STATE_CONNECTED \<Longrightarrow> moduleState q = MQTT_STATE_CONNECTED"
  by (auto simp: MQTT_IF_Disconnect_def MQTT_IF_Init_def MQTT_IF_Deinit_def lock_def unlock_def Let_def
      split: Option.bind_splits if_splits)

lemma queued_state: "queued W es q q' \<Longrightarrow> moduleState q' = moduleState q"
  by (auto simp: queued_def)

lemma connect_state:
  assumes "MQTT_IF_Connect h t c q = Some (q', r)" "moduleState q' = MQTT_STATE_CONNECTED"
  shows "moduleState q = MQTT_STATE_CONNECTED \<or> moduleState q = MQTT_STATE_INITIALIZED \<and> h \<noteq> None \<and> t = 0 \<and> 0 \<le> c"
  using assms
  by (auto simp: MQTT_IF_Connect_def lock_def unlock_def Let_def split: Option.bind_splits if_splits option.splits)

lemma connect_coherent:
  assumes "stack_connect W e p s = Some (s', r)" "moduleState (st_if s') = MQTT_STATE_CONNECTED"
    and "moduleState (st_if s) = MQTT_STATE_CONNECTED \<longrightarrow> usable (st_lib s)"
  shows "usable (st_lib s')"
proof (cases "moduleState (st_if s) = MQTT_STATE_INITIALIZED")
  case False
  then obtain q where "MQTT_IF_Connect None 0 0 (st_if s) = Some (q, r)" "s' = s\<lparr>st_if := q\<rparr>"
    using assms(1) by (auto simp: stack_connect_def if_call_Some)
  then have "moduleState (st_if s) = MQTT_STATE_CONNECTED" "st_lib s' = st_lib s"
    using connect_state [of None 0 0 "st_if s" q r] assms(2) by simp_all
  then show ?thesis using assms(3) by simp
next
  case True
  obtain sent e1 e2 where x: "co_exchange e = (sent, e1, e2)" by (metis surj_pair)
  obtain L1 h where c: "MQTTClient_create (w_codes W) (w_net W) (co_create e) (mqtt_connection_params W p) (st_lib s) = (L1, h)"
    by (metis surj_pair)
  show ?thesis
  proof (cases "h = None \<or> co_thread e \<noteq> 0")
    case failed: True
    then obtain q where "MQTT_IF_Connect h (co_thread e) 0 (st_if s) = Some (q, r)" "st_if s' = q"
      using assms(1) True x c by (auto simp: stack_connect_def if_call_Some)
    then show ?thesis using connect_state [of h "co_thread e" 0 "st_if s" q r] assms(2) failed True by auto
  next
    case False
    then obtain L2 s2 y where lc: "lib_call W (MQTTClient_connect (w_codes W) (co_reg e) (co_will e) sent e1 e2)
        (s\<lparr>st_lib := L2\<rparr>) = Some (s2, y)" "st_lib s' = st_lib s2"
      using assms(1) True x c by (auto simp: stack_connect_def if_call_Some split: Option.bind_splits)
    have "usable (st_lib s2)" by (rule lib_call_usable [OF lc(1)]) (rule connect_usable)
    then show ?thesis using lc(2) by simp
  qed
qed

lemma resub_usable: "stack_resub W as node prev t = Some t' \<Longrightarrow> usable (st_lib t) \<Longrightarrow> usable (st_lib t')"
proof (induction W as node prev t rule: stack_resub.induct)
  case (3 W sent e1 e2 acks node prev s)
  then obtain n s1 ret where n: "nodes (st_if s) node = Some n"
    and s1: "lib_call W (MQTTClient_subscribe (w_codes W) [(n_topic n, n_qos n)] sent e1 e2) s = Some (s1, ret)"
    by (auto split: Option.bind_splits)
  have u: "usable (st_lib s1)"
    by (rule lib_call_usable [OF s1 [unfolded MQTTClient_subscribe_def]]) (rule on_ctx_usable)
  show ?case
  proof (cases "ret < 0")
    case True
    then obtain q1 node' q2 where r: "resub_remove node n prev (st_if s1) = Some (q1, node')" "free_node node q1 = Some q2"
      "stack_resub W acks node' prev (s1\<lparr>st_if := q2\<rparr>) = Some t'"
      using "3.prems" n s1 by (auto split: Option.bind_splits)
    then show ?thesis using "3.IH"(1) [OF n s1 refl True r(1) refl r(2)] u by simp
  next
    case False
    then show ?thesis using "3.IH"(2) [OF n s1 refl False] "3.prems"(1) n s1 u by simp
  qed
qed simp_all

lemma event_coherent:
  assumes "stack_step W ev s = Some s'" "moduleState (st_if s') = MQTT_STATE_CONNECTED"
    and "moduleState (st_if s) = MQTT_STATE_CONNECTED \<longrightarrow> usable (st_lib s)"
  shows "usable (st_lib s')"
proof (cases ev)
  case (St_rx e)
  then obtain r where lc: "lib_call W (on_ctx (\<lambda>c. map_option (\<lambda>c'. (c', 0)) (deliver1 (w_codes W) e c))) s = Some (s', r)"
    using assms(1) by (auto simp: stack_rx_def)
  show ?thesis by (rule lib_call_usable [OF lc]) (rule on_ctx_usable)
next
  case (St_context e)
  then obtain q1 q2 es where "MQTTContextThread_end q1 = Some q2" "queued W es q2 (st_if s')"
    using context_module assms(1) by fastforce
  then have "moduleState (st_if s') = MQTT_STATE_INITIALIZED"
    by (auto simp: MQTTContextThread_end_def lock_def unlock_def queued_def split: if_splits)
  then show ?thesis using assms(2) by simp
next
  case (St_app acks)
  show ?thesis
  proof (cases "msgQueue (st_if s)")
    case Nil
    then show ?thesis using assms St_app by (auto simp: stack_app_def)
  next
    case (Cons q qs)
    then have turn: "stack_app W acks s = Some s'" using assms(1) St_app by simp
    obtain qa where "moduleState qa = moduleState (st_if s)" "queued W (acks_events acks) qa (st_if s')"
      using stack_app_turn [OF turn Cons] by blast
    then have "usable (st_lib s)" using assms(2,3) queued_state by metis
    then show ?thesis
      using turn Cons resub_usable
      by (auto simp: stack_app_def stack_handle_def Let_def split: Option.bind_splits if_splits)
  qed
qed

text \<open>A call of the library that leaves the module connected was made by a connected module, and leaves a client.\<close>

lemma call_coherent:
  assumes "connected_call W (on_ctx f) g s = Some (s', r)" "client_op (on_ctx f) es"
    and "moduleState (st_if s') = MQTT_STATE_CONNECTED"
    and "\<And>x q q'. g x q = Some (q', r) \<Longrightarrow> moduleState q' = MQTT_STATE_CONNECTED \<Longrightarrow> moduleState q = MQTT_STATE_CONNECTED"
  shows "usable (st_lib s')"
proof -
  obtain q1 q2 x where "queued W es (st_if s) q1" "g x q1 = Some (q2, r)" "st_if s' = q2"
    using connected_call_steps [OF assms(2,1)] by blast
  then have "moduleState (st_if s) = MQTT_STATE_CONNECTED" using assms(3,4) queued_state by metis
  then show ?thesis using connected_call_usable [OF assms(1) on_ctx_usable] by simp
qed

lemma subscribe_usable:
  assumes "stack_subscribe W node_addr ok x topic qos cb s = Some (s', r)" "moduleState (st_if s') = MQTT_STATE_CONNECTED"
    and "moduleState (st_if s) = MQTT_STATE_CONNECTED \<longrightarrow> usable (st_lib s)"
  shows "usable (st_lib s')"
proof -
  obtain sent e1 e2 where x: "x = (sent, e1, e2)" by (metis surj_pair)
  show ?thesis
  proof (cases "node_addr \<noteq> None \<and> ok")
    case True
    then have "connected_call W (on_ctx (MqttClientSub (w_codes W) [(topic, qos)] sent e1 e2))
        (\<lambda>r. MQTT_IF_Subscribe node_addr ok r topic qos cb) s = Some (s', r)"
      using assms(1) by (simp add: stack_subscribe_def x MQTTClient_subscribe_def)
    from call_coherent [OF this sub_op.client_op_axioms [unfolded MQTTClient_subscribe_def] assms(2)] state_kept(1)
    show ?thesis by metis
  next
    case False
    then have "connected_call W (\<lambda>L. Some (L, 0)) (\<lambda>r. MQTT_IF_Subscribe node_addr ok r topic qos cb) s = Some (s', r)"
      using assms(1) by (auto simp: stack_subscribe_def x)
    then have "st_lib s' = st_lib s" "moduleState (st_if s') = moduleState (st_if s)"
      using state_kept(1)
      by (auto simp: connected_call_def lib_call_def if_call_Some split: if_splits Option.bind_splits)
    then show ?thesis using assms(2,3) by simp
  qed
qed

definition client_ready :: "mqtt_stack \<Rightarrow> bool" where
  "client_ready s \<longleftrightarrow> (moduleState (st_if s) = MQTT_STATE_CONNECTED \<longrightarrow> usable (st_lib s))"

lemma coherent_split: "coherent s \<longleftrightarrow> if_inv (st_if s) \<and> client_ready s"
  by (simp add: coherent_def client_ready_def)

lemma move_ready:
  assumes "stack_move W d s s'" "client_ready s"
  shows "client_ready s'"
proof -
  have c: "moduleState (st_if s) = MQTT_STATE_CONNECTED \<longrightarrow> usable (st_lib s)" using assms(2) by (simp add: client_ready_def)
  have "usable (st_lib s')" if conn: "moduleState (st_if s') = MQTT_STATE_CONNECTED"
    using assms(1)
  proof cases
    case (init m i mq t r)
    then show ?thesis using state_back(2) conn c by (auto simp: if_call_Some mqtt_init_def)
  next
    case (deinit ok r)
    then show ?thesis using state_back(3) conn c by (auto simp: if_call_Some)
  next
    case (connect e p r)
    then show ?thesis using connect_coherent conn c by blast
  next
    case (disconnect x r)
    obtain sent e1 e2 where x: "x = (sent, e1, e2)" by (metis surj_pair)
    show ?thesis
      by (rule call_coherent [OF disconnect(2) [unfolded stack_disconnect_def x prod.case MQTTClient_disconnect_def]
          disconnect_op.client_op_axioms [unfolded MQTTClient_disconnect_def] conn]) (rule state_back(1))
  next
    case subscribe
    then show ?thesis using subscribe_usable conn c by blast
  next
    case (unsubscribe x topic r)
    obtain sent e1 e2 where x: "x = (sent, e1, e2)" by (metis surj_pair)
    from call_coherent [OF unsubscribe(2) [unfolded stack_unsubscribe_def x prod.case MQTTClient_unsubscribe_def]
        unsub_op.client_op_axioms [unfolded MQTTClient_unsubscribe_def] conn] state_kept(2)
    show ?thesis by metis
  next
    case (publish x t payload r)
    obtain sent e1 e2 where x: "x = (sent, e1, e2)" by (metis surj_pair)
    from call_coherent [OF publish(2) [unfolded stack_publish_def x prod.case MQTTClient_publish_def]
        publish_op.client_op_axioms [unfolded MQTTClient_publish_def] conn] state_kept(3)
    show ?thesis by metis
  next
    case (event ev)
    then show ?thesis using event_coherent conn c by blast
  qed
  then show ?thesis by (simp add: client_ready_def)
qed

end
