(* ===== verification/Mqtt_Stack_Props.thy ===== *)
theory Mqtt_Stack_Props
  imports Mqtt_Stack_Inv
begin

text \<open>
  What the composed MQTT stack does: the start of the application with every outcome of the connection, its invariant,
  and the two ways in which its threads block each other or work on a deleted client.
\<close>

section \<open>The connection of the application\<close>

text \<open>The context of the client when it has been created and configured.\<close>

definition fresh_client :: "mqtt_codes \<Rightarrow> string \<Rightarrow> MQTTClient_Ctx_t \<Rightarrow> MQTTClient_Ctx_t" where
  "fresh_client K cid c =
     (ctx_zero c)\<lparr>clientID := Some cid, mqttWill := mqttWillParams, inUse := True, awaitedAck := MQTT_DISCONNECT K,
       ackSyncObj := Some 0, blockingSend := True\<rparr>"

definition fresh_lib :: "mqtt_codes \<Rightarrow> string \<Rightarrow> mqtt_lib \<Rightarrow> mqtt_lib" where
  "fresh_lib K cid L =
     L\<lparr>ctxs := fresh_client K cid (hd (ctxs L)) # map ctx_zero (tl (ctxs L)), clientContext := Some 0,
       closeContext := False, multiSrvConn := False, connectCfg := (connectCfg L)\<lparr>keepAliveTimeout := 65535\<rparr>,
       waitSecs := 30, waitForMqttClose := Some 1, libLock := True, syncRxTx := Some 0, mutex := True\<rparr>"

lemma fresh_lib_simps [simp]:
  "cur (fresh_lib K cid L) = Some (fresh_client K cid (hd (ctxs L)))" "mutex (fresh_lib K cid L)"
  "syncRxTx (fresh_lib K cid L) = Some 0" "\<not> multiSrvConn (fresh_lib K cid L)"
  "waitForMqttClose (fresh_lib K cid L) = Some 1"
  "connectCfg (fresh_lib K cid L) = (connectCfg L)\<lparr>keepAliveTimeout := 65535\<rparr>"
  by (simp_all add: fresh_lib_def cur_def)

text \<open>The situation of the first connection: an initialised module, an unused library, and calls that succeed.\<close>

definition connectable :: "mqtt_world \<Rightarrow> connect_env \<Rightarrow> mqtt_lib \<Rightarrow> bool" where
  "connectable W e L \<longleftrightarrow>
     codes_ok (w_codes W) \<and> MQTTCLIENT_OPERATION_CONNACK (w_ops W) = MQTT_CONNACK (w_codes W)
     \<and> env_ok (co_create e) \<and> co_thread e = 0 \<and> 0 \<le> co_reg e \<and> 0 \<le> co_will e \<and> 0 \<le> fst (co_exchange e)
     \<and> fst (co_exchange e) < 32768
     \<and> w_ip4 W AND MQTT_DEV_NETCONN_OPT_SEC (w_net W) = 0 \<and> ctxs L \<noteq> []"

text \<open>The device after the start of the program, and when it waits for its connection with its one subscription at address \<open>a\<close>.\<close>

definition stack_boot :: "mqtt_lib \<Rightarrow> u16 \<Rightarrow> mqtt_stack" where
  "stack_boot L dev = \<lparr>st_if = mMQTTContext_init, st_lib = L, st_connected = False, st_dev = dev\<rparr>"

definition listening_if :: "nat \<Rightarrow> mqttContext" where
  "listening_if a = mMQTTContext_init\<lparr>moduleMutex := True, moduleState := MQTT_STATE_INITIALIZED,
     nodes := [a \<mapsto> \<lparr>n_topic = topic_1, n_qos = 0, topicCB = 0, n_next = None\<rparr>], head := Some a\<rparr>"

abbreviation listening :: "nat \<Rightarrow> mqtt_lib \<Rightarrow> u16 \<Rightarrow> mqtt_stack" where
  "listening a L dev \<equiv> (stack_boot L dev)\<lparr>st_if := listening_if a\<rparr>"

lemma stack_boot_simps [simp]:
  "st_if (stack_boot L dev) = mMQTTContext_init" "st_lib (stack_boot L dev) = L"
  "\<not> st_connected (stack_boot L dev)" "st_dev (stack_boot L dev) = dev"
  by (simp_all add: stack_boot_def)

lemma listening_if_simps [simp]:
  "moduleMutex (listening_if a)" "\<not> locked (listening_if a)" "moduleState (listening_if a) = MQTT_STATE_INITIALIZED"
  "head (listening_if a) = Some a" "msgQueue (listening_if a) = []" "cb_calls (listening_if a) = []"
  "pub_calls (listening_if a) = []" "\<not> clientDisconnectFlag (listening_if a)"
  "nodes (listening_if a) = [a \<mapsto> \<lparr>n_topic = topic_1, n_qos = 0, topicCB = 0, n_next = None\<rparr>]"
  by (simp_all add: listening_if_def mMQTTContext_init_def)

lemma start_listens:
  assumes "0 < mq"
  shows "stack_start W mq a e cid pauses polls (stack_boot L dev) =
    Option.bind (stack_mqtt_connect W e cid pauses (listening a L dev)) (stack_ask_for_id W polls)"
  using assms
  by (simp add: stack_start_def if_call_def mqtt_init_def MQTT_IF_Init_def lock_def unlock_def stack_subscribe_def
      connected_call_def MQTT_IF_Subscribe_def Let_def mMQTTContext_init_def listening_if_def stack_boot_def)

lemma create_fresh:
  assumes "env_ok ev" "ctxs L \<noteq> []" "w_ip4 W AND MQTT_DEV_NETCONN_OPT_SEC (w_net W) = 0"
  shows "\<exists>L1. MQTTClient_create (w_codes W) (w_net W) ev (mqtt_connection_params W (mqtt_client_params cid)) L = (L1, Some 1)
    \<and> run (\<lambda>o1 L. map_option fst (MQTTClient_set o1 L)) (connect_options (mqtt_client_params cid)) L1
        = Some (fresh_lib (w_codes W) cid L)"
proof -
  obtain c cs where cs: "ctxs L = c # cs" using assms(2) by (cases "ctxs L") auto
  show ?thesis
    using assms(1,3) cs
    by (simp add: MQTTClient_create_def MqttClientConfig_def MQTTClient_clientCfg_def env_ok_def
        MqttClientCtxCreate_def Let_def cur_def set_cur_def mqtt_connection_params_def ctx_nwconn_def
        mqtt_client_params_def connect_options_def fresh_lib_def fresh_client_def ctx_zero_def)
qed

text \<open>The client when the connect message has been sent; and the connection, given what the wait for the answer makes of it.\<close>

abbreviation opened :: "mqtt_world \<Rightarrow> string \<Rightarrow> mqtt_lib \<Rightarrow> MQTTClient_Ctx_t" where
  "opened W cid L \<equiv> conn_pre (w_codes W) (clean (connectCfg L)) 65535 (fresh_client (w_codes W) cid (hd (ctxs L)))"

abbreviation lib_with :: "mqtt_world \<Rightarrow> string \<Rightarrow> mqtt_lib \<Rightarrow> MQTTClient_Ctx_t \<Rightarrow> mqtt_lib" where
  "lib_with W cid L c \<equiv> set_cur c ((fresh_lib (w_codes W) cid L)\<lparr>syncRxTx := Some 1\<rparr>)"

lemma opened_simps:
  assumes "codes_ok (w_codes W)"
  shows "app_log (opened W cid L) = app_log (hd (ctxs L))" "ackSyncObj (opened W cid L) = Some 0"
    "blockingSend (opened W cid L)" "\<not> connectedState (opened W cid L)" "subackQos (opened W cid L) = None"
    "core_log (opened W cid L) = core_log (hd (ctxs L)) @ [Core_registerCtxInfo (Some cid) None None,
       Core_registerWillInfo ''cc32xx_will_topic'' ''will_msg_works'' (MQTTClient_qos (w_codes W) ! 0) False,
       Core_sendConnectMsg (clean (connectCfg L)) 65535]"
  using assms
  by (simp_all add: conn_pre_def connect_will_def fresh_client_def ctx_zero_def mqttWillParams_def codes_ok_def)

lemma stack_connect_fresh:
  assumes "connectable W e (st_lib s)" "moduleState (st_if s) = MQTT_STATE_INITIALIZED" "co_exchange e = (sent, [], e2)"
    and "ack_wait (w_codes W) e2 (opened W cid (st_lib s)) = Some c4" "connect_result (w_codes W) sent c4 = (c5, ret)"
    and "app_log c4 = app_log (hd (ctxs (st_lib s))) @ evs" "run (MQTTClientCallback (w_ops W)) evs (st_if s) = Some q"
  shows "stack_connect W e (mqtt_client_params cid) s =
    if_call (MQTT_IF_Connect (Some 1) 0 (int16 ret)) (s\<lparr>st_if := q, st_lib := lib_with W cid (st_lib s) c5\<rparr>)"
proof -
  let ?K = "w_codes W" and ?L = "st_lib s"
  let ?c = "fresh_client ?K cid (hd (ctxs ?L))"
  have env: "env_ok (co_create e)" "ctxs ?L \<noteq> []" "w_ip4 W AND MQTT_DEV_NETCONN_OPT_SEC (w_net W) = 0" "0 \<le> sent"
    "codes_ok ?K" "co_thread e = 0" "0 \<le> co_reg e" "0 \<le> co_will e"
    using assms(1,3) by (auto simp: connectable_def)
  obtain L1 where L1: "MQTTClient_create ?K (w_net W) (co_create e) (mqtt_connection_params W (mqtt_client_params cid)) ?L
      = (L1, Some 1)"
    "run (\<lambda>o1 L. map_option fst (MQTTClient_set o1 L)) (connect_options (mqtt_client_params cid)) L1
      = Some (fresh_lib ?K cid ?L)"
    using create_fresh [OF env(1-3)] by auto
  have c: "awaitedAck ?c = MQTT_DISCONNECT ?K" "will_ok ?K (co_will e) ?c" "app_log ?c = app_log (hd (ctxs ?L))"
    using env by (auto simp: fresh_client_def will_ok_def mqttWillParams_def codes_ok_def ctx_zero_def)
  have "MQTTClient_connect ?K (co_reg e) (co_will e) sent [] e2 (fresh_lib ?K cid ?L) = Some (lib_with W cid ?L c5, int16 ret)"
    using connect_sends [OF c(1) env(7) c(2), of "clean (connectCfg ?L)" 65535 sent "[]" e2] env(4) assms(4,5)
    by (simp add: MQTTClient_connect_def)
  moreover have "app_log c5 = app_log c4" by (rule result_log [OF assms(5)])
  ultimately have "lib_call W (MQTTClient_connect ?K (co_reg e) (co_will e) sent [] e2)
      (s\<lparr>st_lib := fresh_lib ?K cid ?L\<rparr>) = Some (s\<lparr>st_if := q, st_lib := lib_with W cid ?L c5\<rparr>, int16 ret)"
    using assms(6,7) c(3) by (simp add: lib_call_def)
  then show ?thesis using L1 assms(2,3) env(6) by (simp add: stack_connect_def)
qed

text \<open>The connection when the broker answers at once, and when the connection is lost instead.\<close>

definition answered :: "mqtt_world \<Rightarrow> string \<Rightarrow> mqtt_lib \<Rightarrow> u8 \<Rightarrow> u8 \<Rightarrow> MQTTClient_Ctx_t" where
  "answered W cid L b0 b1 = (app_call (OPERATION_CB_EVENT (MQTT_CONNACK (w_codes W)) (enc_w (connack_word b0 b1)))
     (opened W cid L))\<lparr>connAck := connack_word b0 b1, awaitedAck := 0, ackSyncObj := Some 0, connectedState := (b1 = 0)\<rparr>"

lemma if_connect_works:
  assumes "moduleState (st_if s) = MQTT_STATE_INITIALIZED" "moduleMutex (st_if s)" "\<not> locked (st_if s)" "0 \<le> r"
  shows "if_call (MQTT_IF_Connect (Some h) 0 r) s =
    Some (s\<lparr>st_if := (st_if s)\<lparr>eventCB := True, mqttClient := Some h, moduleState := MQTT_STATE_CONNECTED\<rparr>\<rparr>, h)"
  using assms by (cases "st_if s") (simp add: if_call_def MQTT_IF_Connect_def lock_def unlock_def Let_def)

lemma if_connect_fails:
  assumes "moduleState (st_if s) = MQTT_STATE_INITIALIZED" "moduleMutex (st_if s)" "\<not> locked (st_if s)" "r < 0"
  shows "if_call (MQTT_IF_Connect (Some h) 0 r) s =
    Some (s\<lparr>st_if := (st_if s)\<lparr>eventCB := True, mqttClient := Some h\<rparr>\<rparr>, r)"
  using assms by (cases "st_if s") (simp add: if_call_def MQTT_IF_Connect_def lock_def unlock_def Let_def)


lemma connack_low_zero: "connack_word b0 b1 AND 0xFF = 0 \<longleftrightarrow> b1 = 0"
  by (simp add: connack_word_low word_unat_eq_iff unsigned_ucast_eq take_bit_nat_eq_self unat_u8_lt [THEN order.strict_trans2])

definition connack_ret :: "u8 \<Rightarrow> u8 \<Rightarrow> int" where
  "connack_ret b0 b1 = (if b1 = 0 then 256 * int (unat b0) else - (256 * int (unat b0) + int (unat b1)))"

lemma connack_ret_int16:
  assumes "unat b0 < 128"
  shows "int16 (connack_ret b0 b1) = connack_ret b0 b1"
proof -
  obtain m n where n: "unat b0 = m" "unat b1 = n" by simp
  then show ?thesis
    using assms unat_u8_lt [of b1] unfolding connack_ret_def n by (intro int16_id) auto
qed

text \<open>The device when the answer of the broker is in the queue of the module.\<close>

definition connack_stack :: "mqtt_world \<Rightarrow> nat \<Rightarrow> string \<Rightarrow> mqtt_lib \<Rightarrow> u16 \<Rightarrow> u8 \<Rightarrow> u8 \<Rightarrow> mqtt_stack" where
  "connack_stack W a cid L dev b0 b1 =
     (listening a L dev)\<lparr>
       st_if := (listening_if a)\<lparr>msgQueue := [event_elem MQTT_EVENT_CONNACK], eventCB := True, mqttClient := Some 1,
         moduleState := (if b1 = 0 then MQTT_STATE_CONNECTED else MQTT_STATE_INITIALIZED)\<rparr>,
       st_lib := lib_with W cid L (answered W cid L b0 b1)\<rparr>"

lemma connect_answered:
  assumes "connectable W e L" "co_exchange e = (sent, [], [Rx_Ack (MQTT_CONNACK (w_codes W)) [b0, b1]])" "unat b0 < 128"
  shows "stack_connect W e (mqtt_client_params cid) (listening a L dev) =
    Some (connack_stack W a cid L dev b0 b1, if b1 = 0 then 1 else connack_ret b0 b1)"
proof -
  let ?K = "w_codes W" and ?p = "opened W cid L" and ?w = "connack_word b0 b1"
  have K: "codes_ok ?K" "MQTTCLIENT_OPERATION_CONNACK (w_ops W) = MQTT_CONNACK ?K"
    using assms(1) by (auto simp: connectable_def)
  have p: "ackSyncObj ?p = Some 0" using K(1) by (simp add: opened_simps)
  let ?ev = "OPERATION_CB_EVENT (MQTT_CONNACK ?K) (enc_w ?w)"
  let ?c4 = "(app_call ?ev (?p\<lparr>connAck := ?w, awaitedAck := 0\<rparr>))\<lparr>ackSyncObj := Some 0\<rparr>"
  have 1: "ack_wait ?K [Rx_Ack (MQTT_CONNACK ?K) [b0, b1]] ?p = Some ?c4"
    by (simp add: ack_wait_def processNotifyAckCB_def Let_def ack_post_def rd_def p)
  have 2: "connect_result ?K sent ?c4 = (answered W cid L b0 b1, connack_ret b0 b1)"
    using K(1) by (auto simp: connect_result_def connack_low_zero connack_word_nat answered_def connack_ret_def codes_ok_def)
  have 3: "app_log ?c4 = app_log (hd (ctxs L)) @ [?ev]" using K(1) by (simp add: opened_simps)
  have 4: "run (MQTTClientCallback (w_ops W)) [?ev] (listening_if a)
      = Some ((listening_if a)\<lparr>msgQueue := [event_elem MQTT_EVENT_CONNACK]\<rparr>)"
    using K(2) by (simp add: operation_event_def mq_send_def MQ_MAXMSG_def)
  let ?s = "(listening a L dev)\<lparr>st_if := (listening_if a)\<lparr>msgQueue := [event_elem MQTT_EVENT_CONNACK]\<rparr>,
      st_lib := lib_with W cid L (answered W cid L b0 b1)\<rparr>"
  have "stack_connect W e (mqtt_client_params cid) (listening a L dev) =
      if_call (MQTT_IF_Connect (Some 1) 0 (int16 (connack_ret b0 b1))) ?s"
    using stack_connect_fresh [OF _ _ assms(2), of W "listening a L dev" cid ?c4] assms(1) 1 2 3 4 by simp
  moreover have "int16 (connack_ret b0 b1) = connack_ret b0 b1" by (rule connack_ret_int16 [OF assms(3)])
  ultimately show ?thesis
  proof (cases "b1 = 0")
    case True
    then show ?thesis
      using if_connect_works [of ?s "connack_ret b0 b1" 1]
        \<open>stack_connect W e _ _ = _\<close> \<open>int16 _ = _\<close>
      by (simp add: connack_ret_def connack_stack_def)
  next
    case False
    then have "0 < unat b1" by (simp add: unat_gt_0)
    then have "connack_ret b0 b1 < 0" using False unfolding connack_ret_def by (simp only: if_False)
    then show ?thesis
      using if_connect_fails [of ?s "connack_ret b0 b1" 1] False
        \<open>stack_connect W e _ _ = _\<close> \<open>int16 _ = _\<close>
      by (simp add: connack_stack_def listening_if_def mMQTTContext_init_def)
  qed
qed

text \<open>The device when the connection was lost before the answer.\<close>

definition lost_stack :: "mqtt_world \<Rightarrow> nat \<Rightarrow> string \<Rightarrow> mqtt_lib \<Rightarrow> u16 \<Rightarrow> mqtt_stack" where
  "lost_stack W a cid L dev =
     (listening a L dev)\<lparr>
       st_if := (listening_if a)\<lparr>msgQueue := [event_elem MQTT_EVENT_SERVER_DISCONNECT], eventCB := True, mqttClient := Some 1,
         moduleState := MQTT_STATE_CONNECTED\<rparr>,
       st_lib := lib_with W cid L ((app_call DISCONNECT_CB_EVENT (opened W cid L))
         \<lparr>awaitedAck := MQTT_DISCONNECT (w_codes W), ackSyncObj := Some 0\<rparr>)\<rparr>"

lemma connect_lost:
  assumes "connectable W e L" "co_exchange e = (sent, [], [Rx_Disconn])"
  shows "stack_connect W e (mqtt_client_params cid) (listening a L dev) = Some (lost_stack W a cid L dev, 1)"
proof -
  let ?K = "w_codes W" and ?p = "opened W cid L"
  have K: "codes_ok ?K" "0 \<le> sent" "sent < 32768" using assms by (auto simp: connectable_def)
  have p: "ackSyncObj ?p = Some 0" using K(1) by (simp add: opened_simps)
  let ?c4 = "(app_call DISCONNECT_CB_EVENT ?p)\<lparr>awaitedAck := MQTT_DISCONNECT ?K, ackSyncObj := Some 0\<rparr>"
  have 1: "ack_wait ?K [Rx_Disconn] ?p = Some ?c4"
    using K(1) by (auto simp: ack_wait_def processDisconnCB_def ack_post_def p codes_ok_def)
  have 2: "connect_result ?K sent ?c4 = (?c4, sent)" by (simp add: connect_result_def)
  have 3: "app_log ?c4 = app_log (hd (ctxs L)) @ [DISCONNECT_CB_EVENT]" using K(1) by (simp add: opened_simps)
  have 4: "run (MQTTClientCallback (w_ops W)) [DISCONNECT_CB_EVENT] (listening_if a)
      = Some ((listening_if a)\<lparr>msgQueue := [event_elem MQTT_EVENT_SERVER_DISCONNECT]\<rparr>)"
    by (simp add: mq_send_def MQ_MAXMSG_def)
  let ?s = "(listening a L dev)\<lparr>st_if := (listening_if a)\<lparr>msgQueue := [event_elem MQTT_EVENT_SERVER_DISCONNECT]\<rparr>,
      st_lib := lib_with W cid L ?c4\<rparr>"
  have "stack_connect W e (mqtt_client_params cid) (listening a L dev) = if_call (MQTT_IF_Connect (Some 1) 0 (int16 sent)) ?s"
    using stack_connect_fresh [OF _ _ assms(2), of W "listening a L dev" cid ?c4 ?c4] assms(1) 1 2 3 4 by simp
  moreover have "int16 sent = sent" using K by simp
  ultimately show ?thesis using if_connect_works [of ?s sent 1] K(2) by (simp add: lost_stack_def)
qed

section \<open>Waiting for the connection\<close>

text \<open>The events that the other threads take from the broker.\<close>

fun rx_events :: "stack_event \<Rightarrow> rx_event list" where
  "rx_events (St_rx e) = [e]"
| "rx_events (St_app acks) = acks_events acks"
| "rx_events (St_context e) = (case ce_disc e of (_, e1, e2) \<Rightarrow> e1 @ e2)"

definition no_connack :: "mqtt_world \<Rightarrow> stack_event \<Rightarrow> bool" where
  "no_connack W ev \<longleftrightarrow> (\<forall>t buf. Rx_Ack t buf \<in> set (rx_events ev) \<longrightarrow> t \<noteq> MQTTCLIENT_OPERATION_CONNACK (w_ops W))"

lemma no_connack_brings:
  assumes "no_connack W ev" "e \<in> set (rx_events ev)" "brings (w_ops W) e x"
  shows "q_event x \<noteq> MQTT_EVENT_CONNACK"
  using assms by (cases e) (auto simp: no_connack_def operation_event_def split: if_splits)

lemma queued_no_connack:
  assumes "queued W (rx_events ev) q q'" "no_connack W ev" "\<forall>x\<in>set (msgQueue q). q_event x \<noteq> MQTT_EVENT_CONNACK"
  shows "\<forall>x\<in>set (msgQueue q'). q_event x \<noteq> MQTT_EVENT_CONNACK"
proof -
  obtain xs where xs: "msgQueue q' = msgQueue q @ xs" "\<forall>x\<in>set xs. \<exists>e\<in>set (rx_events ev). arrives (w_ops W) e x"
    using assms(1) by (auto simp: queued_def)
  have "q_event x \<noteq> MQTT_EVENT_CONNACK" if x: "x \<in> set xs" for x
  proof -
    obtain e where "e \<in> set (rx_events ev)" "arrives (w_ops W) e x" using xs(2) x by blast
    then show ?thesis using no_connack_brings [OF assms(2)] arrives_brings by blast
  qed
  then show ?thesis using xs(1) assms(3) by auto
qed

lemma connected_after_calls:
  "list_all (call_of q) cs \<Longrightarrow> q_event q \<noteq> MQTT_EVENT_CONNACK \<Longrightarrow> \<not> connected_after cs False"
proof (induction cs)
  case (Cons c cs)
  show ?case
  proof (cases c)
    case (EventCB e)
    then have "mqtt_event_callback e False = False"
      using Cons.prems by (auto simp: mqtt_event_callback_def split: mqtt_event.splits)
    then show ?thesis using Cons EventCB by simp
  qed (use Cons in simp)
qed simp

text \<open>The device waits, and no CONNACK is on its way to the flag.\<close>

definition unheard :: "mqtt_stack \<Rightarrow> bool" where
  "unheard s \<longleftrightarrow> \<not> st_connected s \<and> (\<forall>x\<in>set (msgQueue (st_if s)). q_event x \<noteq> MQTT_EVENT_CONNACK)"

lemma step_unheard:
  assumes "unheard s" "no_connack W ev" "stack_step W ev s = Some s'"
  shows "unheard s'"
proof (cases ev)
  case (St_rx e)
  then obtain r where "lib_call W (on_ctx (\<lambda>c. map_option (\<lambda>c'. (c', 0)) (deliver1 (w_codes W) e c))) s = Some (s', r)"
    using assms(3) by (auto simp: stack_rx_def)
  note a = rx_op.appends [OF this]
  show ?thesis
    using queued_no_connack [of W ev, OF _ assms(2)] a assms(1) St_rx by (simp add: unheard_def)
next
  case (St_context e)
  then obtain q1 q2 where c: "queued W [] (st_if s) q1" "MQTTContextThread_end q1 = Some q2"
    "queued W (rx_events ev) q2 (st_if s')" "st_connected s' = st_connected s"
    using context_module assms(3) by fastforce
  have "msgQueue q2 = msgQueue (st_if s)"
    using c(1,2) by (auto simp: queued_def MQTTContextThread_end_def lock_def unlock_def split: if_splits)
  then show ?thesis using queued_no_connack [OF c(3) assms(2)] c(4) assms(1) by (simp add: unheard_def)
next
  case (St_app acks)
  show ?thesis
  proof (cases "msgQueue (st_if s)")
    case Nil
    then show ?thesis using assms St_app by (simp add: stack_app_def)
  next
    case (Cons q qs)
    have "stack_app W acks s = Some s'" using assms(3) St_app by simp
    from stack_app_turn [OF this Cons] obtain qa cs where t: "msgQueue qa = qs"
      "queued W (rx_events ev) qa (st_if s')" "list_all (call_of q) cs"
      "st_connected s' = connected_after cs (st_connected s)"
      using St_app by auto
    have "q_event q \<noteq> MQTT_EVENT_CONNACK" "\<forall>x\<in>set (msgQueue qa). q_event x \<noteq> MQTT_EVENT_CONNACK"
      using assms(1) Cons t(1) by (simp_all add: unheard_def)
    then show ?thesis
      using queued_no_connack [OF t(2) assms(2)] connected_after_calls [OF t(3)] t(4) assms(1)
      by (simp add: unheard_def)
  qed
qed

lemma run_unheard:
  "unheard s \<Longrightarrow> list_all (no_connack W) es \<Longrightarrow> run (stack_step W) es s = Some s' \<Longrightarrow> unheard s'"
proof (induction es arbitrary: s)
  case (Cons e es)
  then obtain s1 where "stack_step W e s = Some s1" "run (stack_step W) es s1 = Some s'"
    by (auto split: Option.bind_splits)
  then show ?case using Cons step_unheard by fastforce
qed simp

lemma wait_unheard:
  "unheard s \<Longrightarrow> \<forall>es\<in>set pauses. list_all (no_connack W) es \<Longrightarrow> wait_flag W pauses s = None"
proof (induction pauses arbitrary: s)
  case Nil
  then show ?case by (simp add: wait_flag.simps unheard_def)
next
  case (Cons es pauses)
  show ?case
  proof (cases "run (stack_step W) es s")
    case (Some s')
    then have "unheard s'" using Cons.prems by (auto intro: run_unheard)
    then have "wait_flag W pauses s' = None" using Cons by simp
    then show ?thesis using Some Cons.prems(1) by (simp add: wait_flag.simps [of W "es # pauses"] unheard_def)
  qed (use Cons.prems(1) in \<open>simp add: wait_flag.simps [of W "es # pauses"] unheard_def\<close>)
qed

text \<open>
  (C10) A connection that is lost while its CONNACK is awaited hangs the start of the device: the library reports
  success, so the module is connected although its client is not; the flag that the start waits for is set only by a
  CONNACK, which cannot come any more. Nothing that the other threads do or the broker sends ends this wait.
\<close>

theorem lost_connack_hangs_startup:
  assumes "connectable W e L" "co_exchange e = (sent, [], [Rx_Disconn])" "0 < mq"
    and "\<forall>es\<in>set pauses. list_all (no_connack W) es"
  shows "stack_start W mq a e cid pauses polls (stack_boot L dev) = None
    \<and> (\<exists>s c. stack_connect W e (mqtt_client_params cid) (listening a L dev) = Some (s, 1)
        \<and> moduleState (st_if s) = MQTT_STATE_CONNECTED \<and> cur (st_lib s) = Some c
        \<and> awaitedAck c = MQTT_DISCONNECT (w_codes W) \<and> \<not> connectedState c \<and> wait_flag W pauses s = None)"
proof -
  let ?s = "lost_stack W a cid L dev"
  have K: "codes_ok (w_codes W)" using assms(1) by (simp add: connectable_def)
  have c: "stack_connect W e (mqtt_client_params cid) (listening a L dev) = Some (?s, 1)"
    by (rule connect_lost [OF assms(1,2)])
  have "unheard ?s" by (simp add: unheard_def lost_stack_def event_elem_def)
  then have "wait_flag W pauses ?s = None" using assms(4) by (rule wait_unheard)
  then show ?thesis
    using c start_listens [OF assms(3)] opened_simps(4) [OF K]
    by (simp add: stack_mqtt_connect_def lost_stack_def)
qed

text \<open>The codes of the SDK and a device, for the examples.\<close>

definition world_example :: mqtt_world where
  "world_example = \<lparr>w_codes = std_codes,
     w_ops = \<lparr>MQTTCLIENT_OPERATION_CONNACK = 2, MQTTCLIENT_OPERATION_EVT_PUBACK = 4, MQTTCLIENT_OPERATION_SUBACK = 9,
       MQTTCLIENT_OPERATION_UNSUBACK = 11\<rparr>,
     w_net = netconn_opts.make 1 2 4, w_ip4 = 8, w_mac = [1, 2, 3, 4, 5, 6], w_slack = 5, w_junk = replicate 16 0\<rparr>"

definition connect_example :: "exchange \<Rightarrow> connect_env" where
  "connect_example x = \<lparr>co_create = env_example, co_thread = 0, co_reg = 0, co_will = 0, co_exchange = x\<rparr>"

lemma connectable_example:
  "0 \<le> sent \<Longrightarrow> sent < 32768 \<Longrightarrow> connectable world_example (connect_example (sent, e1, e2)) lib_example"
  by (simp add: connectable_def world_example_def std_codes_ok connect_example_def env_ok_def env_example_def
      netconn_opts.make_def lib_example_def) (simp add: std_codes_def)

lemma world_example_simps [simp]: "w_codes world_example = std_codes"
  by (simp add: world_example_def)

lemma lost_connack_hangs_startup_witness:
  "stack_start world_example 1 7 (connect_example (0, [], [Rx_Disconn])) ''dev''
     [[St_app []], [St_rx Rx_Disconn, St_app []]] [] (stack_boot lib_example 0) = None"
proof -
  have "co_exchange (connect_example (0, [], [Rx_Disconn])) = (0, [], [Rx_Disconn])" by (simp add: connect_example_def)
  moreover have "\<forall>es\<in>set [[St_app []], [St_rx Rx_Disconn, St_app []]]. list_all (no_connack world_example) es"
    by (simp add: no_connack_def)
  ultimately show ?thesis
    using lost_connack_hangs_startup [OF connectable_example [of 0 "[]" "[Rx_Disconn]"], of 0 1] by simp
qed

section \<open>A refused connection\<close>

text \<open>Without a subscription no command reaches the application, and a module that is not connected sends nothing.\<close>

definition deaf :: "mqtt_stack \<Rightarrow> bool" where
  "deaf s \<longleftrightarrow> head (st_if s) = None \<and> moduleState (st_if s) = MQTT_STATE_INITIALIZED"

lemma queued_deaf:
  "queued W es q q' \<Longrightarrow> head q' = head q \<and> moduleState q' = moduleState q"
  by (auto simp: queued_def)

lemma app_handle_deaf:
  assumes "head q = None" "app_handle rets x q = Some (q', b)"
  shows "head q' = None \<and> (\<exists>es. cb_calls q' = cb_calls q @ map EventCB es)"
  using assms
  by (cases "q_event x")
    (auto simp: app_handle_def lock_def unlock_def call_event_def split: if_splits intro: exI [of _ "[]"] exI [of _ "[y]" for y])

lemma dev_after_events [simp]: "dev_after mac (map EventCB es) dev = Some dev"
  by (induction es) auto

lemma deaf_step:
  assumes "deaf s" "stack_step W ev s = Some s'"
  shows "deaf s' \<and> st_dev s' = st_dev s"
proof (cases ev)
  case (St_rx e)
  then obtain r where "lib_call W (on_ctx (\<lambda>c. map_option (\<lambda>c'. (c', 0)) (deliver1 (w_codes W) e c))) s = Some (s', r)"
    using assms(2) by (auto simp: stack_rx_def)
  note a = rx_op.appends [OF this]
  show ?thesis using queued_deaf [OF a(1)] a(3) assms(1) by (simp add: deaf_def)
next
  case (St_context e)
  then obtain q1 q2 es where c: "queued W [] (st_if s) q1" "MQTTContextThread_end q1 = Some q2"
    "queued W es q2 (st_if s')" "st_dev s' = st_dev s"
    using context_module assms(2) by fastforce
  have "head q2 = head q1" "moduleState q2 = MQTT_STATE_INITIALIZED"
    using c(2) by (auto simp: MQTTContextThread_end_def lock_def unlock_def split: if_splits)
  then show ?thesis using queued_deaf [OF c(1)] queued_deaf [OF c(3)] c(4) assms(1) by (simp add: deaf_def)
next
  case (St_app acks)
  show ?thesis
  proof (cases "msgQueue (st_if s)")
    case Nil
    then show ?thesis using assms St_app by (simp add: stack_app_def)
  next
    case (Cons q qs)
    have "stack_app W acks s = Some s'" using assms(2) St_app by simp
    from stack_app_turn [OF this Cons] obtain rets qa b cs where t: "MQTTAppThread rets (st_if s) = Some (qa, b)"
      "moduleState qa = moduleState (st_if s)" "cb_calls qa = cb_calls (st_if s) @ cs"
      "queued W (acks_events acks) qa (st_if s')" "dev_after (w_mac W) cs (st_dev s) = Some (st_dev s')" by auto
    have "app_handle rets q ((st_if s)\<lparr>msgQueue := qs\<rparr>) = Some (qa, b)" using t(1) Cons by (simp add: MQTTAppThread_def)
    then have "head qa = None \<and> (\<exists>es. cs = map EventCB es)"
      using app_handle_deaf [of "(st_if s)\<lparr>msgQueue := qs\<rparr>"] assms(1) t(3) by (fastforce simp: deaf_def)
    then show ?thesis using queued_deaf [OF t(4)] t(2,5) assms(1) by (auto simp: deaf_def)
  qed
qed

lemma deaf_run: "deaf s \<Longrightarrow> run (stack_step W) es s = Some s' \<Longrightarrow> deaf s' \<and> st_dev s' = st_dev s"
proof (induction es arbitrary: s)
  case (Cons e es)
  then obtain s1 where s1: "stack_step W e s = Some s1" "run (stack_step W) es s1 = Some s'"
    by (auto split: Option.bind_splits)
  then have "deaf s1 \<and> st_dev s1 = st_dev s" using Cons.prems(1) deaf_step by blast
  then show ?case using Cons.IH s1(2) by metis
qed simp

lemma deaf_publish:
  assumes "deaf s" "stack_publish W x t payload s = Some (s', r)"
  shows "deaf s' \<and> st_dev s' = st_dev s"
proof -
  obtain sent e1 e2 where x: "x = (sent, e1, e2)" by (metis surj_pair)
  obtain q where q: "mqtt_publish (w_slack W) (st_dev s) 0 t payload (st_if s) = Some (q, r)" "s' = s\<lparr>st_if := q\<rparr>"
    using assms by (auto simp: stack_publish_def x connected_call_def if_call_Some deaf_def)
  have "head q = head (st_if s)"
    using q(1) by (auto simp: mqtt_publish_def MQTT_IF_Publish_def lock_def unlock_def split: Option.bind_splits if_splits)
  then show ?thesis using state_kept(3) [OF q(1)] q(2) assms(1) by (simp add: deaf_def)
qed

lemma deaf_ask: "deaf s \<Longrightarrow> st_dev s = 255 \<Longrightarrow> stack_ask W msg polls s = None"
proof (induction polls arbitrary: s)
  case Nil
  then show ?case by (simp add: stack_ask.simps)
next
  case (Cons p ps)
  obtain x es where p: "p = (x, es)" by (cases p)
  show ?case
  proof (rule ccontr)
    assume "\<not> ?thesis"
    then obtain s1 r s2 where "stack_publish W x TYPE_CMD_DEFAULT_ID (take ready_cmd_len msg) s = Some (s1, r)"
      "run (stack_step W) es s1 = Some s2" "stack_ask W msg ps s2 \<noteq> None"
      using Cons.prems by (subst (asm) stack_ask.simps) (auto simp: p split: Option.bind_splits)
    then show False using Cons.IH [of s2] Cons.prems deaf_publish deaf_run by metis
  qed
qed

section \<open>The turn that renews the subscription\<close>

text \<open>Messages that arrive while the subscription waits for its answer.\<close>

abbreviation rx_pub :: "bool \<times> bool \<times> MQTT_Packet_t \<Rightarrow> rx_event" where
  "rx_pub \<equiv> \<lambda>(dup, retain, mqp). Rx_Publish dup retain mqp"

definition recv_event :: "bool \<times> bool \<times> MQTT_Packet_t \<Rightarrow> app_event" where
  "recv_event = (\<lambda>(dup, retain, mqp). RECV_CB_EVENT \<lparr>md_topic = pub_topic mqp, md_dup = dup,
     md_qos = MQTTClient_mqpPubQos mqp, md_retain = retain\<rparr> (pub_payload mqp))"

definition recv_elem :: "bool \<times> bool \<times> MQTT_Packet_t \<Rightarrow> msgQueue_elem" where
  "recv_elem = (\<lambda>(dup, retain, mqp). \<lparr>q_event = MQTT_EVENT_RECV, q_topic = pub_topic mqp,
     q_payload = pub_payload mqp @ [0], q_qos = MQTTClient_mqpPubQos mqp\<rparr>)"

lemma cb_elem_recv [simp]: "cb_elem P (recv_event p) = Some (recv_elem p)"
  by (cases p) (simp add: recv_event_def recv_elem_def)

lemma those_recv: "those (map (cb_elem P) (map recv_event ps)) = Some (map recv_elem ps)"
  by (induction ps) simp_all

lemma deliver_pubs:
  "awaitedAck c \<noteq> MQTT_DISCONNECT K \<Longrightarrow>
   deliver K (map rx_pub ps) c = Some (c\<lparr>app_log := app_log c @ map recv_event ps\<rparr>)"
proof (induction ps arbitrary: c)
  case (Cons p ps)
  then show ?case by (cases p) (simp add: processPublishRxCB_def recv_event_def)
qed simp

text \<open>A client that can send: its session is idle and its semaphore empty.\<close>

definition ready :: "MQTTClient_Ctx_t \<Rightarrow> core_call list \<Rightarrow> bool" where
  "ready c calls \<longleftrightarrow> awaitedAck c = 0 \<and> ackSyncObj c = Some 0 \<and> blockingSend c \<and> core_log c = calls"

lemma ready_subscribe:
  assumes "codes_ok K" "ready c calls" "0 \<le> sent" "n_qos n = 0"
  shows "\<exists>c'. MqttClientSub K [(n_topic n, n_qos n)] sent [] (map rx_pub ps @ [Rx_Ack (MQTT_SUBACK K) [code]]) c = Some (c', 0)
    \<and> ready c' (calls @ [Core_sendSubMsg [(n_topic n, MQTTClient_qos K ! 0)]]) \<and> app_log c' = app_log c @ map recv_event ps"
proof -
  have K: "MQTT_SUBACK K \<noteq> MQTT_DISCONNECT K" "MQTT_DISCONNECT K \<noteq> 0" "MQTT_SUBACK K \<noteq> MQTT_CONNACK K"
    "MQTTClient_qos K \<noteq> []" using assms(1) by (auto simp: codes_ok_def)
  then show ?thesis
    using assms(2-4)
    by (auto simp: MqttClientSub_def sub_topics_def AwaitedAckSet_def Let_def mqtt_limits ready_def ServerAckLockedWait_def
        ack_wait_def run_append deliver_pubs processNotifyAckCB_def suback_copy_def poke_def ack_match_def ack_post_def)
qed

lemma ready_refused:
  assumes "codes_ok K" "ready c calls" "sent < 0" "n_qos n = 0"
  shows "\<exists>c'. MqttClientSub K [(n_topic n, n_qos n)] sent [] [] c = Some (c', sent) \<and> app_log c' = app_log c"
proof -
  have K: "MQTT_DISCONNECT K \<noteq> 0" "MQTTClient_qos K \<noteq> []" using assms(1) by (auto simp: codes_ok_def)
  then show ?thesis
    using assms(2-4)
    by (auto simp: MqttClientSub_def sub_topics_def AwaitedAckSet_def Let_def mqtt_limits ready_def SetCondAwaitedAckLocked_def)
qed

text \<open>The device with one subscription and a client that can send.\<close>

definition subscribed :: "mqtt_world \<Rightarrow> nat \<Rightarrow> core_call list \<Rightarrow> mqtt_stack \<Rightarrow> bool" where
  "subscribed W a calls s \<longleftrightarrow>
     codes_ok (w_codes W) \<and> mutex (st_lib s) \<and> (\<exists>c. cur (st_lib s) = Some c \<and> ready c calls)
     \<and> moduleMutex (st_if s) \<and> \<not> locked (st_if s) \<and> eventCB (st_if s)
     \<and> head (st_if s) = Some a \<and> nodes (st_if s) = [a \<mapsto> \<lparr>n_topic = topic_1, n_qos = 0, topicCB = 0, n_next = None\<rparr>]"

text \<open>
  (C12) While the application thread renews the subscription, nobody empties its queue. The renewal succeeds exactly when
  the messages that arrive before the answer of the broker find room behind those that are there already; with
  one more the receive task waits for the application thread, which waits for the answer that only the receive task can
  take: the two threads block each other for ever.
\<close>

theorem renewal_needs_room:
  assumes "subscribed W a calls s" "msgQueue (st_if s) = event_elem MQTT_EVENT_CONNACK # qs" "0 \<le> sent"
  shows "stack_app W [(sent, [], map rx_pub ps @ [Rx_Ack (MQTT_SUBACK (w_codes W)) [code]])] s \<noteq> None
    \<longleftrightarrow> ps = [] \<or> length qs + length ps \<le> 10"
proof -
  let ?n = "\<lparr>n_topic = topic_1, n_qos = 0, topicCB = 0, n_next = None\<rparr> :: Node"
  let ?e2 = "map rx_pub ps @ [Rx_Ack (MQTT_SUBACK (w_codes W)) [code]]"
  let ?q = "(st_if s)\<lparr>msgQueue := qs, locked := True\<rparr>"
  obtain c where c: "cur (st_lib s) = Some c" "ready c calls" using assms(1) by (auto simp: subscribed_def)
  obtain c' where c': "MqttClientSub (w_codes W) [(n_topic ?n, n_qos ?n)] sent [] ?e2 c = Some (c', 0)"
    "app_log c' = app_log c @ map recv_event ps"
    using ready_subscribe [OF _ c(2) assms(3), of "w_codes W" ?n ps code] assms(1) by (auto simp: subscribed_def)
  have call: "lib_call W (MQTTClient_subscribe (w_codes W) [(n_topic ?n, n_qos ?n)] sent [] ?e2) (s\<lparr>st_if := ?q\<rparr>)
      = Option.bind (run (MQTTClientCallback (w_ops W)) (map recv_event ps) ?q)
          (\<lambda>q. Some (s\<lparr>st_if := q, st_lib := set_cur c' (st_lib s)\<rparr>, 0))"
    using c c' assms(1)
    by (simp add: lib_call_def MQTTClient_subscribe_def on_ctx_def subscribed_def int16_def)
  show ?thesis
  proof (cases "ps = [] \<or> length qs + length ps \<le> MQ_MAXMSG")
    case True
    then have "run (MQTTClientCallback (w_ops W)) (map recv_event ps) ?q
        = Some (?q\<lparr>msgQueue := qs @ map recv_elem ps\<rparr>)"
      by (subst run_callbacks_iff) (auto simp: those_recv simp del: map_map)
    then show ?thesis
      using True call assms(1,2)
      by (simp add: stack_app_def stack_handle_def subscribed_def event_elem_def lock_def unlock_def call_event_def Let_def
          MQ_MAXMSG_def)
  next
    case False
    then have "run (MQTTClientCallback (w_ops W)) (map recv_event ps) ?q \<noteq> Some q" for q
      by (subst run_callbacks_iff) auto
    then have "run (MQTTClientCallback (w_ops W)) (map recv_event ps) ?q = None" by auto
    then show ?thesis
      using False call assms(1,2)
      by (simp add: stack_app_def stack_handle_def subscribed_def event_elem_def lock_def MQ_MAXMSG_def)
  qed
qed

text \<open>The turn when the broker accepts the subscription, and when the request cannot be sent.\<close>

lemma renewal_accepted:
  assumes "subscribed W a calls s" "msgQueue (st_if s) = [event_elem MQTT_EVENT_CONNACK]" "0 \<le> sent"
  shows "\<exists>s'. stack_app W [(sent, [], [Rx_Ack (MQTT_SUBACK (w_codes W)) [code]])] s = Some s'
    \<and> subscribed W a (calls @ [Core_sendSubMsg [(topic_1, MQTTClient_qos (w_codes W) ! 0)]]) s'
    \<and> msgQueue (st_if s') = [] \<and> st_connected s' \<and> st_dev s' = st_dev s \<and> moduleState (st_if s') = moduleState (st_if s)
    \<and> pub_calls (st_if s') = pub_calls (st_if s)"
proof -
  let ?n = "\<lparr>n_topic = topic_1, n_qos = 0, topicCB = 0, n_next = None\<rparr> :: Node"
  obtain c where c: "cur (st_lib s) = Some c" "ready c calls" using assms(1) by (auto simp: subscribed_def)
  obtain c' where c': "MqttClientSub (w_codes W) [(topic_1, 0)] sent [] [Rx_Ack (MQTT_SUBACK (w_codes W)) [code]] c = Some (c', 0)"
    "ready c' (calls @ [Core_sendSubMsg [(topic_1, MQTTClient_qos (w_codes W) ! 0)]])" "app_log c' = app_log c"
    using ready_subscribe [OF _ c(2) assms(3), of "w_codes W" ?n "[]" code] assms(1) by (auto simp: subscribed_def)
  show ?thesis
    using assms(1,2) c c'
    by (simp add: stack_app_def stack_handle_def subscribed_def event_elem_def lock_def unlock_def call_event_def Let_def
        lib_call_def MQTTClient_subscribe_def on_ctx_def int16_def mqtt_event_callback_def)
qed

lemma renewal_refused:
  assumes "subscribed W a calls s" "msgQueue (st_if s) = [event_elem MQTT_EVENT_CONNACK]" "sent < 0" "- 32768 \<le> sent"
  shows "\<exists>s'. stack_app W [(sent, [], [])] s = Some s' \<and> head (st_if s') = None \<and> nodes (st_if s') = Map.empty
    \<and> st_connected s' \<and> moduleState (st_if s') = moduleState (st_if s)"
proof -
  let ?n = "\<lparr>n_topic = topic_1, n_qos = 0, topicCB = 0, n_next = None\<rparr> :: Node"
  obtain c where c: "cur (st_lib s) = Some c" "ready c calls" using assms(1) by (auto simp: subscribed_def)
  obtain c' where c': "MqttClientSub (w_codes W) [(topic_1, 0)] sent [] [] c = Some (c', sent)" "app_log c' = app_log c"
    using ready_refused [OF _ c(2) assms(3), of "w_codes W" ?n] assms(1) by (auto simp: subscribed_def)
  have "int16 sent < 0" using assms(3,4) by simp
  then show ?thesis
    using assms(1,2) c c'
    by (simp add: stack_app_def stack_handle_def subscribed_def event_elem_def lock_def unlock_def call_event_def Let_def
        lib_call_def MQTTClient_subscribe_def on_ctx_def mqtt_event_callback_def resub_remove_def free_node_def)
qed

lemma connack_subscribed:
  assumes "connectable W e L"
  shows "subscribed W a (core_log (answered W cid L b0 b1)) (connack_stack W a cid L dev b0 b1)"
    "msgQueue (st_if (connack_stack W a cid L dev b0 b1)) = [event_elem MQTT_EVENT_CONNACK]"
proof -
  have K: "codes_ok (w_codes W)" using assms by (simp add: connectable_def)
  show "subscribed W a (core_log (answered W cid L b0 b1)) (connack_stack W a cid L dev b0 b1)"
    using K opened_simps [OF K, where cid = cid and L = L]
    by (simp add: subscribed_def connack_stack_def ready_def answered_def)
qed (simp add: connack_stack_def)

text \<open>
  (C11) A refused connection hangs the start of the device, too, after it has announced success: the CONNACK sets the
  flag whatever its return code, so \<open>mqtt_connect\<close> returns, although the module is not connected; the turn that sets the flag loses the
  only subscription when its renewal cannot be sent. Then \<open>ask_for_id\<close> publishes nothing and hears nothing: it
  never ends, whatever happens.
\<close>

theorem refused_connack_hangs_startup:
  assumes "connectable W e L" "co_exchange e = (sent, [], [Rx_Ack (MQTT_CONNACK (w_codes W)) [b0, b1]])"
    and "unat b0 < 128" "b1 \<noteq> 0" "0 < mq" "ack < 0" "- 32768 \<le> ack"
  shows "(\<exists>s. stack_mqtt_connect W e cid ([St_app [(ack, [], [])]] # pauses) (listening a L dev) = Some s \<and> st_connected s
      \<and> moduleState (st_if s) = MQTT_STATE_INITIALIZED \<and> head (st_if s) = None)
    \<and> stack_start W mq a e cid ([St_app [(ack, [], [])]] # pauses) polls (stack_boot L dev) = None"
proof -
  let ?s = "connack_stack W a cid L dev b0 b1"
  note con = connect_answered [OF assms(1-3), of cid a dev]
  note sub = connack_subscribed [OF assms(1), where a = a and cid = cid and ?b0.0 = b0 and ?b1.0 = b1 and dev = dev]
  have s: "\<not> st_connected ?s" "moduleState (st_if ?s) = MQTT_STATE_INITIALIZED"
    using assms(4) by (simp_all add: connack_stack_def)
  obtain s' where s': "stack_app W [(ack, [], [])] ?s = Some s'" "head (st_if s') = None" "st_connected s'"
    "moduleState (st_if s') = MQTT_STATE_INITIALIZED"
    using renewal_refused [OF sub assms(6,7)] s(2) by auto
  have w: "stack_mqtt_connect W e cid ([St_app [(ack, [], [])]] # pauses) (listening a L dev) = Some s'"
    using con s s' by (simp add: stack_mqtt_connect_def wait_flag.simps)
  have "deaf (s'\<lparr>st_dev := 255\<rparr>)" using s' by (simp add: deaf_def)
  then have "stack_ask_for_id W polls s' = None" by (simp add: stack_ask_for_id_def deaf_ask)
  then show ?thesis using w s' start_listens [OF assms(5)] by simp
qed

lemma refused_connack_hangs_startup_witness:
  "stack_start world_example 1 7 (connect_example (0, [], [Rx_Ack 2 [0, 5]])) ''dev'' [[St_app [(- 1, [], [])]]]
     [((0, [], []), [])] (stack_boot lib_example 0) = None"
proof -
  have "co_exchange (connect_example (0, [], [Rx_Ack 2 [0, 5]]))
      = (0, [], [Rx_Ack (MQTT_CONNACK (w_codes world_example)) [0, 5]])"
    by (simp add: connect_example_def std_codes_def)
  then show ?thesis
    using refused_connack_hangs_startup [OF connectable_example [of 0 "[]" "[Rx_Ack 2 [0, 5]]"], of 0 0 5 1 "- 1" "''dev''" "[]"]
    by simp
qed

section \<open>A start that succeeds\<close>

text \<open>A publication of a connected device, and the answer that carries its number.\<close>

lemma subscribed_ok: "subscribed W a calls s \<Longrightarrow> if_ok (st_if s) [a]"
  by (simp add: subscribed_def if_ok_def)

lemma ready_publish:
  assumes "codes_ok K" "ready c calls"
  shows "\<exists>c' r. MqttClient_send K topic msg 0 retain sent [] [] c = Some (c', r) \<and> app_log c' = app_log c
    \<and> ready c' (calls @ [Core_sendPubMsg topic msg (MQTTClient_qos K ! 0) retain])"
proof -
  have "MQTT_DISCONNECT K \<noteq> 0" "MQTTClient_qos K \<noteq> []" using assms(1) by (auto simp: codes_ok_def)
  then show ?thesis
    using assms(2)
    by (auto simp: MqttClient_send_def awaited_acks_def rd_def AwaitedAckSet_def Let_def ready_def SetCondAwaitedAckLocked_def)
qed

definition online :: "mqtt_world \<Rightarrow> nat \<Rightarrow> core_call list \<Rightarrow> mqtt_stack \<Rightarrow> bool" where
  "online W a calls s \<longleftrightarrow> subscribed W a calls s \<and> msgQueue (st_if s) = [] \<and> moduleState (st_if s) = MQTT_STATE_CONNECTED
     \<and> st_connected s"

abbreviation publish_types :: "u16 set" where
  "publish_types \<equiv> {TYPE_CMD_DEFAULT_ID, TYPE_DATA_DEFAULT_ID, TYPE_CMD, TYPE_DATA}"

lemma online_publish:
  assumes "online W a calls s" "5 \<le> w_slack W" "t \<in> publish_types"
  shows "\<exists>s' r. stack_publish W (sent, [], []) t payload s = Some (s', r) \<and> st_dev s' = st_dev s
    \<and> online W a (calls @ [Core_sendPubMsg (publish_topic t (st_dev s)) payload (MQTTClient_qos (w_codes W) ! 0) False]) s'"
proof -
  have sub: "subscribed W a calls s" "moduleState (st_if s) = MQTT_STATE_CONNECTED" using assms(1) by (simp_all add: online_def)
  obtain c where c: "cur (st_lib s) = Some c" "ready c calls" "mutex (st_lib s)" "codes_ok (w_codes W)"
    using sub(1) by (auto simp: subscribed_def)
  let ?call = "Core_sendPubMsg (publish_topic t (st_dev s)) payload (MQTTClient_qos (w_codes W) ! 0) False"
  obtain c' r where c': "MqttClient_send (w_codes W) (publish_topic t (st_dev s)) payload 0 False sent [] [] c = Some (c', r)"
    "app_log c' = app_log c" "ready c' (calls @ [?call])"
    using ready_publish [OF c(4,2), of "publish_topic t (st_dev s)" payload False sent] by blast
  show ?thesis
    using assms sub c c' if_publish_connected [OF subscribed_ok [OF sub(1)] sub(2)]
    by (simp add: stack_publish_def connected_call_def lib_call_def MQTTClient_publish_def on_ctx_def if_call_def
        publish_topic_of [OF assms(3,2)] online_def subscribed_def)
qed

lemma topic_1_matches: "MQTTHelperTopicMatching topic_1 (Some topic_1) = Some 1"
  by (simp add: MQTTHelperTopicMatching.simps starts_def memcmp_eq_def topic_1_def after_slash_def)

text \<open>The identification of the device, as the broker delivers it.\<close>

definition id_message :: "mqtt_world \<Rightarrow> u16 \<Rightarrow> MQTT_Packet_t \<Rightarrow> bool" where
  "id_message W dev mqp \<longleftrightarrow> pub_topic mqp = topic_1 \<and>
     (\<exists>sz rest. pub_payload mqp = resp_id_message 0 CMD sz CMD_RESP_ID \<lparr>rsp_mac_addr = w_mac W, cmd_resp_id = dev\<rparr> @ rest)"

lemma online_identified:
  assumes "online W a calls s" "id_message W dev mqp" "length (w_mac W) = 6"
  shows "\<exists>s'. run (stack_step W) [St_rx (rx_pub (dup, retain, mqp)), St_app []] s = Some s' \<and> st_dev s' = dev \<and> online W a calls s'"
proof -
  let ?p = "(dup, retain, mqp)"
  obtain c where c: "cur (st_lib s) = Some c" "ready c calls" "mutex (st_lib s)" "codes_ok (w_codes W)"
    and q: "msgQueue (st_if s) = []" "moduleState (st_if s) = MQTT_STATE_CONNECTED"
    using assms(1) by (auto simp: online_def subscribed_def)
  obtain sz rest where m: "pub_topic mqp = topic_1"
    "pub_payload mqp = resp_id_message 0 CMD sz CMD_RESP_ID \<lparr>rsp_mac_addr = w_mac W, cmd_resp_id = dev\<rparr> @ rest"
    using assms(2) by (auto simp: id_message_def)
  let ?c = "c\<lparr>app_log := app_log c @ [recv_event ?p]\<rparr>"
  let ?s1 = "s\<lparr>st_if := (st_if s)\<lparr>msgQueue := [recv_elem ?p]\<rparr>, st_lib := set_cur ?c (st_lib s)\<rparr>"
  have "awaitedAck c \<noteq> MQTT_DISCONNECT (w_codes W)" using c(2,4) by (auto simp: ready_def codes_ok_def)
  then have d: "deliver1 (w_codes W) (rx_pub ?p) c = Some ?c" using deliver_pubs [of c "w_codes W" "[?p]"] by simp
  have "run (MQTTClientCallback (w_ops W)) [recv_event ?p] (st_if s) = Some ((st_if s)\<lparr>msgQueue := [recv_elem ?p]\<rparr>)"
    by (subst run_callbacks_iff) (simp add: q MQ_MAXMSG_def)
  then have rx: "stack_rx W (rx_pub ?p) s = Some ?s1"
    unfolding stack_rx_def using c d by (subst lib_call_ctx [where c = c and c' = ?c and r = 0 and evs = "[recv_event ?p]"]) simp_all
  have n: "nodes (st_if s) a = Some \<lparr>n_topic = topic_1, n_qos = 0, topicCB = 0, n_next = None\<rparr>"
    using assms(1) by (simp add: online_def subscribed_def)
  have ok: "if_ok (st_if s) [a]" using assms(1) by (auto simp: online_def intro: subscribed_ok)
  let ?q = "(st_if s)\<lparr>msgQueue := []\<rparr>"
  have ok': "if_ok ?q [a]" "moduleState ?q \<noteq> MQTT_STATE_IDLE" using ok q(2) by (simp_all add: if_ok_def)
  have el: "q_event (recv_elem ?p) = MQTT_EVENT_RECV" "q_topic (recv_elem ?p) = topic_1"
    "q_payload (recv_elem ?p) = pub_payload mqp @ [0]" using m(1) by (simp_all add: recv_elem_def)
  have h: "app_handle [] (recv_elem ?p) ?q = Some (?q\<lparr>cb_calls := cb_calls (st_if s) @
      [TopicCB 0 topic_1 (pub_payload mqp @ [0]) (q_qos (recv_elem ?p))]\<rparr>, False)"
    using recv_dispatch [OF ok' el(1), of "[]"] n el by (simp add: topic_1_matches)
  have "cmd_zero (w_mac W) (pub_payload mqp @ [0]) (st_dev s) = Some dev"
    using cmd_zero_message [of "\<lparr>rsp_mac_addr = w_mac W, cmd_resp_id = dev\<rparr>" "w_mac W" 0 CMD sz CMD_RESP_ID "rest @ [0]" "st_dev s"]
      assms(3) m(2) by simp
  then have "stack_app W [] ?s1 = Some (?s1\<lparr>st_if := ?q\<lparr>cb_calls := cb_calls (st_if s) @
      [TopicCB 0 topic_1 (pub_payload mqp @ [0]) (q_qos (recv_elem ?p))]\<rparr>, st_dev := dev\<rparr>)"
    using h el(1) assms(1) by (simp add: stack_app_def stack_handle_def Let_def online_def)
  then show ?thesis
    using rx assms(1) c by (simp add: online_def subscribed_def ready_def q)
qed

text \<open>Requests that nobody answers, and the one that is answered.\<close>

abbreviation request_of :: "mqtt_world \<Rightarrow> core_call" where
  "request_of W \<equiv> Core_sendPubMsg ''CC32xx/cmd/d2s/255'' (enc_header \<lparr>id_device = 255, msg_op = CMD, msg_size = 20\<rparr>
     @ enc_w CMD_READY @ w_mac W @ enc_w (9 :: u64)) (MQTTClient_qos (w_codes W) ! 0) False"

lemma ask_identifies:
  assumes "online W a calls s" "st_dev s = 255" "5 \<le> w_slack W" "length (w_mac W) = 6" "length (w_junk W) = 16"
    and "id_message W dev mqp" "dev \<noteq> 255"
  shows "\<exists>s'. stack_ask W (enc_msg_cmd (ready_message (w_mac W) (w_junk W)))
      (map (\<lambda>x. ((x, [], []), [])) sents @ [((sent, [], []), [St_rx (rx_pub (dup, retain, mqp)), St_app []])]) s = Some s'
    \<and> st_dev s' = dev \<and> online W a (calls @ replicate (Suc (length sents)) (request_of W)) s'"
  using assms(1,2)
proof (induction sents arbitrary: s calls)
  case Nil
  obtain s1 r where s1: "stack_publish W (sent, [], []) TYPE_CMD_DEFAULT_ID
      (take ready_cmd_len (enc_msg_cmd (ready_message (w_mac W) (w_junk W)))) s = Some (s1, r)"
    "online W a (calls @ [request_of W]) s1"
    using online_publish [OF Nil(1) assms(3), of TYPE_CMD_DEFAULT_ID] ready_message_bytes [OF assms(4,5)]
    by (force simp: publish_topic_def)
  obtain s2 where "run (stack_step W) [St_rx (rx_pub (dup, retain, mqp)), St_app []] s1 = Some s2" "st_dev s2 = dev"
    "online W a (calls @ [request_of W]) s2"
    using online_identified [OF s1(2) assms(6,4)] by blast
  then show ?case
    using s1 Nil(2) assms(7)
    by (simp add: stack_ask.simps [of _ _ "x # xs" for x xs] stack_ask.simps [of _ _ "[]"])
next
  case (Cons x sents)
  obtain s1 r where s1: "stack_publish W (x, [], []) TYPE_CMD_DEFAULT_ID
      (take ready_cmd_len (enc_msg_cmd (ready_message (w_mac W) (w_junk W)))) s = Some (s1, r)"
    "online W a (calls @ [request_of W]) s1" "st_dev s1 = 255"
    using online_publish [OF Cons.prems(1) assms(3), of TYPE_CMD_DEFAULT_ID] ready_message_bytes [OF assms(4,5)] Cons.prems(2)
    by (force simp: publish_topic_def)
  from Cons.IH [OF s1(2,3)] show ?case
    using s1 Cons.prems(2) by (simp add: stack_ask.simps [of _ _ "((x, [], []), []) # xs" for xs])
qed

lemma startup_online:
  assumes "connectable W e L" "co_exchange e = (sent, [], [Rx_Ack (MQTT_CONNACK (w_codes W)) [b0, 0]])" "unat b0 < 128"
    and "0 < mq" "0 \<le> ack" "5 \<le> w_slack W" "length (w_mac W) = 6" "length (w_junk W) = 16"
    and "id_message W dev' mqp" "dev' \<noteq> 255"
  shows "\<exists>s. stack_start W mq a e cid
      (replicate k [] @ [[St_app [(ack, [], [Rx_Ack (MQTT_SUBACK (w_codes W)) [code]])]]])
      (map (\<lambda>x. ((x, [], []), [])) sents @ [((last_sent, [], []), [St_rx (rx_pub (dup, retain, mqp)), St_app []])])
      (stack_boot L dev) = Some s
    \<and> st_dev s = dev' \<and> online W a (core_log (hd (ctxs L)) @
        [Core_registerCtxInfo (Some cid) None None,
         Core_registerWillInfo ''cc32xx_will_topic'' ''will_msg_works'' (MQTTClient_qos (w_codes W) ! 0) False,
         Core_sendConnectMsg (clean (connectCfg L)) 65535,
         Core_sendSubMsg [(topic_1, MQTTClient_qos (w_codes W) ! 0)]] @ replicate (Suc (length sents)) (request_of W)) s"
proof -
  let ?s = "connack_stack W a cid L dev b0 0"
  let ?turn = "St_app [(ack, [], [Rx_Ack (MQTT_SUBACK (w_codes W)) [code]])]"
  let ?polls = "map (\<lambda>x. ((x, [], []), [])) sents @ [((last_sent, [], []), [St_rx (rx_pub (dup, retain, mqp)), St_app []])]"
  let ?calls = "core_log (answered W cid L b0 0) @ [Core_sendSubMsg [(topic_1, MQTTClient_qos (w_codes W) ! 0)]]"
  note con = connect_answered [OF assms(1-3), of cid a dev]
  note sub = connack_subscribed [OF assms(1), where a = a and cid = cid and ?b0.0 = b0 and ?b1.0 = 0 and dev = dev]
  have K: "codes_ok (w_codes W)" using assms(1) by (simp add: connectable_def)
  have s: "\<not> st_connected ?s" "moduleState (st_if ?s) = MQTT_STATE_CONNECTED" by (simp_all add: connack_stack_def)
  obtain s1 where s1: "stack_app W [(ack, [], [Rx_Ack (MQTT_SUBACK (w_codes W)) [code]])] ?s = Some s1"
    "online W a ?calls s1"
    using renewal_accepted [OF sub assms(5), of code] s(2) by (auto simp: online_def)
  have "wait_flag W (replicate k [] @ [[?turn]]) ?s = Some s1"
  proof (induction k)
    case 0
    then show ?case using s s1 by (simp add: wait_flag.simps online_def)
  next
    case (Suc k)
    then show ?case using s by (simp add: wait_flag.simps [of W "[] # xs" for xs])
  qed
  then have w: "stack_mqtt_connect W e cid (replicate k [] @ [[?turn]]) (listening a L dev) = Some s1"
    using con by (simp add: stack_mqtt_connect_def)
  have "online W a ?calls (s1\<lparr>st_dev := 255\<rparr>)" using s1(2) by (simp add: online_def subscribed_def)
  from ask_identifies [OF this _ assms(6-10), of sents last_sent dup retain] obtain s2 where
    s2: "stack_ask_for_id W ?polls s1 = Some s2" "st_dev s2 = dev'"
    "online W a (?calls @ replicate (Suc (length sents)) (request_of W)) s2"
    by (auto simp: stack_ask_for_id_def)
  have "stack_start W mq a e cid (replicate k [] @ [[?turn]]) ?polls (stack_boot L dev) = Some s2"
    using start_listens [OF assms(4)] w s2(1) by simp
  then show ?thesis
    using s2(2,3) opened_simps(6) [OF K, where cid = cid and L = L] by (simp add: answered_def)
qed

text \<open>
  (C4) The start of the device on all its layers: when the broker accepts the connection and the subscription,
  the start waits exactly until the application thread has taken the CONNACK, and asks for a number until the broker sends one for
  its MAC address. It ends with this number, connected, and has sent, in this order, the registrations and
  the connect message, one subscription and one request of 20 bytes for each turn of waiting.
\<close>

theorem startup_identifies:
  assumes "connectable W e L" "co_exchange e = (sent, [], [Rx_Ack (MQTT_CONNACK (w_codes W)) [b0, 0]])" "unat b0 < 128"
    and "0 < mq" "0 \<le> ack" "5 \<le> w_slack W" "length (w_mac W) = 6" "length (w_junk W) = 16"
    and "id_message W dev' mqp" "dev' \<noteq> 255"
  shows "\<exists>s c. stack_start W mq a e cid
      (replicate k [] @ [[St_app [(ack, [], [Rx_Ack (MQTT_SUBACK (w_codes W)) [code]])]]])
      (map (\<lambda>x. ((x, [], []), [])) sents @ [((last_sent, [], []), [St_rx (rx_pub (dup, retain, mqp)), St_app []])])
      (stack_boot L dev) = Some s
    \<and> st_dev s = dev' \<and> st_connected s \<and> moduleState (st_if s) = MQTT_STATE_CONNECTED \<and> cur (st_lib s) = Some c
    \<and> core_log c = core_log (hd (ctxs L)) @
        [Core_registerCtxInfo (Some cid) None None,
         Core_registerWillInfo ''cc32xx_will_topic'' ''will_msg_works'' (MQTTClient_qos (w_codes W) ! 0) False,
         Core_sendConnectMsg (clean (connectCfg L)) 65535,
         Core_sendSubMsg [(topic_1, MQTTClient_qos (w_codes W) ! 0)]] @ replicate (Suc (length sents)) (request_of W)"
  using startup_online [OF assms] unfolding online_def subscribed_def ready_def by blast

text \<open>The identification with number 17.\<close>

definition id_packet :: MQTT_Packet_t where
  "id_packet = \<lparr>fhByte1 = 0x30, pub_topic = topic_1, pub_payload =
     resp_id_message 0 CMD 14 CMD_RESP_ID \<lparr>rsp_mac_addr = [1, 2, 3, 4, 5, 6], cmd_resp_id = 17\<rparr>\<rparr>"

lemma id_packet_ok: "id_message world_example 17 id_packet"
  by (simp add: id_message_def id_packet_def world_example_def) (metis append_Nil2)

lemma startup_identifies_witness:
  "\<exists>s. stack_start world_example 1 7 (connect_example (0, [], [Rx_Ack 2 [0, 0]])) ''dev''
     (replicate 3 [] @ [[St_app [(0, [], [Rx_Ack 9 [0]])]]])
     (map (\<lambda>x. ((x, [], []), [])) [0, - 1] @ [((0, [], []), [St_rx (rx_pub (False, False, id_packet)), St_app []])])
     (stack_boot lib_example 0) = Some s \<and> st_dev s = 17 \<and> st_connected s"
proof -
  have w: "w_slack world_example = 5" "length (w_mac world_example) = 6" "length (w_junk world_example) = 16"
    by (simp_all add: world_example_def)
  have K: "MQTT_SUBACK std_codes = 9" "MQTT_CONNACK std_codes = 2" by (simp_all add: std_codes_def)
  have "co_exchange (connect_example (0, [], [Rx_Ack 2 [0, 0]])) = (0, [], [Rx_Ack (MQTT_CONNACK (w_codes world_example)) [0, 0]])"
    by (simp add: connect_example_def K)
  from startup_identifies [OF connectable_example [of 0 "[]" "[Rx_Ack 2 [0, 0]]"] this, of 1 0 17 id_packet 7 "''dev''" 3 0 "[0, - 1]" 0 False False 0]
  show ?thesis using w id_packet_ok by (auto simp: K)
qed

lemma renewal_needs_room_witness:
  "stack_app world_example [(0, [], map rx_pub (replicate 11 (False, False, id_packet)) @ [Rx_Ack 9 [0]])]
     (connack_stack world_example 7 ''dev'' lib_example 0 0 0) = None
   \<and> stack_app world_example [(0, [], map rx_pub (replicate 10 (False, False, id_packet)) @ [Rx_Ack 9 [0]])]
     (connack_stack world_example 7 ''dev'' lib_example 0 0 0) \<noteq> None"
proof -
  note sub = connack_subscribed [OF connectable_example [of 0 "[]" "[]"], where a = 7 and cid = "''dev''" and ?b0.0 = 0 and ?b1.0 = 0
      and dev = 0, simplified]
  note iff = renewal_needs_room [OF sub(1) sub(2), of 0 "replicate n (False, False, id_packet)" 0 for n]
  have K: "MQTT_SUBACK (w_codes world_example) = 9" by (simp add: std_codes_def)
  show ?thesis using iff [of 11] iff [of 10] unfolding K by simp
qed

section \<open>The invariant of the stack\<close>

text \<open>A connected client accepts any message with quality of service 0.\<close>

lemma usable_publish:
  assumes "usable L" "codes_ok K"
  shows "\<exists>L' r. MQTTClient_publish K topic msg 0 retain sent [] [] L = Some (L', r) \<and> app_events L' = app_events L"
proof -
  obtain c where c: "mutex L" "cur L = Some c" using assms(1) by (auto simp: usable_def)
  have "MQTTClient_qos K \<noteq> []" using assms(2) by (auto simp: codes_ok_def)
  then have "\<exists>c' r. MqttClient_send K topic msg 0 retain sent [] [] c = Some (c', r) \<and> app_log c' = app_log c"
    by (cases "awaitedAck c = MQTT_DISCONNECT K"; cases "sent < 0")
      (simp_all add: MqttClient_send_def awaited_acks_def rd_def AwaitedAckSet_def SetCondAwaitedAckLocked_def)
  then show ?thesis using c by (auto simp: MQTTClient_publish_def on_ctx_def)
qed

lemma stack_reachable:
  assumes "stack_run W (stack_boot L dev) refused s"
  shows "if_run mMQTTContext_init refused (st_if s) \<and> client_ready s"
  using assms
proof induction
  case stack_start
  show ?case by (simp add: if_run.run_start client_ready_def stack_boot_def) (simp add: mMQTTContext_init_def)
next
  case (stack_next refused s r s')
  then obtain q where "if_step\<^sup>*\<^sup>* (st_if s) q" "if_move r q (st_if s') \<or> \<not> r \<and> q = st_if s'"
    using move_module by blast
  then have "if_run mMQTTContext_init (refused \<or> r) (st_if s')"
    using run_steps stack_next.IH run_move by (metis (full_types))
  then show ?case using move_ready stack_next by blast
qed

lemma stack_coherent: "stack_run W (stack_boot L dev) False s \<Longrightarrow> coherent s"
  unfolding coherent_split using stack_reachable run_invariant by blast

text \<open>
  (C5) Whatever the application, the two threads of the module and the receive task do after the start, in any order, and
  whatever the broker and the core library answer, the stack does nothing to the module that the module does not do by itself,
  the results of the library being those that the library computes, with the same refused subscriptions. A module that says
  it is connected always has a client: with five spare bytes behind the arrays of \<open>mqtt_publish\<close>, a publication to which
  no callback replies is carried out, once. The list of the subscriptions is intact as long as no subscription has been refused.
\<close>

theorem stack_refines_module:
  assumes "stack_run W (stack_boot L dev) refused s"
  shows "if_run mMQTTContext_init refused (st_if s)
    \<and> (\<not> refused \<longrightarrow> (\<exists>as. lst (nodes (st_if s)) (head (st_if s)) as))
    \<and> (moduleState (st_if s) = MQTT_STATE_CONNECTED \<longrightarrow> usable (st_lib s))
    \<and> (moduleState (st_if s) = MQTT_STATE_CONNECTED \<longrightarrow> codes_ok (w_codes W) \<longrightarrow> 5 \<le> w_slack W \<longrightarrow> t \<in> publish_types \<longrightarrow>
        (\<exists>s' r. stack_publish W (sent, [], []) t payload s = Some (s', r)
           \<and> pub_calls (st_if s') = pub_calls (st_if s) @ [(publish_topic t (st_dev s), payload)]))"
proof -
  have r: "if_run mMQTTContext_init refused (st_if s)" "client_ready s" using stack_reachable [OF assms] by simp_all
  note inv = run_invariant [OF r(1)]
  have "\<exists>s' r. stack_publish W (sent, [], []) t payload s = Some (s', r)
      \<and> pub_calls (st_if s') = pub_calls (st_if s) @ [(publish_topic t (st_dev s), payload)]"
    if c: "moduleState (st_if s) = MQTT_STATE_CONNECTED" and K: "codes_ok (w_codes W)" and t: "5 \<le> w_slack W" "t \<in> publish_types"
  proof -
    have "usable (st_lib s)" using r(2) c by (simp add: client_ready_def)
    then obtain L' r where "MQTTClient_publish (w_codes W) (publish_topic t (st_dev s)) payload 0 False sent [] [] (st_lib s) = Some (L', r)"
      "app_events L' = app_events (st_lib s)"
      using usable_publish [OF _ K, of "st_lib s" "publish_topic t (st_dev s)" payload False sent] by blast
    then show ?thesis
      using c if_publish_free [OF conjunct1 [OF inv] c]
      by (simp add: stack_publish_def connected_call_def lib_call_def if_call_def publish_topic_of [OF t(2,1)])
  qed
  then show ?thesis using r inv by (auto simp: if_inv_def if_ok_def client_ready_def)
qed

text \<open>The device of the examples, connected.\<close>

lemma connected_reached:
  "stack_run world_example (stack_boot lib_example 0) False (connack_stack world_example 7 ''dev'' lib_example 0 0 0)"
proof -
  let ?W = world_example and ?e = "connect_example (0, [], [Rx_Ack 2 [0, 0]])"
  let ?s0 = "stack_boot lib_example 0"
  obtain s1 where s1: "if_call (mqtt_init True 0 1 0) ?s0 = Some (s1, 0)" "nodes (st_if s1) 7 = None"
    "stack_subscribe ?W (Some 7) True (0, [], []) topic_1 0 0 s1 = Some (listening 7 lib_example 0, 0)"
    by (simp add: if_call_def mqtt_init_def MQTT_IF_Init_def lock_def unlock_def stack_subscribe_def stack_boot_def
        connected_call_def MQTT_IF_Subscribe_def Let_def mMQTTContext_init_def listening_if_def)
  have "co_exchange ?e = (0, [], [Rx_Ack (MQTT_CONNACK (w_codes ?W)) [0, 0]])"
    by (simp add: connect_example_def std_codes_def)
  from connect_answered [OF connectable_example [of 0 "[]" "[Rx_Ack 2 [0, 0]]"] this, of "''dev''" 7 0]
  have "stack_connect ?W ?e (mqtt_client_params ''dev'') (listening 7 lib_example 0)
      = Some (connack_stack ?W 7 ''dev'' lib_example 0 0 0, 1)" by simp
  then have m3: "stack_move ?W False (listening 7 lib_example 0) (connack_stack ?W 7 ''dev'' lib_example 0 0 0)" by (rule stack_move.connect)
  have m2: "stack_move ?W False s1 (listening 7 lib_example 0)"
    using stack_move.subscribe [OF _ s1(3)] s1(2) by (simp add: refusal_def)
  have m1: "stack_move ?W False ?s0 s1" by (rule stack_move.init [OF s1(1)])
  have "stack_run ?W ?s0 (((False \<or> False) \<or> False) \<or> False) (connack_stack ?W 7 ''dev'' lib_example 0 0 0)"
    by (rule stack_next [OF stack_next [OF stack_next [OF stack_start m1] m2] m3])
  then show ?thesis by simp
qed

lemma connack_example_connected:
  "moduleState (st_if (connack_stack world_example 7 ''dev'' lib_example 0 0 0)) = MQTT_STATE_CONNECTED"
  by (simp add: connack_stack_def)

lemma stack_refines_module_witness:
  "\<exists>s' r. stack_publish world_example (0, [], []) TYPE_DATA [1, 2] (connack_stack world_example 7 ''dev'' lib_example 0 0 0) = Some (s', r)
    \<and> pub_calls (st_if s') = [(publish_topic TYPE_DATA 0, [1, 2])]"
proof -
  let ?s = "connack_stack world_example 7 ''dev'' lib_example 0 0 0"
  have "pub_calls (st_if ?s) = []" "st_dev ?s = 0" "w_slack world_example = 5"
    by (simp_all add: connack_stack_def world_example_def)
  then show ?thesis
    using stack_refines_module [OF connected_reached, of TYPE_DATA 0 "[1, 2]"] connack_example_connected std_codes_ok by auto
qed

section \<open>A publication and the end of the connection\<close>

text \<open>
  (C13) A publication looks at the state of the module under its mutex, but calls the library without it. Undisturbed this is
  the publication of the module. When the context thread ends in between, it deletes the client and its mutex under the call, which
  is undefined, whereas a publication that starts after it is refused.
\<close>

theorem publish_races_deletion:
  assumes "coherent s" "moduleState (st_if s) = MQTT_STATE_CONNECTED" "mqttClient (st_if s) = Some 1"
    and "5 \<le> w_slack W" "t \<in> publish_types" "stack_context W e s = Some s1"
  shows "publish_check s = Some (s, True)
    \<and> stack_publish W x t payload s = map_option (\<lambda>(s', r). (s'\<lparr>st_if := (st_if s')\<lparr>pub_calls :=
        pub_calls (st_if s') @ [(publish_topic t (st_dev s), payload)]\<rparr>\<rparr>, r))
        (publish_call W x (publish_topic t (st_dev s)) payload s)
    \<and> publish_call W x topic payload s1 = None
    \<and> stack_publish W x t payload s1 = Some (s1, - 1)"
proof -
  obtain sent e1 e2 where x: "x = (sent, e1, e2)" by (metis surj_pair)
  obtain as where ok: "if_ok (st_if s) as" using assms(1) by (auto simp: coherent_def if_inv_def)
  have unlocked: "q\<lparr>locked := False\<rparr> = q" if "\<not> locked q" for q :: mqttContext using that by (cases q) simp
  have check: "publish_check s = Some (s, True)"
    using ok assms(2) by (simp add: publish_check_def lock_def unlock_def if_ok_def unlocked)
  have "stack_publish W x t payload s = map_option (\<lambda>(s', r). (s'\<lparr>st_if := (st_if s')\<lparr>pub_calls :=
        pub_calls (st_if s') @ [(publish_topic t (st_dev s), payload)]\<rparr>\<rparr>, r))
        (publish_call W x (publish_topic t (st_dev s)) payload s)"
  proof (cases "publish_call W x (publish_topic t (st_dev s)) payload s")
    case None
    then show ?thesis using assms(2) x by (simp add: stack_publish_def connected_call_def publish_call_def)
  next
    case (Some y)
    obtain s' r where y: "lib_call W (MQTTClient_publish (w_codes W) (publish_topic t (st_dev s)) payload 0 False sent e1 e2) s = Some (s', r)"
      "y = (s', r)" using Some x by (cases y) (simp add: publish_call_def)
    note a = publish_op.appends [OF y(1)]
    have "if_ok (st_if s') as" "moduleState (st_if s') = MQTT_STATE_CONNECTED"
      using a(1) ok assms(2) by (auto simp: queued_def if_ok_def)
    from if_publish_connected [OF this] show ?thesis
      using assms(2) x y Some
      by (simp add: stack_publish_def connected_call_def if_call_def publish_topic_of [OF assms(5,4)])
  qed
  moreover
  obtain q1 q2 s0 s2 r0 r2 where c: "lib_call W (MQTTClient_run (w_codes W) (ce_turns e)) s = Some (s0, r0)"
    "lock (st_if s0) = Some q1"
    "lib_call W (MQTTClient_delete (w_codes W) (mqttClient q1) (ce_disc e) (ce_delete e) (ce_posts e) (ce_exit e))
      (s0\<lparr>st_if := q1\<rparr>) = Some (s2, r2)"
    "unlock ((st_if s2)\<lparr>moduleState := MQTT_STATE_INITIALIZED\<rparr>) = Some q2" "s1 = s2\<lparr>st_if := q2\<rparr>"
    using assms(6) by (auto simp: stack_context_def split: Option.bind_splits)
  have "mqttClient q1 = Some 1"
    using run_op.appends(1) [OF c(1)] c(2) assms(3) by (auto simp: queued_def lock_def split: if_splits)
  then have "\<not> mutex (st_lib s2)"
    using c(3) by (auto simp: lib_call_def MQTTClient_delete_def Let_def split: Option.bind_splits prod.splits if_splits)
  then have "publish_call W x topic payload s1 = None"
    using c(5) x by (simp add: publish_call_def lib_call_def MQTTClient_publish_def on_ctx_def)
  moreover have "moduleState q2 = MQTT_STATE_INITIALIZED" "moduleMutex q2" "\<not> locked q2"
    using c(4) by (auto simp: unlock_def split: if_splits)
  then have "stack_publish W x t payload s1 = Some (s1, - 1)"
    using c(5) x
    by (simp add: stack_publish_def connected_call_def if_call_def publish_topic_of [OF assms(5,4)] MQTT_IF_Publish_def
        lock_def unlock_def unlocked)
  ultimately show ?thesis using check by blast
qed

definition context_example :: context_env where
  "context_example = \<lparr>ce_turns = [(0, False), (- 7, False)], ce_disc = (0, [], [Rx_Disconn]), ce_delete = 0, ce_posts = 0,
     ce_exit = 0\<rparr>"

lemma context_example_ends:
  assumes "codes_ok K" "mutex L" "cur L = Some c" "connectedState c" "awaitedAck c = 0" "ackSyncObj c = Some 0"
    and "waitForMqttClose L = Some 1" "syncRxTx L = Some 1" "\<not> multiSrvConn L" "MQTT_PACKET_ERR_TIMEOUT K \<noteq> - 7"
  shows "\<exists>L1 L2 r. MQTTClient_run K (ce_turns context_example) L = Some (L1, 0) \<and> app_events L1 = app_log c
    \<and> MQTTClient_delete K (Some 1) (ce_disc context_example) (ce_delete context_example) (ce_posts context_example)
        (ce_exit context_example) L1 = Some (L2, r) \<and> app_events L2 = app_log c @ [DISCONNECT_CB_EVENT]"
proof -
  let ?L1 = "L\<lparr>waitForMqttClose := Some 1, syncRxTx := Some 0\<rparr>"
  have "MQTTClient_run K (ce_turns context_example) L = Some (?L1, 0)"
    using assms(7-10) by (simp add: MQTTClient_run_def sem_dec_def context_example_def run_stops_def)
  moreover have "\<exists>c'. MQTTClient_disconnect_ctx K 0 [] [Rx_Disconn] c = Some (c', 0) \<and> app_log c' = app_log c @ [DISCONNECT_CB_EVENT]"
    using disconnect_then_again [OF assms(1,6), of 0] assms(1,5) by (auto simp: codes_ok_def)
  then obtain c' where c': "MQTTClient_disconnect_ctx K 0 [] [Rx_Disconn] c = Some (c', 0)"
    "app_log c' = app_log c @ [DISCONNECT_CB_EVENT]" by blast
  then have "\<exists>L2 r. MQTTClient_delete K (Some 1) (0, [], [Rx_Disconn]) 0 0 0 ?L1 = Some (L2, r)
      \<and> app_events L2 = app_log c @ [DISCONNECT_CB_EVENT]"
    using assms(2-4)
    by (simp add: MQTTClient_delete_def Let_def MQTTClient_disconnect_def on_ctx_def MqttClientCtxDelete_def delete_wait_def
        sem_dec_def) (simp add: ctx_zero_def)
  ultimately show ?thesis using assms(3) by (auto simp: context_example_def)
qed

lemma publish_races_deletion_witness:
  "\<exists>s s1. publish_check s = Some (s, True) \<and> stack_context world_example context_example s = Some s1
    \<and> publish_call world_example (0, [], []) ''t'' [1] s1 = None"
proof -
  let ?s = "connack_stack world_example 7 ''dev'' lib_example 0 0 0"
  let ?c = "answered world_example ''dev'' lib_example 0 0"
  have L: "mutex (st_lib ?s)" "cur (st_lib ?s) = Some ?c" "connectedState ?c" "awaitedAck ?c = 0" "ackSyncObj ?c = Some 0"
    "waitForMqttClose (st_lib ?s) = Some 1" "syncRxTx (st_lib ?s) = Some 1" "\<not> multiSrvConn (st_lib ?s)"
    "MQTT_PACKET_ERR_TIMEOUT std_codes \<noteq> - 7"
    by (simp_all add: connack_stack_def answered_def) (simp add: std_codes_def)
  have q: "mqttClient (st_if ?s) = Some 1" "moduleMutex (st_if ?s)" "\<not> locked (st_if ?s)"
    "msgQueue (st_if ?s) = [event_elem MQTT_EVENT_CONNACK]" "w_slack world_example = 5"
    by (simp_all add: connack_stack_def world_example_def)
  obtain s1 where s1: "stack_context world_example context_example ?s = Some s1"
    using context_example_ends [OF std_codes_ok L] L(2) q
    by (auto simp: stack_context_def lib_call_def lock_def unlock_def mq_send_def MQ_MAXMSG_def)
  have "coherent ?s" by (rule stack_coherent [OF connected_reached])
  then show ?thesis
    using publish_races_deletion [OF _ connack_example_connected q(1) _ _ s1, where t = TYPE_DATA and x = "(0, [], [])" and payload = "[1]"
        and topic = "''t''"] s1 q(5)
    by auto
qed

end
