(* ===== verification/Device.thy ===== *)
theory Device
  imports System_Props Mqtt_Stack_Props
begin

text \<open>
  The device from its start to its data: the start over the composed MQTT stack, the remaining phases of the main thread,
  and the running system. The start hands over the state of the MQTT module, the number that the server has given and the
  MAC address; the running system takes them as its own.
\<close>

section \<open>From the start to the running system\<close>

text \<open>What \<open>mainThread\<close> holds when the network phase is over.\<close>

definition network_done :: "mqtt_world \<Rightarrow> mqtt_stack \<Rightarrow> main_state \<Rightarrow> main_state" where
  "network_done W s w = w\<lparr>m_mqtt := st_if s, m_mac := w_mac W, m_id_device := st_dev s\<rparr>"

definition device_started :: "dma_table \<Rightarrow> main_env \<Rightarrow> mqtt_world \<Rightarrow> mqtt_stack \<Rightarrow> main_state \<Rightarrow> sys" where
  "device_started t e W s w = sys_started t e (network_done W s w)"

lemma online_live: "online W a cs s \<Longrightarrow> mq_live (st_if s)"
  using subscribed_ok [of W a cs s] by (auto simp: online_def mq_live_def if_inv_def)

lemma sys_started_frame:
  "y_mq (sys_started t e w) = m_mqtt w" "y_dev (sys_started t e w) = m_id_device w" "y_wifi (sys_started t e w) = m_wifi w"
  "y_dws_turns (sys_started t e w) = 0" "y_snd_pc (sys_started t e w) = Snd_pend" "y_snd_turns (sys_started t e w) = 0"
  "y_watch (sys_started t e w) = Watch_look"
  by (simp_all add: sys_started_def sys_boot_def main_loop_init_def main_threads_def spawn_def main_acquisition_def Let_def
      split: prod.splits)

text \<open>Only the end of the context thread ends the connection, and only the application thread changes the number.\<close>

lemma connection_step:
  assumes "sys_step slack ch ev s = Some s'" "ev \<noteq> Ev_context"
  shows "moduleState (y_mq s') = moduleState (y_mq s)"
proof (cases ev)
  case (Ev_send r)
  then show ?thesis
    using assms(1) by (auto simp: sys_send_def snd_publish_def split: bind_splits dest!: state_kept(3))
next
  case (Ev_second e)
  then obtain f q where "softtimer_body slack (e\<lparr>sec_wifi := y_wifi s, sec_dev := y_dev s\<rparr>)
      ((y_soft s)\<lparr>time_sync_status := status_time_sync (y_dws s)\<rparr>, y_mq s) = Some (f, q)" "y_mq s' = q"
    using assms(1) by (auto simp: sys_second_def)
  then show ?thesis
    by (auto simp: softtimer_body_def send_rssi_def Let_def split: bind_splits if_splits prod.splits dest!: state_kept(3))
next
  case (Ev_app rets)
  then show ?thesis using assms(1) app_thread_frame [of rets "y_mq s"] by (auto simp: sys_app_def split: bind_splits)
next
  case (Ev_client P e)
  then show ?thesis using assms(1) callback_frame [of P e "y_mq s"] by (auto simp: sys_client_def)
qed (use assms in \<open>auto simp: sys_defs Let_def split: bind_splits if_splits\<close>)

lemma number_step:
  assumes "sys_step slack ch ev s = Some s'" "\<And>rets. ev \<noteq> Ev_app rets"
  shows "y_dev s' = y_dev s"
  using assms by (cases ev) (auto simp: sys_defs sys_send_def sys_second_def sys_client_def sys_context_def Let_def split: bind_splits if_splits)

lemma connection_run:
  assumes "sys_run slack ch ok s0 evs s" "Ev_context \<notin> set evs"
  shows "moduleState (y_mq s) = moduleState (y_mq s0)"
  using assms by induction (auto dest: connection_step)

lemma number_run:
  assumes "sys_run slack ch ok s0 evs s" "\<forall>rets. Ev_app rets \<notin> set evs"
  shows "y_dev s = y_dev s0"
  using assms by induction (auto dest: number_step)

text \<open>
  (C1) The whole device: the client is connected, the broker accepts the connection and the subscription, and the server gives
  the number of the device, at whatever poll; five bytes are unused behind the arrays of \<open>mqtt_publish\<close>. Then the start returns
  and the acquisition runs. However the threads, the interrupt, the timer and the network interleave, however late they are and however
  long it lasts: while the context thread of the client has not ended, every publication of the
  data thread is defined and reaches the client. It goes under the data topic of the device's number, which is the one the server
  gave unless the application thread has handled a later message, with consecutive identifiers, and buffer \<open>i\<close> of message \<open>k\<close>
  carries the number of the last iteration of the downsampling thread that wrote to its place, and the averages of what this iteration
  found in the ring of the controller; this is iteration \<open>78 k + i\<close> as long as the downsampling thread is less than ten messages
  ahead. Iteration \<open>j\<close> found block \<open>j - 1\<close> if it was at most 28 blocks late and fewer than 65535 blocks had been captured.
\<close>

theorem device_publishes_blocks:
  assumes "connectable W c L" "co_exchange c = (sent0, [], [Rx_Ack (MQTT_CONNACK (w_codes W)) [b0, 0]])" "unat b0 < 128"
    and "0 < mq" "0 \<le> ack" "5 \<le> w_slack W" "length (w_mac W) = 6" "length (w_junk W) = 16"
    and "id_message W dev' mqp" "dev' \<noteq> 255"
    and "stack_start W mq a c cid
      (replicate k [] @ [[St_app [(ack, [], [Rx_Ack (MQTT_SUBACK (w_codes W)) [code]])]]])
      (map (\<lambda>x. ((x, [], []), [])) sents @ [((last_sent, [], []), [St_rx (rx_pub (dup, retain, mqp)), St_app []])])
      (stack_boot L dev) = Some s"
    and "m_isr w = isr_reset" "sys_run (w_slack W) (me_channel e) sized (device_started t e W s w) evs y"
    and "Ev_context \<notin> set evs" "y_snd_pc y = Snd_send"
  shows "\<exists>y' m. sys_step (w_slack W) (me_channel e) (Ev_send r) y = Some y' \<and> sent y' = Suc (sent y)
    \<and> pub_calls (y_mq y') = pub_calls (y_mq y) @ [(publish_topic TYPE_DATA (y_dev y), enc_msg_data m)]
    \<and> ((\<forall>rets. Ev_app rets \<notin> set evs) \<longrightarrow> y_dev y = dev')
    \<and> data_id (data_h m) = word_of_nat (sent y)
    \<and> (\<forall>i < 78. data_p m ! i = \<lparr>buffer_id = word_of_nat (newest (y_dws_turns y) (78 * sent y + i)),
         buf_p = downsample (found evs (newest (y_dws_turns y) (78 * sent y + i))) 0 50\<rparr>)
    \<and> (y_dws_turns y \<le> 78 * sent y + 780 \<longrightarrow>
        (\<forall>i < 78. newest (y_dws_turns y) (78 * sent y + i) = 78 * sent y + i))
    \<and> (\<forall>j < y_dws_turns y. caught evs j \<le> j + 28 \<and> caught evs j < 65535 \<longrightarrow> found evs j = seen (\<lambda>n. blocks evs ! n) j)"
proof -
  obtain cs where s: "st_dev s = dev'" "online W a cs s"
    using startup_online [OF assms(1-10), of a cid k code sents last_sent dup retain dev] assms(11) by auto
  let ?w = "network_done W s w"
  have w: "m_isr ?w = isr_reset" "mq_live (m_mqtt ?w)" "m_id_device ?w = dev'"
    "moduleState (m_mqtt ?w) = MQTT_STATE_CONNECTED"
    using assms(12) s online_live [OF s(2)] by (simp_all add: network_done_def online_def)
  note run = assms(13) [unfolded device_started_def]
  have "moduleState (y_mq y) = MQTT_STATE_CONNECTED"
    using connection_run [OF run assms(14)] w(4) by (simp add: sys_started_frame)
  moreover have "(\<forall>rets. Ev_app rets \<notin> set evs) \<longrightarrow> y_dev y = dev'"
    using number_run [OF run] w(3) by (simp add: sys_started_frame)
  ultimately show ?thesis
    using publish_blocks [OF w(1,2) assms(6) run assms(15), of r] by blast
qed

text \<open>The device with number 17, after its first 78 blocks.\<close>

lemma acquiring_only: "list_all acquiring evs \<Longrightarrow> Ev_context \<notin> set evs \<and> (\<forall>rets. Ev_app rets \<notin> set evs)"
  by (auto simp: list_all_iff dest: bspec)

theorem device_publishes_blocks_witness:
  "\<exists>s evs y y' m. stack_start world_example 1 7 (connect_example (0, [], [Rx_Ack 2 [0, 0]])) ''dev''
       (replicate 3 [] @ [[St_app [(0, [], [Rx_Ack 9 [0]])]]])
       (map (\<lambda>x. ((x, [], []), [])) [0, - 1] @ [((0, [], []), [St_rx (rx_pub (False, False, id_packet)), St_app []])])
       (stack_boot lib_example 0) = Some s
     \<and> sys_run 5 16 sized (device_started (\<lambda>_. armed UDMA_MODE_STOP 0 0 0) main_env_example world_example s sys_main_example) evs y
     \<and> sys_step 5 16 (Ev_send 0) y = Some y'
     \<and> pub_calls (y_mq y') = pub_calls (y_mq y) @ [(publish_topic TYPE_DATA 17, enc_msg_data m)]
     \<and> data_p m ! 5 = \<lparr>buffer_id = 5, buf_p = downsample (blocks evs ! 4) 0 50\<rparr>"
proof -
  let ?t = "\<lambda>_. armed UDMA_MODE_STOP 0 0 0"
  have w: "w_slack world_example = 5" "length (w_mac world_example) = 6" "length (w_junk world_example) = 16"
    by (simp_all add: world_example_def)
  have K: "MQTT_SUBACK std_codes = 9" "MQTT_CONNACK std_codes = 2" by (simp_all add: std_codes_def)
  have c: "co_exchange (connect_example (0, [], [Rx_Ack 2 [0, 0]])) = (0, [], [Rx_Ack (MQTT_CONNACK (w_codes world_example)) [0, 0]])"
    by (simp add: connect_example_def K)
  note con = connectable_example [of 0 "[]" "[Rx_Ack 2 [0, 0]]"]
  from startup_online [OF con c, of 1 0 17 id_packet 7 "''dev''" 3 0 "[0, - 1]" 0 False False 0] obtain s cs where
    s: "stack_start world_example 1 7 (connect_example (0, [], [Rx_Ack 2 [0, 0]])) ''dev''
       (replicate 3 [] @ [[St_app [(0, [], [Rx_Ack 9 [0]])]]])
       (map (\<lambda>x. ((x, [], []), [])) [0, - 1] @ [((0, [], []), [St_rx (rx_pub (False, False, id_packet)), St_app []])])
       (stack_boot lib_example 0) = Some s" "st_dev s = 17" "online world_example 7 cs s"
    using w id_packet_ok by (auto simp: K)
  let ?w = "network_done world_example s sys_main_example"
  have m: "m_isr sys_main_example = isr_reset" "m_isr ?w = isr_reset" "mq_live (m_mqtt ?w)" "m_id_device ?w = 17"
    "m_wifi ?w = wifi_example\<lparr>g_ulStatus := 2\<rparr>"
    using online_live [OF s(3)] s(2) sys_main_ok(1) by (simp_all add: network_done_def) (simp add: sys_main_example_def)
  have i: "sys_inv 16 [] (sys_started ?t main_env_example ?w)"
    using started_inv [OF m(2,3), of main_env_example] by simp
  obtain evs y where y: "list_all acquiring evs"
    "sys_run 5 16 sized (sys_started ?t main_env_example ?w) (evs @ [Ev_look wifi_env_example, Ev_wake, Ev_poll]) y"
    "length (blocks evs) = 78" "y_snd_pc y = Snd_send" "y_dws_turns y = 78" "sent y = 0"
    "found (evs @ [Ev_look wifi_env_example, Ev_wake, Ev_poll]) 5 = blocks evs ! 4"
    using run_first_message [OF i, of 5] m(5) by (auto simp: sys_started_frame)
  let ?evs = "evs @ [Ev_look wifi_env_example, Ev_wake, Ev_poll]"
  have q: "Ev_context \<notin> set ?evs" "\<forall>rets. Ev_app rets \<notin> set ?evs" using acquiring_only [OF y(1)] by simp_all
  have r: "sys_run (w_slack world_example) (me_channel main_env_example) sized
      (device_started ?t main_env_example world_example s sys_main_example) ?evs y"
    using y(2) w(1) by (simp add: device_started_def)
  obtain y' m where "sys_step 5 16 (Ev_send 0) y = Some y'"
    "pub_calls (y_mq y') = pub_calls (y_mq y) @ [(publish_topic TYPE_DATA (y_dev y), enc_msg_data m)]"
    "y_dev y = 17"
    "\<forall>i < 78. data_p m ! i = \<lparr>buffer_id = word_of_nat (newest (y_dws_turns y) (78 * sent y + i)),
         buf_p = downsample (found ?evs (newest (y_dws_turns y) (78 * sent y + i))) 0 50\<rparr>"
    using device_publishes_blocks [OF con c, of 1 0 17 id_packet 7 "''dev''" 3 0 "[0, - 1]" 0 False False 0 s
        sys_main_example main_env_example ?t ?evs y 0] s(1) w id_packet_ok m(1) r q y(4) by (auto simp: K)
  moreover from this(4) have "data_p m ! 5 = \<lparr>buffer_id = 5, buf_p = downsample (blocks ?evs ! 4) 0 50\<rparr>"
    by (auto simp: y(5,6,7) newest_id blocks_append nth_append y(3) [unfolded blocks_append] dest: spec [of _ 5])
  ultimately show ?thesis
    using s(1) r w(1) by (intro exI [of _ s] exI [of _ ?evs] exI [of _ y] exI [of _ y'] exI [of _ m]) simp
qed

end
