(* ===== verification/Uart_Term.thy ===== *)
theory Uart_Term
  imports Prelude "HOL-Library.Monad_Syntax"
begin

text \<open>
  \<open>uart_term.c\<close>: the terminal. The characters that will be received are a list \<open>rx\<close>, those sent a list \<open>tx\<close>; a read
  from the exhausted list waits for ever (\<open>None\<close>), like an access outside an array.
\<close>

section \<open>Characters\<close>

abbreviation NUL :: char where "NUL \<equiv> CHR 0x00"
abbreviation BEL :: char where "BEL \<equiv> CHR 0x07"
abbreviation BS :: char where "BS \<equiv> CHR 0x08"
abbreviation LF :: char where "LF \<equiv> CHR 0x0A"
abbreviation CR :: char where "CR \<equiv> CHR 0x0D"

definition IS_SPACE :: "char \<Rightarrow> bool" where
  "IS_SPACE x \<longleftrightarrow> x = CHR '' ''"

record uart =
  rx :: string
  tx :: string

datatype uart_setting = UART_DATA_BINARY | UART_RETURN_FULL | UART_ECHO_OFF | UART_BAUD nat | UART_CMD_RXDISABLE

text \<open>The settings of the port, in the order in which they are made.\<close>

definition InitTerm :: "uart_setting list" where
  "InitTerm = [UART_DATA_BINARY, UART_DATA_BINARY, UART_RETURN_FULL, UART_ECHO_OFF, UART_BAUD 115200, UART_CMD_RXDISABLE]"

text \<open>The characters of an array that \<open>strlen\<close> counts: those before the first NUL, or before the final one.\<close>

definition c_string :: "string \<Rightarrow> string" where
  "c_string str = takeWhile (\<lambda>c. c \<noteq> NUL) str"

definition Message :: "string \<Rightarrow> uart \<Rightarrow> uart" where
  "Message str u = u\<lparr>tx := tx u @ c_string str\<rparr>"

lemma c_string_whole: "NUL \<notin> set str \<Longrightarrow> c_string str = str"
  by (auto simp: c_string_def takeWhile_eq_all_conv)

definition ClearTerm :: "uart \<Rightarrow> uart" where
  "ClearTerm = Message (CHR 0x1B # ''[2J'' @ [CR])"

definition putch :: "char \<Rightarrow> uart \<Rightarrow> uart" where
  "putch ch u = u\<lparr>tx := tx u @ [ch]\<rparr>"

definition getch :: "uart \<Rightarrow> (char \<times> uart) option" where
  "getch u = (case rx u of [] \<Rightarrow> None | c # cs \<Rightarrow> Some (c, u\<lparr>rx := cs\<rparr>))"

section \<open>Formatted output\<close>

text \<open>
  \<open>Report\<close>: the buffer is doubled until the text fits. \<open>need\<close> is what \<open>vsnprintf\<close> returns, \<open>text\<close> the complete text (in which
  the conversion \<open>%c\<close> can put NULs), of which the buffer takes all that fits before its final NUL,
  \<open>ok n\<close> whether \<open>n\<close> bytes can be allocated. The result of the loop is the value of \<open>iRet\<close>, the size in which the text was
  formatted last and whether the memory sufficed. The size is a signed 32-bit integer, whose overflow is undefined.
\<close>

partial_function (option) Report_loop :: "(nat \<Rightarrow> bool) \<Rightarrow> int \<Rightarrow> nat \<Rightarrow> (int \<times> nat \<times> bool) option" where
  "Report_loop ok need iSize =
     (if need > - 1 \<and> need < int iSize then Some (need, iSize, True)
      else if 2 ^ 31 \<le> iSize * 2 then None
      else if \<not> ok (iSize * 2) then Some (- 1, iSize, False)
      else Report_loop ok need (iSize * 2))"

declare Report_loop.simps [code]

definition Report :: "(nat \<Rightarrow> bool) \<Rightarrow> int \<Rightarrow> string \<Rightarrow> uart \<Rightarrow> (uart \<times> int) option" where
  "Report ok need text u =
     (if \<not> ok 256 then Some (u, - 1)
      else do { (iRet, iSize, enough) \<leftarrow> Report_loop ok need 256;
                let u1 = (if enough then u else Message (''Could not reallocate memory'' @ [LF, CR]) u);
                Some (Message (take (iSize - 1) text) u1, iRet) })"

lemma Report_loop_fits:
  "(\<And>k. ok k) \<Longrightarrow> need < 2 ^ 30 \<Longrightarrow> 0 < iSize \<Longrightarrow> 0 \<le> need \<Longrightarrow>
   \<exists>n. Report_loop ok need iSize = Some (need, n, True) \<and> need < int n"
proof (induction "nat (need + 1) - iSize" arbitrary: iSize rule: less_induct)
  case less
  show ?case
  proof (cases "need < int iSize")
    case True
    then show ?thesis using less.prems by (intro exI [of _ iSize]) (simp add: Report_loop.simps)
  next
    case False
    then have "Report_loop ok need iSize = Report_loop ok need (iSize * 2)"
      using less.prems by (simp add: Report_loop.simps [of ok need iSize])
    moreover have "\<exists>n. Report_loop ok need (iSize * 2) = Some (need, n, True) \<and> need < int n"
      by (rule less.hyps) (use False less.prems in auto)
    ultimately show ?thesis by simp
  qed
qed

text \<open>
  (C40) The doubling loop ends: when every allocation succeeds, a formatted text of fewer than 2 ^ 30 characters is sent up to its
  first NUL, and so as a whole if it contains none; the result is the length of the whole text, also when a NUL has cut it.
\<close>

theorem report_prints_text:
  assumes "\<And>k. ok k" "length text < 2 ^ 30"
  shows "Report ok (int (length text)) text u = Some (u\<lparr>tx := tx u @ c_string text\<rparr>, int (length text))
    \<and> (NUL \<notin> set text \<longrightarrow> c_string text = text)
    \<and> (\<forall>pre post. text = pre @ NUL # post \<and> NUL \<notin> set pre \<longrightarrow> c_string text = pre)"
proof -
  obtain n where "Report_loop ok (int (length text)) 256 = Some (int (length text), n, True)" "length text < n"
    using Report_loop_fits [of ok "int (length text)" 256] assms by auto
  then have "Report ok (int (length text)) text u = Some (u\<lparr>tx := tx u @ c_string text\<rparr>, int (length text))"
    using assms(1) by (simp add: Report_def Message_def)
  moreover have "c_string (pre @ NUL # post) = pre" if "NUL \<notin> set pre" for pre post
    using that by (induction pre) (auto simp: c_string_def)
  ultimately show ?thesis using c_string_whole by blast
qed

theorem report_prints_text_witness:
  "Report (\<lambda>k. True) 300 (replicate 300 CHR ''a'') \<lparr>rx = [], tx = ''>''\<rparr>
     = Some (\<lparr>rx = [], tx = ''>'' @ replicate 300 CHR ''a''\<rparr>, 300)
   \<and> Report (\<lambda>k. True) 3 [CHR ''a'', NUL, CHR ''b''] \<lparr>rx = [], tx = []\<rparr> = Some (\<lparr>rx = [], tx = ''a''\<rparr>, 3)"
proof -
  have "NUL \<notin> set (replicate 300 CHR ''a'')" by simp
  then have "c_string (replicate 300 CHR ''a'') = replicate 300 CHR ''a''" by (rule c_string_whole)
  then show ?thesis
    using report_prints_text [of "\<lambda>k. True" "replicate 300 CHR ''a''" "\<lparr>rx = [], tx = ''>''\<rparr>"]
      report_prints_text [of "\<lambda>k. True" "[CHR ''a'', NUL, CHR ''b'']" "\<lparr>rx = [], tx = []\<rparr>"]
    by (simp add: c_string_def)
qed

text \<open>A negative result of \<open>vsnprintf\<close>, its way to report an error, is taken for a lack of space.\<close>

lemma report_format_error:
  assumes "need < 0" "\<And>k. ok k"
  shows "Report ok need text u = None"
proof -
  have "Report_loop ok need iSize = None" if "0 < iSize" for iSize
    using that
  proof (induction "2 ^ 31 - iSize" arbitrary: iSize rule: less_induct)
    case less
    then show ?case using assms by (subst Report_loop.simps) auto
  qed
  then show ?thesis using assms(2) by (simp add: Report_def)
qed

section \<open>Trimming\<close>

text \<open>\<open>strlen (mem + i)\<close>.\<close>

definition c_strlen :: "string \<Rightarrow> nat \<Rightarrow> nat option" where
  "c_strlen mem i =
     (let n = length (takeWhile (\<lambda>c. c \<noteq> NUL) (drop i mem)) in if i + n < length mem then Some n else None)"

text \<open>The two loops: the index behind the last character that is no space, and that of the first such character.\<close>

primrec trim_end :: "string \<Rightarrow> nat \<Rightarrow> nat" where
  "trim_end mem 0 = 0"
| "trim_end mem (Suc e) = (if IS_SPACE (mem ! e) then trim_end mem e else Suc e)"

function trim_start :: "string \<Rightarrow> nat \<Rightarrow> nat option" where
  "trim_start mem i =
     (if i < length mem then if mem ! i \<noteq> NUL \<and> IS_SPACE (mem ! i) then trim_start mem (Suc i) else Some i
      else None)"
  by pat_completeness auto
termination by (relation "measure (\<lambda>(mem, i). length mem - i)") auto

declare trim_start.simps [simp del]

definition TrimSpace :: "string \<Rightarrow> (string \<times> nat) option" where
  "TrimSpace pcInput =
     do { sz \<leftarrow> c_strlen pcInput 0;
          if sz = 0 then Some (pcInput, 0)
          else do { m1 \<leftarrow> wr pcInput (trim_end pcInput sz) NUL;
                    strData \<leftarrow> trim_start m1 0;
                    n \<leftarrow> c_strlen m1 strData;
                    m2 \<leftarrow> poke m1 0 (take (n + 1) (drop strData m1));
                    k \<leftarrow> c_strlen m2 0;
                    Some (m2, k) } }"

definition rstrip :: "string \<Rightarrow> string" where
  "rstrip s = rev (dropWhile IS_SPACE (rev s))"

definition strip :: "string \<Rightarrow> string" where
  "strip s = dropWhile IS_SPACE (rstrip s)"

lemma takeWhile_to_NUL: "NUL \<notin> set s \<Longrightarrow> takeWhile (\<lambda>c. c \<noteq> NUL) (s @ NUL # rest) = s"
  by (induction s) auto

lemma c_strlen_string:
  "NUL \<notin> set s \<Longrightarrow> c_strlen (pre @ s @ NUL # rest) (length pre) = Some (length s)"
  by (simp add: c_strlen_def takeWhile_to_NUL)

lemmas c_strlen_string0 = c_strlen_string [of _ "[]", simplified]

lemma rstrip_take: "\<exists>x. s = rstrip s @ x"
  by (metis rev_append rev_rev_ident rstrip_def takeWhile_dropWhile_id)

lemma trim_end_rstrip: "trim_end (s @ x) (length s) = length (rstrip s)"
proof (induction s arbitrary: x rule: rev_induct)
  case Nil
  then show ?case by (simp add: rstrip_def)
next
  case (snoc c s)
  then show ?case using snoc [of "c # x"] by (auto simp: rstrip_def nth_append)
qed

lemma trim_start_lead:
  "NUL \<notin> set r \<Longrightarrow> trim_start (pre @ r @ NUL # x) (length pre) = Some (length pre + length (takeWhile IS_SPACE r))"
proof (induction r arbitrary: pre)
  case Nil
  then show ?case by (simp add: trim_start.simps nth_append)
next
  case (Cons c r)
  show ?case
  proof (cases "IS_SPACE c")
    case True
    then have "trim_start (pre @ (c # r) @ NUL # x) (length pre) = trim_start ((pre @ [c]) @ r @ NUL # x) (length (pre @ [c]))"
      using Cons.prems by (subst trim_start.simps) (auto simp: nth_append)
    also have "\<dots> = Some (length (pre @ [c]) + length (takeWhile IS_SPACE r))"
      by (rule Cons.IH) (use Cons.prems in simp)
    finally show ?thesis using True by simp
  qed (use Cons.prems in \<open>simp add: trim_start.simps nth_append\<close>)
qed

lemma trim_space_steps:
  assumes "c_strlen mem 0 = Some sz" "sz \<noteq> 0" "wr mem (trim_end mem sz) NUL = Some m1" "trim_start m1 0 = Some i"
    and "c_strlen m1 i = Some n" "poke m1 0 (take (n + 1) (drop i m1)) = Some m2" "c_strlen m2 0 = Some k"
  shows "TrimSpace mem = Some (m2, k)"
  using assms by (simp add: TrimSpace_def)

text \<open>
  \<open>TrimSpace\<close> removes exactly the spaces at both ends of its string, in place and inside its array, and returns the
  length of what is left, also for an empty string and one that consists of spaces.
\<close>

theorem trim_space_strips:
  assumes "NUL \<notin> set s"
  shows "\<exists>mem. TrimSpace (s @ NUL # rest) = Some (mem, length (strip s))
    \<and> take (length (strip s) + 1) mem = strip s @ [NUL] \<and> length mem = length (s @ NUL # rest)"
proof (cases "s = []")
  case True
  then show ?thesis using c_strlen_string0 [of "[]" rest] by (simp add: TrimSpace_def strip_def rstrip_def)
next
  case False
  obtain x where x: "s = rstrip s @ x" using rstrip_take by blast
  let ?r = "rstrip s"
  obtain y where y: "x @ NUL # rest = hd (x @ [NUL]) # y" by (cases x) auto
  let ?m1 = "?r @ NUL # y"
  have nul: "NUL \<notin> set ?r" using assms x by (metis Un_iff set_append)
  have m1: "(s @ NUL # rest)[length ?r := NUL] = ?m1"
    using x y by (metis append.assoc list_update_length)
  let ?i = "length (takeWhile IS_SPACE ?r)"
  have start: "trim_start ?m1 0 = Some ?i"
    using trim_start_lead [OF nul, of "[]" y] by simp
  have t: "takeWhile IS_SPACE ?r @ strip s = ?r" by (simp add: strip_def)
  then have m1': "?m1 = takeWhile IS_SPACE ?r @ strip s @ NUL # y" by (metis append.assoc)
  have nul': "NUL \<notin> set (strip s)" using nul t by (metis Un_iff set_append)
  have len: "c_strlen ?m1 ?i = Some (length (strip s))"
    unfolding m1' by (rule c_strlen_string [OF nul'])
  let ?m2 = "strip s @ NUL # drop (length (strip s) + 1) ?m1"
  have "take (length (strip s) + 1) (drop ?i ?m1) = strip s @ [NUL]"
    by (simp add: m1' del: takeWhile_dropWhile_id)
  moreover have "length (strip s) + 1 \<le> length ?m1" by (simp add: m1')
  ultimately have move: "poke ?m1 0 (take (length (strip s) + 1) (drop ?i ?m1)) = Some ?m2"
    by (simp add: poke_def)
  have "trim_end (s @ NUL # rest) (length s) = length ?r" by (rule trim_end_rstrip)
  moreover have "length ?r \<le> length s" using x by (metis le_add1 length_append)
  ultimately have "TrimSpace (s @ NUL # rest) = Some (?m2, length (strip s))"
    using False m1 start len move c_strlen_string0 [OF assms, of rest] c_strlen_string0 [OF nul']
    by (intro trim_space_steps [where sz = "length s" and ?m1.0 = ?m1 and i = ?i and n = "length (strip s)"])
      (simp_all add: wr_def)
  moreover have "length ?m2 = length (s @ NUL # rest)"
    using move m1 by (metis length_list_update poke_length)
  ultimately show ?thesis by simp
qed

theorem trim_space_strips_witness:
  "\<exists>mem. TrimSpace (''  a b '' @ [NUL]) = Some (mem, 3) \<and> take 4 mem = ''a b'' @ [NUL]"
  using trim_space_strips [of "''  a b ''" "[]"] by (simp add: strip_def rstrip_def IS_SPACE_def numeral_eq_Suc) blast

section \<open>Reading a command\<close>

text \<open>
  The loop of \<open>GetCmd\<close>: \<open>c\<close> is \<open>cChar\<close>, \<open>n\<close> the size of the buffer; the result is the length or -1, with the buffer. The echo of a
  backspace is a backspace and a space, and then another backspace, or the bell when the line is empty.
\<close>

fun GetCmd_loop :: "nat \<Rightarrow> char \<Rightarrow> nat \<Rightarrow> string \<Rightarrow> string \<Rightarrow> string \<Rightarrow> (int \<times> string \<times> uart) option" where
  "GetCmd_loop n c iLen buf input out =
     (if n \<le> iLen then Some (- 1, buf, \<lparr>rx = input, tx = out\<rparr>)
      else if c = CR \<or> c = LF then
        do { buf' \<leftarrow> wr buf iLen NUL; Some (int iLen, buf', \<lparr>rx = input, tx = out @ [c]\<rparr>) }
      else if c = BS then
        (case input of
           [] \<Rightarrow> None
         | c' # input' \<Rightarrow>
             if iLen \<noteq> 0 then GetCmd_loop n c' (iLen - 1) buf input' (out @ [c, CHR '' '', c])
             else GetCmd_loop n c' iLen buf input' (out @ [c, CHR '' '', BEL]))
      else
        do { buf' \<leftarrow> wr buf iLen c;
             (case input of
                [] \<Rightarrow> None
              | c' # input' \<Rightarrow> GetCmd_loop n c' (iLen + 1) buf' input' (out @ [c])) })"

declare GetCmd_loop.simps [simp del]

definition GetCmd :: "string \<Rightarrow> nat \<Rightarrow> uart \<Rightarrow> (int \<times> string \<times> uart) option" where
  "GetCmd pcBuffer uiBufLen u = do { (c, u1) \<leftarrow> getch u; GetCmd_loop uiBufLen c 0 pcBuffer (rx u1) (tx u1) }"

text \<open>The line that a sequence of keys edits.\<close>

definition edit :: "string \<Rightarrow> char \<Rightarrow> string" where
  "edit l key = (if key = BS then butlast l else l @ [key])"

definition ends_line :: "char \<Rightarrow> bool" where
  "ends_line c \<longleftrightarrow> c = CR \<or> c = LF"

lemma GetCmd_loop_line:
  assumes "list_all (\<lambda>c. \<not> ends_line c) ks" "ends_line t" "c # input = ks @ t # rest"
    and "take (length l) buf = l" "n \<le> length buf" "length l \<le> length buf"
    and "\<forall>i \<le> length ks. length (foldl edit l (take i ks)) < n"
  shows "\<exists>buf' out'. GetCmd_loop n c (length l) buf input out
      = Some (int (length (foldl edit l ks)), buf', \<lparr>rx = rest, tx = out'\<rparr>)
    \<and> take (length (foldl edit l ks) + 1) buf' = foldl edit l ks @ [NUL] \<and> length buf' = length buf"
  using assms
proof (induction ks arbitrary: c input l buf out)
  case Nil
  have len: "length l < n" using Nil.prems(7) by simp
  then have "take (length l + 1) (buf[length l := NUL]) = l @ [NUL]"
    using Nil.prems(4,5) by (simp add: take_Suc_conv_app_nth)
  then show ?case
    using Nil.prems len by (simp add: GetCmd_loop.simps ends_line_def)
next
  case (Cons k ks)
  have k: "c = k" "input = ks @ t # rest" "\<not> ends_line k" using Cons.prems(1,3) by simp_all
  obtain c' input' where i: "input = c' # input'" "c' # input' = ks @ t # rest"
    using k(2) by (cases input) (auto simp: Cons_eq_append_conv)
  have len: "length l < n" using Cons.prems(7) by (metis foldl_Nil le0 take0)
  have rest: "\<forall>i \<le> length ks. length (foldl edit (edit l k) (take i ks)) < n"
  proof (intro allI impI)
    fix i assume "i \<le> length ks"
    then show "length (foldl edit (edit l k) (take i ks)) < n"
      using Cons.prems(7) [rule_format, of "Suc i"] by simp
  qed
  have ks: "list_all (\<lambda>c. \<not> ends_line c) ks" using Cons.prems(1) by simp
  show ?case
  proof (cases "k = BS")
    case True
    have e: "edit l k = butlast l" "length (edit l k) = length l - 1" using True by (simp_all add: edit_def)
    have b: "take (length (edit l k)) buf = edit l k"
      using Cons.prems(4,6) e by (metis butlast_conv_take butlast_take diff_le_self length_take min.absorb2)
    have "length (edit l k) \<le> length buf" using e Cons.prems(6) by simp
    note IH = Cons.IH [OF ks Cons.prems(2) i(2) b Cons.prems(5) this rest]
    have "\<exists>o'. GetCmd_loop n c (length l) buf input out = GetCmd_loop n c' (length (edit l k)) buf input' o'"
      using k(1,3) True i(1) len e(2) by (subst GetCmd_loop.simps) (auto simp: ends_line_def)
    with IH show ?thesis by auto
  next
    case False
    have e: "edit l k = l @ [k]" using False by (simp add: edit_def)
    have b: "take (length (edit l k)) (buf[length l := k]) = edit l k"
      using Cons.prems(4,5) len e by (simp add: take_Suc_conv_app_nth)
    have "n \<le> length (buf[length l := k])" "length (edit l k) \<le> length (buf[length l := k])"
      using len Cons.prems(5) e by simp_all
    note IH = Cons.IH [OF ks Cons.prems(2) i(2) b this rest]
    have "GetCmd_loop n c (length l) buf input out
        = GetCmd_loop n c' (length (edit l k)) (buf[length l := k]) input' (out @ [k])"
      using k(1,3) False i(1) len e Cons.prems(5) by (subst GetCmd_loop.simps) (simp add: ends_line_def)
    with IH [of "out @ [k]"] show ?thesis by simp
  qed
qed

lemma GetCmd_loop_full:
  assumes "list_all (\<lambda>c. \<not> ends_line c) ks" "c # input = ks @ t # rest" "n \<le> length buf"
    and "\<exists>i \<le> length ks. n \<le> length (foldl edit l (take i ks))"
  shows "\<exists>buf' u. GetCmd_loop n c (length l) buf input out = Some (- 1, buf', u)"
  using assms
proof (induction ks arbitrary: c input l buf out)
  case Nil
  then show ?case by (simp add: GetCmd_loop.simps)
next
  case (Cons k ks)
  show ?case
  proof (cases "n \<le> length l")
    case True
    then show ?thesis by (simp add: GetCmd_loop.simps)
  next
    case False
    have k: "c = k" "input = ks @ t # rest" "\<not> ends_line k" using Cons.prems(1,2) by simp_all
    obtain c' input' where i: "input = c' # input'" "c' # input' = ks @ t # rest"
      using k(2) by (cases input) (auto simp: Cons_eq_append_conv)
    obtain j where j: "j \<le> length (k # ks)" "n \<le> length (foldl edit l (take j (k # ks)))"
      using Cons.prems(4) by blast
    then obtain j' where "j = Suc j'" using False by (cases j) auto
    then have later: "\<exists>i \<le> length ks. n \<le> length (foldl edit (edit l k) (take i ks))"
      using j by auto
    have ks: "list_all (\<lambda>c. \<not> ends_line c) ks" using Cons.prems(1) by simp
    have "length (edit l k) = (if k = BS then length l - 1 else length l + 1)" by (simp add: edit_def)
    then have "\<exists>buf1 o'. length buf1 = length buf \<and>
        GetCmd_loop n c (length l) buf input out = GetCmd_loop n c' (length (edit l k)) buf1 input' o'"
    proof (cases "k = BS")
      case True
      then show ?thesis
        using k(1,3) i(1) False \<open>length (edit l k) = _\<close>
        by (subst GetCmd_loop.simps) (auto simp: ends_line_def)
    next
      case no_bs: False
      then show ?thesis
        using k(1,3) i(1) False Cons.prems(3) \<open>length (edit l k) = _\<close>
        by (intro exI [of _ "buf[length l := k]"] exI [of _ "out @ [k]"])
          (subst GetCmd_loop.simps, simp add: ends_line_def)
    qed
    then show ?thesis
      using Cons.IH [OF ks i(2) _ later] Cons.prems(3) by metis
  qed
qed

text \<open>
  (C39) \<open>GetCmd\<close> is a line editor: of the keys up to the end of the line it returns the line that they edit, a backspace
  taking back the last character, with its length and a final NUL in the buffer; it never leaves the buffer, and it
  returns -1 exactly when the line at some moment fills the whole buffer.
\<close>

theorem get_cmd_edits_line:
  assumes "list_all (\<lambda>c. \<not> ends_line c) ks" "ends_line t" "length buf = n"
  shows "\<exists>r buf' u. GetCmd buf n \<lparr>rx = ks @ t # rest, tx = out\<rparr> = Some (r, buf', u)
    \<and> (if \<forall>i \<le> length ks. length (foldl edit [] (take i ks)) < n
       then r = int (length (foldl edit [] ks)) \<and> rx u = rest
         \<and> take (length (foldl edit [] ks) + 1) buf' = foldl edit [] ks @ [NUL] \<and> length buf' = n
       else r = - 1)"
proof -
  obtain c input where c: "c # input = ks @ t # rest" by (cases ks) auto
  then have start: "GetCmd buf n \<lparr>rx = ks @ t # rest, tx = out\<rparr> = GetCmd_loop n c (length ([] :: string)) buf input out"
    by (simp add: GetCmd_def getch_def flip: c)
  show ?thesis
  proof (cases "\<forall>i \<le> length ks. length (foldl edit [] (take i ks)) < n")
    case True
    have "\<exists>buf' out'. GetCmd_loop n c (length ([] :: string)) buf input out
        = Some (int (length (foldl edit [] ks)), buf', \<lparr>rx = rest, tx = out'\<rparr>)
      \<and> take (length (foldl edit [] ks) + 1) buf' = foldl edit [] ks @ [NUL] \<and> length buf' = length buf"
      by (rule GetCmd_loop_line [OF assms(1,2) c]) (use True assms(3) in simp_all)
    then show ?thesis using True assms(3) unfolding start by auto
  next
    case False
    then have "\<exists>i \<le> length ks. n \<le> length (foldl edit [] (take i ks))" by (simp add: not_less)
    from GetCmd_loop_full [OF assms(1) c _ this] assms(3) show ?thesis
      unfolding start using False by fastforce
  qed
qed

theorem get_cmd_edits_line_witness:
  "\<exists>buf' u. GetCmd (replicate 4 CHR ''x'') 4 \<lparr>rx = [CHR ''a'', CHR ''b'', BS, CHR ''c'', CR, CHR ''d''], tx = []\<rparr>
     = Some (2, buf', u) \<and> take 3 buf' = ''ac'' @ [NUL] \<and> rx u = ''d''"
proof -
  have "\<forall>i \<le> 4. length (foldl edit [] (take i [CHR ''a'', CHR ''b'', BS, CHR ''c''])) < 4"
    by (auto simp: edit_def le_Suc_eq numeral_eq_Suc)
  moreover have "foldl edit [] [CHR ''a'', CHR ''b'', BS, CHR ''c''] = ''ac''"
    by (simp add: edit_def)
  ultimately show ?thesis
    using get_cmd_edits_line [of "[CHR ''a'', CHR ''b'', BS, CHR ''c'']" CR "replicate 4 CHR ''x''" 4 "''d''" "[]"]
    by (simp add: ends_line_def numeral_eq_Suc) blast
qed

end
